(* ===== verification/Prelude.thy ===== *)
theory Prelude
  imports Main "HOL-Library.Word"
begin

text \<open>
  What every component shares: the result type that stands for Rust's \<open>Result\<close> (with the panics
  the code can reach as a third outcome), the machine integers, strings as sequences of Unicode
  scalar values with the standard-library operations the code applies to them, and lemmas about
  sorted lists and list prefixes.
\<close>

section \<open>Results\<close>

text \<open>
  A Rust function returning \<open>Result<'a, 'e>\<close> either returns or panics; \<open>?\<close> is
  \<open>bind_res\<close>, which stops at the first error and at the first panic.
\<close>

datatype ('e, 'a) result = Ok 'a | Err 'e | Panic string

named_theorems res_simps

fun bind_res :: "('e, 'a) result \<Rightarrow> ('a \<Rightarrow> ('e, 'b) result) \<Rightarrow> ('e, 'b) result" where
  "bind_res (Ok a) f = f a"
| "bind_res (Err e) f = Err e"
| "bind_res (Panic p) f = Panic p"

fun map_res :: "('a \<Rightarrow> 'b) \<Rightarrow> ('e, 'a) result \<Rightarrow> ('e, 'b) result" where
  "map_res f (Ok a) = Ok (f a)"
| "map_res f (Err e) = Err e"
| "map_res f (Panic p) = Panic p"

fun map_err :: "('e \<Rightarrow> 'f) \<Rightarrow> ('e, 'a) result \<Rightarrow> ('f, 'a) result" where
  "map_err f (Ok a) = Ok a"
| "map_err f (Err e) = Err (f e)"
| "map_err f (Panic p) = Panic p"

fun is_ok :: "('e, 'a) result \<Rightarrow> bool" where
  "is_ok (Ok a) = True"
| "is_ok r = False"

text \<open>Collecting an iterator of results into a result of a vector: the first failure wins.\<close>

fun collect_res :: "('e, 'a) result list \<Rightarrow> ('e, 'a list) result" where
  "collect_res [] = Ok []"
| "collect_res (r # rs) = bind_res r (\<lambda>a. map_res (Cons a) (collect_res rs))"

lemma bind_res_eq_Ok [res_simps]:
  "bind_res r f = Ok b \<longleftrightarrow> (\<exists>a. r = Ok a \<and> f a = Ok b)"
  by (cases r) auto

lemma map_res_eq_Ok [res_simps]: "map_res f r = Ok b \<longleftrightarrow> (\<exists>a. r = Ok a \<and> b = f a)"
  by (cases r) auto

lemma map_err_eq_Ok [res_simps]: "map_err f r = Ok b \<longleftrightarrow> r = Ok b"
  by (cases r) auto

lemma is_ok_iff [res_simps]: "is_ok r \<longleftrightarrow> (\<exists>a. r = Ok a)"
  by (cases r) auto

lemma collect_res_map_Ok:
  "(\<And>x. x \<in> set xs \<Longrightarrow> f x = Ok (g x)) \<Longrightarrow> collect_res (map f xs) = Ok (map g xs)"
  by (induction xs) auto

section \<open>Machine integers\<close>

type_synonym u8 = "8 word"
type_synonym u16 = "16 word"
type_synonym u32 = "32 word"
type_synonym u64 = "64 word"

text \<open>
  The signed 64-bit columns of the database are \<open>int\<close> values; the two conversions check their
  range, so the bound is written out.
\<close>

definition i64_max :: int where
  "i64_max = 2 ^ 63 - 1"

lemma i64_max_eq: "i64_max = 9223372036854775807"
  by (simp add: i64_max_def)

lemma uint_u64_bound: "uint (x :: u64) < 18446744073709551616"
  using uint_lt2p [of x] by simp

lemma uint_word_of_int_64:
  "0 \<le> i \<Longrightarrow> i < 18446744073709551616 \<Longrightarrow> uint (word_of_int i :: u64) = i"
  by (simp add: uint_word_of_int)

section \<open>Lists\<close>

lemma sorted_wrt_append_iff:
  "sorted_wrt P (xs @ ys) \<longleftrightarrow>
     sorted_wrt P xs \<and> sorted_wrt P ys \<and> (\<forall>x\<in>set xs. \<forall>y\<in>set ys. P x y)"
  by (induction xs) auto

lemma sorted_wrt_filter_imp: "sorted_wrt P xs \<Longrightarrow> sorted_wrt P (filter Q xs)"
  by (induction xs) auto

lemma sorted_wrt_take_imp: "sorted_wrt P xs \<Longrightarrow> sorted_wrt P (take n xs)"
proof -
  assume "sorted_wrt P xs"
  then have "sorted_wrt P (take n xs @ drop n xs)" by simp
  then show ?thesis by (simp only: sorted_wrt_append_iff)
qed

text \<open>
  The cursor lemma behind every page walk: in a strictly sorted list, what lies beyond the last
  element of a non-empty front segment is exactly the rest.
\<close>

lemma filter_greater_last_take:
  assumes "sorted_wrt (<) (map f xs)" and "take n xs \<noteq> []"
  shows "filter (\<lambda>x. f (last (take n xs)) < (f x :: 'a :: linorder)) xs = drop n xs"
proof -
  let ?l = "last (take n xs)"
  have s: "sorted_wrt (<) (map f (take n xs) @ map f (drop n xs))"
    using assms(1) by (simp flip: map_append)
  have mem: "?l \<in> set (take n xs)" using assms(2) by simp
  have "f x \<le> f ?l" if x: "x \<in> set (take n xs)" for x
  proof -
    obtain us where us: "take n xs = us @ [?l]"
      using assms(2) by (metis append_butlast_last_id)
    have "sorted_wrt (<) (map f (us @ [?l]))"
      using s us sorted_wrt_append_iff by metis
    moreover have "x \<in> set us \<or> x = ?l" using x us by (metis Un_iff empty_iff insert_iff list.set set_append)
    ultimately show ?thesis by (auto simp: sorted_wrt_append_iff)
  qed
  then have "filter (\<lambda>x. f ?l < f x) (take n xs) = []"
    by (auto simp: filter_empty_conv not_less)
  moreover have "filter (\<lambda>x. f ?l < f x) (drop n xs) = drop n xs"
    using s mem by (auto simp: sorted_wrt_append_iff filter_id_conv)
  ultimately show ?thesis
    by (metis append_take_drop_id filter_append append_Nil)
qed

lemma filter_filter_greater:
  "c \<le> d \<Longrightarrow> filter (\<lambda>x. d < f x) (filter (\<lambda>x. c < (f x :: 'a :: linorder)) xs) = filter (\<lambda>x. d < f x) xs"
  by (induction xs) auto

lemma find_append:
  "find P (xs @ ys) = (case find P xs of None \<Rightarrow> find P ys | Some x \<Rightarrow> Some x)"
  by (induction xs) auto

end
