(* ===== verification/Rust_Str.thy ===== *)
theory Rust_Str
  imports Prelude
begin

text \<open>
  Rust's \<open>str\<close> and \<open>char\<close>: a string is the list of its Unicode scalar values, and its
  UTF-8 encoding is computed where the code counts or hashes bytes. The character classes are the
  ones the Unicode standard fixes for \<open>char::is_control\<close> (category Cc) and
  \<open>char::is_whitespace\<close> (property White\_Space).
\<close>

section \<open>Characters and strings\<close>

type_synonym uchar = nat
type_synonym rstr = "uchar list"

text \<open>An ASCII literal of the source.\<close>

definition lit :: "string \<Rightarrow> rstr" where
  "lit s = map of_char s"

lemma lit_simps [simp]: "lit [] = []" "lit (c # s) = of_char c # lit s"
  by (simp_all add: lit_def)

lemma lit_append: "lit (s @ t) = lit s @ lit t"
  by (simp add: lit_def)

lemma length_lit [simp]: "length (lit s) = length s"
  by (simp add: lit_def)

lemma lit_inj: "lit s = lit t \<longleftrightarrow> s = t"
  by (auto simp: lit_def inj_map_eq_map inj_def)

definition is_control :: "uchar \<Rightarrow> bool" where
  "is_control c \<longleftrightarrow> c \<le> 31 \<or> (127 \<le> c \<and> c \<le> 159)"

definition is_whitespace :: "uchar \<Rightarrow> bool" where
  "is_whitespace c \<longleftrightarrow>
     (9 \<le> c \<and> c \<le> 13) \<or> c = 32 \<or> c = 133 \<or> c = 160 \<or> c = 5760 \<or>
     (8192 \<le> c \<and> c \<le> 8202) \<or> c = 8232 \<or> c = 8233 \<or> c = 8239 \<or> c = 8287 \<or> c = 12288"

definition is_ascii_graphic :: "uchar \<Rightarrow> bool" where
  "is_ascii_graphic c \<longleftrightarrow> 33 \<le> c \<and> c \<le> 126"

definition to_ascii_lower :: "uchar \<Rightarrow> uchar" where
  "to_ascii_lower c = (if 65 \<le> c \<and> c \<le> 90 then c + 32 else c)"

definition eq_ignore_ascii_case :: "rstr \<Rightarrow> rstr \<Rightarrow> bool" where
  "eq_ignore_ascii_case s t \<longleftrightarrow> map to_ascii_lower s = map to_ascii_lower t"

lemma eq_ignore_ascii_case_refl [simp]: "eq_ignore_ascii_case s s"
  by (simp add: eq_ignore_ascii_case_def)

lemma eq_ignore_ascii_case_sym: "eq_ignore_ascii_case s t \<Longrightarrow> eq_ignore_ascii_case t s"
  by (simp add: eq_ignore_ascii_case_def)

lemma eq_ignore_ascii_case_trans:
  "eq_ignore_ascii_case s t \<Longrightarrow> eq_ignore_ascii_case t u \<Longrightarrow> eq_ignore_ascii_case s u"
  by (simp add: eq_ignore_ascii_case_def)

section \<open>UTF-8\<close>

fun utf8_char :: "uchar \<Rightarrow> nat list" where
  "utf8_char c =
     (if c < 128 then [c]
      else if c < 2048 then [192 + c div 64, 128 + c mod 64]
      else if c < 65536 then [224 + c div 4096, 128 + c div 64 mod 64, 128 + c mod 64]
      else [240 + c div 262144, 128 + c div 4096 mod 64, 128 + c div 64 mod 64, 128 + c mod 64])"

text \<open>\<open>str::as_bytes\<close> and \<open>str::len\<close>, which counts bytes.\<close>

definition as_bytes :: "rstr \<Rightarrow> nat list" where
  "as_bytes s = concat (map utf8_char s)"

definition str_len :: "rstr \<Rightarrow> nat" where
  "str_len s = length (as_bytes s)"

lemma as_bytes_Nil [simp]: "as_bytes [] = []"
  by (simp add: as_bytes_def)

lemma as_bytes_Cons [simp]: "as_bytes (c # s) = utf8_char c @ as_bytes s"
  by (simp add: as_bytes_def)

declare utf8_char.simps [simp del]

lemma length_utf8_char: "1 \<le> length (utf8_char c)" "length (utf8_char c) \<le> 4"
  by (simp_all add: utf8_char.simps)

lemma str_len_bounds: "length s \<le> str_len s" "str_len s \<le> 4 * length s"
proof -
  show "length s \<le> str_len s"
  proof (induction s)
    case (Cons c s)
    then show ?case using length_utf8_char(1) [of c] by (simp add: str_len_def)
  qed (simp add: str_len_def)
  show "str_len s \<le> 4 * length s"
  proof (induction s)
    case (Cons c s)
    then show ?case using length_utf8_char(2) [of c] by (simp add: str_len_def)
  qed (simp add: str_len_def)
qed

lemma str_len_eq_0 [simp]: "str_len s = 0 \<longleftrightarrow> s = []"
  using str_len_bounds(1) [of s] by (cases s) (auto simp: str_len_def)

lemma str_len_ascii: "\<forall>c\<in>set s. c < 128 \<Longrightarrow> str_len s = length s"
  by (induction s) (simp_all add: str_len_def utf8_char.simps)

section \<open>Trimming and splitting\<close>

definition trim_start_by :: "(uchar \<Rightarrow> bool) \<Rightarrow> rstr \<Rightarrow> rstr" where
  "trim_start_by P s = dropWhile P s"

definition trim_end_by :: "(uchar \<Rightarrow> bool) \<Rightarrow> rstr \<Rightarrow> rstr" where
  "trim_end_by P s = rev (dropWhile P (rev s))"

definition trim_by :: "(uchar \<Rightarrow> bool) \<Rightarrow> rstr \<Rightarrow> rstr" where
  "trim_by P s = trim_end_by P (trim_start_by P s)"

definition trim :: "rstr \<Rightarrow> rstr" where
  "trim s = trim_by is_whitespace s"

lemma trim_Nil [simp]: "trim [] = []"
  by (simp add: trim_def trim_by_def trim_start_by_def trim_end_by_def)

lemma trim_end_by_id: "s = [] \<or> \<not> P (last s) \<Longrightarrow> trim_end_by P s = s"
  by (cases s rule: rev_cases) (auto simp: trim_end_by_def)

lemma trim_end_by_last: "trim_end_by P s \<noteq> [] \<Longrightarrow> \<not> P (last (trim_end_by P s))"
  by (simp add: trim_end_by_def last_rev hd_dropWhile)

lemma trim_end_by_hd: "trim_end_by P s \<noteq> [] \<Longrightarrow> hd (trim_end_by P s) = hd s"
proof (induction s rule: rev_induct)
  case (snoc c s)
  show ?case
  proof (cases "P c")
    case True
    with snoc.prems have "trim_end_by P s \<noteq> []" by (simp add: trim_end_by_def)
    with True snoc.IH have "hd (trim_end_by P (s @ [c])) = hd s" and "s \<noteq> []"
      by (auto simp: trim_end_by_def)
    then show ?thesis by simp
  qed (simp add: trim_end_by_def)
qed (simp add: trim_end_by_def)

lemma trim_hd_last:
  assumes "trim_by P s \<noteq> []"
  shows "\<not> P (hd (trim_by P s))" "\<not> P (last (trim_by P s))"
proof -
  have ne: "dropWhile P s \<noteq> []"
    using assms by (cases "dropWhile P s") (simp_all add: trim_by_def trim_end_by_def trim_start_by_def)
  have "hd (trim_by P s) = hd (dropWhile P s)"
    using trim_end_by_hd assms by (simp add: trim_by_def trim_start_by_def)
  then show "\<not> P (hd (trim_by P s))" using ne by (simp add: hd_dropWhile)
  show "\<not> P (last (trim_by P s))"
    using trim_end_by_last assms by (simp add: trim_by_def)
qed

lemma trim_by_id: "s = [] \<or> (\<not> P (hd s) \<and> \<not> P (last s)) \<Longrightarrow> trim_by P s = s"
  by (cases s) (auto simp: trim_by_def trim_start_by_def intro: trim_end_by_id)

lemma trim_idem [simp]: "trim (trim s) = trim s"
  unfolding trim_def by (rule trim_by_id) (use trim_hd_last in blast)

text \<open>\<open>str::split_once\<close> and \<open>str::rsplit_once\<close> with a character predicate.\<close>

fun split_once :: "(uchar \<Rightarrow> bool) \<Rightarrow> rstr \<Rightarrow> (rstr \<times> rstr) option" where
  "split_once P [] = None"
| "split_once P (c # s) =
     (if P c then Some ([], s) else map_option (\<lambda>(a, b). (c # a, b)) (split_once P s))"

definition rsplit_once :: "(uchar \<Rightarrow> bool) \<Rightarrow> rstr \<Rightarrow> (rstr \<times> rstr) option" where
  "rsplit_once P s = map_option (\<lambda>(a, b). (rev b, rev a)) (split_once P (rev s))"

lemma split_once_Some:
  "split_once P s = Some (a, b) \<Longrightarrow> \<exists>c. P c \<and> s = a @ c # b \<and> (\<forall>x\<in>set a. \<not> P x)"
proof (induction s arbitrary: a b)
  case (Cons c s)
  then show ?case by (fastforce split: if_splits)
qed simp

lemma split_once_None: "split_once P s = None \<longleftrightarrow> (\<forall>x\<in>set s. \<not> P x)"
  by (induction s) auto

lemma split_once_append:
  "\<forall>x\<in>set a. \<not> P x \<Longrightarrow> P c \<Longrightarrow> split_once P (a @ c # b) = Some (a, b)"
  by (induction a) auto

section \<open>Numbers\<close>

text \<open>\<open>Display\<close> of an unsigned integer: decimal, no sign, no padding.\<close>

fun dec :: "nat \<Rightarrow> rstr" where
  "dec n = (if n < 10 then [48 + n] else dec (n div 10) @ [48 + n mod 10])"

declare dec.simps [simp del]

lemma dec_nonempty [simp]: "dec n \<noteq> []"
  by (subst dec.simps) simp

lemma dec_digits: "c \<in> set (dec n) \<Longrightarrow> 48 \<le> c \<and> c \<le> 57"
proof (induction n rule: dec.induct)
  case (1 n)
  show ?case
  proof (cases "n < 10")
    case True
    with "1.prems" show ?thesis by (subst (asm) dec.simps) auto
  next
    case False
    with "1.prems" have "c \<in> set (dec (n div 10)) \<or> c = 48 + n mod 10"
      by (subst (asm) dec.simps) auto
    then show ?thesis
    proof
      assume "c \<in> set (dec (n div 10))"
      with "1.IH" False show ?thesis by blast
    next
      assume c: "c = 48 + n mod 10"
      have "n mod 10 < 10" by simp
      with c show ?thesis by linarith
    qed
  qed
qed

text \<open>The value a run of digits denotes, which inverts \<open>dec\<close>.\<close>

definition undec :: "rstr \<Rightarrow> nat" where
  "undec s = foldl (\<lambda>n c. 10 * n + (c - 48)) 0 s"

lemma undec_dec [simp]: "undec (dec n) = n"
proof (induction n rule: dec.induct)
  case (1 n)
  then show ?case
    by (cases "n < 10"; subst dec.simps) (simp_all add: undec_def)
qed

lemma dec_inj: "dec m = dec n \<longleftrightarrow> m = n"
  by (metis undec_dec)

end
