(* ===== verification/Api_Types.thy ===== *)
theory Api_Types
  imports Rust_Str
begin

text \<open>
  \<open>chat-core\<close> (crates/chat-core/src/api/v1): the identifiers, the request and response bodies,
  the error envelope and the error codes with their wire names.
\<close>

section \<open>Identifiers (v1.rs)\<close>

datatype room_id = RoomId (room_id_get: u64)
datatype seq = Seq (seq_get: u64)
datatype unix_millis = UnixMillis (millis_get: u64)

definition seq_start :: seq where
  "seq_start = Seq 0"

text \<open>The derived order of \<open>Seq\<close> is the order of the number beneath.\<close>

instantiation seq :: linorder
begin

definition less_eq_seq :: "seq \<Rightarrow> seq \<Rightarrow> bool" where
  "a \<le> b \<longleftrightarrow> seq_get a \<le> seq_get b"

definition less_seq :: "seq \<Rightarrow> seq \<Rightarrow> bool" where
  "a < b \<longleftrightarrow> seq_get a < seq_get b"

instance
  by standard (auto simp: less_eq_seq_def less_seq_def intro: seq.expand)

end

lemma seq_less_simps [simp]:
  "Seq a < Seq b \<longleftrightarrow> a < b" "Seq a \<le> Seq b \<longleftrightarrow> a \<le> b"
  by (simp_all add: less_seq_def less_eq_seq_def)

lemma seq_start_least [simp]: "seq_start \<le> s"
  by (cases s) (simp add: seq_start_def)

text \<open>\<open>Display\<close> of a room id and of a cursor, as request paths and query strings use them.\<close>

definition room_id_display :: "room_id \<Rightarrow> rstr" where
  "room_id_display r = dec (unat (room_id_get r))"

definition seq_display :: "seq \<Rightarrow> rstr" where
  "seq_display s = dec (unat (seq_get s))"

lemma room_id_display_inj: "room_id_display a = room_id_display b \<longleftrightarrow> a = b"
  by (cases a; cases b) (simp add: room_id_display_def dec_inj word_unat_eq_iff)

section \<open>Bodies (auth.rs, rooms.rs, messages.rs, server.rs)\<close>

record register_request =
  reg_username :: rstr
  reg_password :: rstr

record login_request =
  log_username :: rstr
  log_password :: rstr

record login_response =
  lr_token :: rstr
  lr_expires_at :: unix_millis

record room =
  rm_id :: room_id
  rm_name :: rstr
  rm_latest_seq :: seq

record create_room_request =
  cr_name :: rstr

record post_message_request =
  pm_body :: rstr

record post_message_response =
  pr_seq :: seq
  pr_posted_at :: unix_millis

record message =
  msg_seq :: seq
  msg_username :: rstr
  msg_body :: rstr
  msg_posted_at :: unix_millis

record server_info =
  si_version :: rstr
  si_isd_as :: "rstr option"
  si_max_accounts :: u32
  si_max_rooms :: u32
  si_max_message_bytes :: u32
  si_token_validity_seconds :: u32

section \<open>Debug output of the credentials (auth.rs)\<close>

text \<open>
  \<open>Formatter::debug_struct\<close> in its one-line form. How a field's own \<open>Debug\<close> quotes and
  escapes a string is the argument \<open>dbg\<close>.
\<close>

definition redacted :: rstr where
  "redacted = lit ''<redacted>''"

fun debug_fields :: "(rstr \<times> rstr) list \<Rightarrow> rstr" where
  "debug_fields [] = []"
| "debug_fields [(f, v)] = f @ lit '': '' @ v"
| "debug_fields ((f, v) # fs) = f @ lit '': '' @ v @ lit '', '' @ debug_fields fs"

definition debug_struct :: "rstr \<Rightarrow> (rstr \<times> rstr) list \<Rightarrow> rstr" where
  "debug_struct name fs = name @ lit '' { '' @ debug_fields fs @ lit '' }''"

definition register_request_debug :: "(rstr \<Rightarrow> rstr) \<Rightarrow> register_request \<Rightarrow> rstr" where
  "register_request_debug dbg r = debug_struct (lit ''RegisterRequest'')
     [(lit ''username'', dbg (reg_username r)), (lit ''password'', dbg redacted)]"

definition login_request_debug :: "(rstr \<Rightarrow> rstr) \<Rightarrow> login_request \<Rightarrow> rstr" where
  "login_request_debug dbg r = debug_struct (lit ''LoginRequest'')
     [(lit ''username'', dbg (log_username r)), (lit ''password'', dbg redacted)]"

text \<open>\<open>UnixMillis\<close> derives \<open>Debug\<close>, so its own rendering is a tuple struct.\<close>

definition unix_millis_debug :: "unix_millis \<Rightarrow> rstr" where
  "unix_millis_debug t = lit ''UnixMillis('' @ dec (unat (millis_get t)) @ lit '')''"

definition login_response_debug :: "(rstr \<Rightarrow> rstr) \<Rightarrow> login_response \<Rightarrow> rstr" where
  "login_response_debug dbg r = debug_struct (lit ''LoginResponse'')
     [(lit ''token'', dbg redacted), (lit ''expires_at'', unix_millis_debug (lr_expires_at r))]"

section \<open>Error codes (error.rs)\<close>

datatype error_code =
    InvalidBody | Internal | Unauthorized | ExpiredToken | InvalidCredentials | UsernameTaken
  | InvalidUsername | InvalidName | RoomNotFound | MessageTooLarge | CapExceeded
  | Other rstr

text \<open>The serde names: \<open>snake_case\<close>, and \<open>Other\<close> untagged, kept verbatim.\<close>

definition known_codes :: "(rstr \<times> error_code) list" where
  "known_codes =
     [(lit ''invalid_body'', InvalidBody), (lit ''internal'', Internal),
      (lit ''unauthorized'', Unauthorized), (lit ''expired_token'', ExpiredToken),
      (lit ''invalid_credentials'', InvalidCredentials), (lit ''username_taken'', UsernameTaken),
      (lit ''invalid_username'', InvalidUsername), (lit ''invalid_name'', InvalidName),
      (lit ''room_not_found'', RoomNotFound), (lit ''message_too_large'', MessageTooLarge),
      (lit ''cap_exceeded'', CapExceeded)]"

fun error_code_wire :: "error_code \<Rightarrow> rstr" where
  "error_code_wire InvalidBody = lit ''invalid_body''"
| "error_code_wire Internal = lit ''internal''"
| "error_code_wire Unauthorized = lit ''unauthorized''"
| "error_code_wire ExpiredToken = lit ''expired_token''"
| "error_code_wire InvalidCredentials = lit ''invalid_credentials''"
| "error_code_wire UsernameTaken = lit ''username_taken''"
| "error_code_wire InvalidUsername = lit ''invalid_username''"
| "error_code_wire InvalidName = lit ''invalid_name''"
| "error_code_wire RoomNotFound = lit ''room_not_found''"
| "error_code_wire MessageTooLarge = lit ''message_too_large''"
| "error_code_wire CapExceeded = lit ''cap_exceeded''"
| "error_code_wire (Other s) = s"

definition error_code_parse :: "rstr \<Rightarrow> error_code" where
  "error_code_parse s = (case map_of known_codes s of Some c \<Rightarrow> c | None \<Rightarrow> Other s)"

record api_error =
  ae_code :: error_code
  ae_message :: rstr

record error_response =
  er_error :: api_error

definition error_response_new :: "error_code \<Rightarrow> rstr \<Rightarrow> error_response" where
  "error_response_new c m = \<lparr>er_error = \<lparr>ae_code = c, ae_message = m\<rparr>\<rparr>"

lemma known_codes_wire: "(s, c) \<in> set known_codes \<Longrightarrow> error_code_wire c = s"
  by (auto simp: known_codes_def)

lemma error_code_parse_known: "(\<And>t. c \<noteq> Other t) \<Longrightarrow> error_code_parse (error_code_wire c) = c"
  by (cases c) (simp_all add: error_code_parse_def known_codes_def)

lemma wire_of_parse: "error_code_wire (error_code_parse s) = s"
  by (auto simp: error_code_parse_def split: option.split dest: map_of_SomeD known_codes_wire)

end
