(* ===== verification/Store.thy ===== *)
theory Store
  imports Api_Types
begin

text \<open>
  \<open>chat-server\<close>'s store (crates/chat-server/src/store.rs and store/sqlite): the tables, the SQL
  statements the code runs over them, and the operations of the \<open>DataStore\<close> trait built from
  these statements. The SQLite engine and the clock are the argument \<open>env\<close> of a call:
  which row id the engine gives a new row of an \<open>INTEGER PRIMARY KEY\<close> table, which statement of
  the call it fails, and what the clock reads.
\<close>

section \<open>Errors and outcomes (store.rs)\<close>

record caps =
  cap_accounts :: u32
  cap_rooms :: u32

definition LOBBY :: rstr where
  "LOBBY = lit ''lobby''"

datatype store_error =
    NotFound rstr
  | DbError rstr
  | FileError rstr rstr
  | CapExceededErr string
  | OutOfRange string int

datatype password_hash = PasswordHash (phc: rstr)

text \<open>\<open>Debug\<close> of a hash shows nothing of it.\<close>

definition password_hash_debug :: "password_hash \<Rightarrow> rstr" where
  "password_hash_debug h = lit ''PasswordHash(<redacted>)''"

datatype registration = Created | UsernameTakenReg

datatype room_creation = RoomCreated room | RoomExisting room

fun room_creation_room :: "room_creation \<Rightarrow> room" where
  "room_creation_room (RoomCreated r) = r"
| "room_creation_room (RoomExisting r) = r"

section \<open>Columns and the clock (convert.rs)\<close>

text \<open>
  The clock is read in nanoseconds since the Unix epoch, negative before it. Both \<open>expect\<close>s of
  \<open>now\<close> are panics.
\<close>

definition now :: "int \<Rightarrow> (store_error, unix_millis) result" where
  "now ns =
     (if ns < 0 then Panic ''the system clock is set before the Unix epoch''
      else let millis = ns div 1000000 in
        if 2 ^ 64 \<le> millis then Panic ''the clock is past u64 milliseconds''
        else Ok (UnixMillis (word_of_int millis)))"

definition from_column :: "string \<Rightarrow> int \<Rightarrow> (store_error, u64) result" where
  "from_column what value = (if 0 \<le> value then Ok (word_of_int value) else Err (OutOfRange what value))"

definition to_column :: "string \<Rightarrow> u64 \<Rightarrow> (store_error, int) result" where
  "to_column what value =
     (if uint value \<le> i64_max then Ok (uint value) else Err (OutOfRange what (uint value)))"

definition col_room_id :: "int \<Rightarrow> (store_error, room_id) result" where
  "col_room_id value = map_res RoomId (from_column ''room id'' value)"

definition col_seq :: "int \<Rightarrow> (store_error, seq) result" where
  "col_seq value = map_res Seq (from_column ''seq'' value)"

definition col_millis :: "int \<Rightarrow> (store_error, unix_millis) result" where
  "col_millis value = map_res UnixMillis (from_column ''timestamp'' value)"

definition timestamp_column :: "int \<Rightarrow> (store_error, int) result" where
  "timestamp_column ns = bind_res (now ns) (\<lambda>t. to_column ''timestamp'' (millis_get t))"

lemma from_column_Ok: "0 \<le> v \<Longrightarrow> from_column what v = Ok (word_of_int v)"
  by (simp add: from_column_def)

lemma to_column_eq_Ok: "to_column what v = Ok c \<longleftrightarrow> uint v \<le> i64_max \<and> c = uint v"
  by (auto simp: to_column_def)

lemma to_column_no_panic: "to_column what v \<noteq> Panic p"
  by (simp add: to_column_def)

lemma to_from_column: "to_column what v = Ok c \<Longrightarrow> from_column what' c = Ok v"
  by (auto simp: to_column_eq_Ok from_column_def)

lemma from_to_column:
  "c \<le> i64_max \<Longrightarrow> from_column what c = Ok v \<Longrightarrow> to_column what' v = Ok c"
  by (auto simp: to_column_def from_column_def i64_max_eq uint_word_of_int_64 split: if_splits)

lemma timestamp_column_range: "timestamp_column ns = Ok c \<Longrightarrow> 0 \<le> c \<and> c \<le> i64_max"
  by (auto simp: timestamp_column_def res_simps to_column_eq_Ok)

lemma timestamp_column_Ok:
  "0 \<le> ns \<Longrightarrow> ns div 1000000 \<le> i64_max \<Longrightarrow> timestamp_column ns = Ok (ns div 1000000)"
proof -
  assume "0 \<le> ns" and le: "ns div 1000000 \<le> i64_max"
  then have "0 \<le> ns div 1000000" by simp
  with le \<open>0 \<le> ns\<close> show ?thesis
    by (simp add: timestamp_column_def now_def Let_def to_column_def i64_max_eq uint_word_of_int_64)
qed

section \<open>Tables (schema.sql)\<close>

record user_row =
  u_username :: rstr
  u_pw_hash :: rstr
  u_created_at :: int

record room_row =
  r_id :: int
  r_name :: rstr
  r_created_at :: int

record message_row =
  m_seq :: int
  m_room_id :: int
  m_username :: rstr
  m_body :: rstr
  m_posted_at :: int

text \<open>The three tables, each in the order its rows were inserted.\<close>

record db =
  users :: "user_row list"
  rooms :: "room_row list"
  messages :: "message_row list"

definition empty_db :: db where
  "empty_db = \<lparr>users = [], rooms = [], messages = []\<rparr>"

text \<open>
  What a call meets outside the code. \<open>clock\<close> is the server's clock; \<open>rowid\<close> is the key SQLite
  gives a new row, from the keys in use, or \<open>None\<close> when it has none left; \<open>fault n\<close> is the error
  of the \<open>n\<close>-th statement of the call, when it fails. A failed statement changes nothing.
\<close>

record env =
  clock :: int
  rowid :: "int list \<Rightarrow> int option"
  fault :: "nat \<Rightarrow> rstr option"

text \<open>
  The documented choice of a row id: one more than the largest in use, and 1 in an empty table;
  once the largest possible key is in use, some unused key or none.
\<close>

definition env_ok :: "env \<Rightarrow> bool" where
  "env_ok env \<longleftrightarrow>
     rowid env [] = Some 1 \<and>
     (\<forall>ids. ids \<noteq> [] \<longrightarrow> (\<forall>i\<in>set ids. 1 \<le> i \<and> i < i64_max) \<longrightarrow> rowid env ids = Some (Max (set ids) + 1)) \<and>
     (\<forall>ids k. rowid env ids = Some k \<longrightarrow> k \<notin> set ids \<and> 1 \<le> k \<and> k \<le> i64_max)"

text \<open>
  An environment with that choice in which no statement fails, for concrete runs: the clock reads
  \<open>ns\<close> nanoseconds.
\<close>

definition calm_env :: "int \<Rightarrow> env" where
  "calm_env ns = \<lparr>clock = ns,
     rowid = (\<lambda>ids. let k = fold max ids 0 + 1 in if k \<le> i64_max then Some k else None),
     fault = (\<lambda>_. None)\<rparr>"

lemma calm_env_rowid:
  "rowid (calm_env ns) ids =
     (if Max (insert 0 (set ids)) + 1 \<le> i64_max then Some (Max (insert 0 (set ids)) + 1) else None)"
  by (simp add: calm_env_def Let_def Max.set_eq_fold flip: list.simps(15))

lemma calm_env_ok: "env_ok (calm_env ns)"
proof -
  have "rowid (calm_env ns) [] = Some 1" by (simp add: calm_env_rowid i64_max_eq)
  moreover have "rowid (calm_env ns) ids = Some (Max (set ids) + 1)"
    if ids: "ids \<noteq> []" "\<forall>i\<in>set ids. 1 \<le> i \<and> i < i64_max" for ids
  proof -
    have "Max (set ids) \<in> set ids" using ids(1) by simp
    then have m: "1 \<le> Max (set ids)" "Max (set ids) < i64_max" using ids(2) by blast+
    have "Max (insert 0 (set ids)) = max 0 (Max (set ids))" using ids(1) by simp
    then show ?thesis using m by (simp add: calm_env_rowid)
  qed
  moreover have "k \<notin> set ids \<and> 1 \<le> k \<and> k \<le> i64_max"
    if k: "rowid (calm_env ns) ids = Some k" for ids k
  proof -
    have e: "k = Max (insert 0 (set ids)) + 1" "k \<le> i64_max"
      using k by (simp_all add: calm_env_rowid split: if_splits)
    moreover have "0 \<le> Max (insert 0 (set ids))" by simp
    moreover have "k \<notin> set ids"
    proof
      assume "k \<in> set ids"
      then have "k \<le> Max (insert 0 (set ids))" by simp
      then show False using e(1) by linarith
    qed
    ultimately show ?thesis by linarith
  qed
  ultimately show ?thesis unfolding env_ok_def by blast
qed

text \<open>\<open>COLLATE NOCASE\<close> folds the 26 ASCII letters and nothing else.\<close>

abbreviation nocase :: "rstr \<Rightarrow> rstr \<Rightarrow> bool" where
  "nocase \<equiv> eq_ignore_ascii_case"

definition run_stmt :: "env \<Rightarrow> nat \<Rightarrow> (store_error, 'a) result \<Rightarrow> (store_error, 'a) result" where
  "run_stmt env n r = (case fault env n of Some e \<Rightarrow> Err (DbError e) | None \<Rightarrow> r)"

lemma run_stmt_eq_Ok [res_simps]:
  "run_stmt env n r = Ok a \<longleftrightarrow> fault env n = None \<and> r = Ok a"
  by (simp add: run_stmt_def split: option.split)

section \<open>The accounts table (users.rs)\<close>

definition find_user :: "rstr \<Rightarrow> db \<Rightarrow> user_row option" where
  "find_user username d = find (\<lambda>u. nocase (u_username u) username) (users d)"

text \<open>
  \<open>INSERT INTO users SELECT ?, ?, ? WHERE (SELECT COUNT(*) FROM users) < ?
  ON CONFLICT(username) DO NOTHING\<close>, and whether it wrote a row.
\<close>

definition sql_insert_user :: "rstr \<Rightarrow> rstr \<Rightarrow> int \<Rightarrow> int \<Rightarrow> db \<Rightarrow> db \<times> bool" where
  "sql_insert_user username hash created_at cap d =
     (if int (length (users d)) < cap \<and> find_user username d = None
      then (d\<lparr>users := users d @ [\<lparr>u_username = username, u_pw_hash = hash, u_created_at = created_at\<rparr>]\<rparr>, True)
      else (d, False))"

text \<open>The first statement of \<open>insert_user\<close>, up to \<open>rows_affected() == 1\<close>.\<close>

definition insert_user_insert ::
  "env \<Rightarrow> u32 \<Rightarrow> rstr \<Rightarrow> password_hash \<Rightarrow> db \<Rightarrow> db \<times> (store_error, bool) result" where
  "insert_user_insert env max_accounts username pw_hash d =
     (case timestamp_column (clock env) of
        Err e \<Rightarrow> (d, Err e)
      | Panic p \<Rightarrow> (d, Panic p)
      | Ok created_at \<Rightarrow>
          (case fault env 0 of
             Some e \<Rightarrow> (d, Err (DbError e))
           | None \<Rightarrow>
               (let (d', inserted) =
                  sql_insert_user username (phc pw_hash) created_at (uint max_accounts) d
                in (d', Ok inserted))))"

text \<open>The second statement, run only when nothing was written: the name, or the cap.\<close>

definition insert_user_classify ::
  "env \<Rightarrow> rstr \<Rightarrow> bool \<Rightarrow> db \<Rightarrow> (store_error, registration) result" where
  "insert_user_classify env username inserted d =
     (if inserted then Ok Created
      else bind_res (run_stmt env 1 (Ok (find_user username d \<noteq> None)))
        (\<lambda>taken. if taken then Ok UsernameTakenReg else Err (CapExceededErr ''account'')))"

definition insert_user ::
  "env \<Rightarrow> u32 \<Rightarrow> rstr \<Rightarrow> password_hash \<Rightarrow> db \<Rightarrow> db \<times> (store_error, registration) result" where
  "insert_user env max_accounts username pw_hash d =
     (let (d', inserted) = insert_user_insert env max_accounts username pw_hash d
      in (d', bind_res inserted (\<lambda>i. insert_user_classify env username i d')))"

definition stored_hash :: "env \<Rightarrow> rstr \<Rightarrow> db \<Rightarrow> (store_error, password_hash option) result" where
  "stored_hash env username d =
     run_stmt env 0 (Ok (map_option (\<lambda>u. PasswordHash (u_pw_hash u)) (find_user username d)))"

section \<open>The rooms table (rooms.rs)\<close>

definition find_room :: "rstr \<Rightarrow> db \<Rightarrow> room_row option" where
  "find_room name d = find (\<lambda>r. nocase (r_name r) name) (rooms d)"

text \<open>\<open>COALESCE(MAX(m.seq), 0)\<close> over the messages joined to a room.\<close>

definition latest_seq :: "int \<Rightarrow> db \<Rightarrow> int" where
  "latest_seq rid d =
     (case map m_seq (filter (\<lambda>m. m_room_id m = rid) (messages d)) of
        [] \<Rightarrow> 0
      | s # ss \<Rightarrow> fold max ss s)"

text \<open>A selected room row, turned into the API's \<open>Room\<close>.\<close>

definition room_of_row :: "db \<Rightarrow> room_row \<Rightarrow> (store_error, room) result" where
  "room_of_row d r =
     bind_res (col_room_id (r_id r)) (\<lambda>i.
     bind_res (col_seq (latest_seq (r_id r) d)) (\<lambda>s.
       Ok \<lparr>rm_id = i, rm_name = r_name r, rm_latest_seq = s\<rparr>))"

text \<open>
  \<open>INSERT INTO rooms (name, created_at) SELECT ?, ? WHERE (SELECT COUNT(*) FROM rooms) < ?
  ON CONFLICT(name) DO NOTHING\<close>; \<open>None\<close> when the engine has no row id left.
\<close>

definition sql_insert_room ::
  "env \<Rightarrow> rstr \<Rightarrow> int \<Rightarrow> int \<Rightarrow> db \<Rightarrow> (db \<times> bool) option" where
  "sql_insert_room env name created_at cap d =
     (if int (length (rooms d)) < cap then
        (case rowid env (map r_id (rooms d)) of
           None \<Rightarrow> None
         | Some k \<Rightarrow>
             if find_room name d = None
             then Some (d\<lparr>rooms := rooms d @ [\<lparr>r_id = k, r_name = name, r_created_at = created_at\<rparr>]\<rparr>, True)
             else Some (d, False))
      else Some (d, False))"

definition create_room_insert ::
  "env \<Rightarrow> u32 \<Rightarrow> rstr \<Rightarrow> db \<Rightarrow> db \<times> (store_error, bool) result" where
  "create_room_insert env max_rooms name d =
     (case timestamp_column (clock env) of
        Err e \<Rightarrow> (d, Err e)
      | Panic p \<Rightarrow> (d, Panic p)
      | Ok created_at \<Rightarrow>
          (case fault env 0 of
             Some e \<Rightarrow> (d, Err (DbError e))
           | None \<Rightarrow>
               (case sql_insert_room env name created_at (uint max_rooms) d of
                  None \<Rightarrow> (d, Err (DbError (lit ''database or disk is full'')))
                | Some (d', inserted) \<Rightarrow> (d', Ok inserted))))"

definition create_room_fetch ::
  "env \<Rightarrow> rstr \<Rightarrow> bool \<Rightarrow> db \<Rightarrow> (store_error, room_creation) result" where
  "create_room_fetch env name inserted d =
     bind_res (run_stmt env 1 (Ok (find_room name d))) (\<lambda>row.
       case row of
         None \<Rightarrow> Err (CapExceededErr ''room'')
       | Some r \<Rightarrow>
           bind_res (room_of_row d r) (\<lambda>room.
             Ok (if inserted then RoomCreated room else RoomExisting room)))"

definition create_room ::
  "env \<Rightarrow> u32 \<Rightarrow> rstr \<Rightarrow> db \<Rightarrow> db \<times> (store_error, room_creation) result" where
  "create_room env max_rooms name d =
     (let (d', inserted) = create_room_insert env max_rooms name d
      in (d', bind_res inserted (\<lambda>i. create_room_fetch env name i d')))"

text \<open>\<open>GROUP BY r.id, r.name ORDER BY r.id\<close>.\<close>

definition list_rooms :: "env \<Rightarrow> db \<Rightarrow> (store_error, room list) result" where
  "list_rooms env d =
     bind_res (run_stmt env 0 (Ok (sort_key r_id (rooms d)))) (\<lambda>rows.
       collect_res (map (room_of_row d) rows))"

definition room_exists :: "env \<Rightarrow> room_id \<Rightarrow> db \<Rightarrow> (store_error, bool) result" where
  "room_exists env room d =
     bind_res (to_column ''room id'' (room_id_get room)) (\<lambda>i.
       run_stmt env 0 (Ok (\<exists>r\<in>set (rooms d). r_id r = i)))"

section \<open>The messages table (messages.rs)\<close>

text \<open>
  \<open>INSERT INTO messages ... RETURNING seq, posted_at\<close>, with the foreign key on \<open>room_id\<close>.
  \<open>None\<close> is the foreign-key violation.
\<close>

definition sql_insert_message ::
  "int \<Rightarrow> int \<Rightarrow> rstr \<Rightarrow> rstr \<Rightarrow> int \<Rightarrow> db \<Rightarrow> db option" where
  "sql_insert_message s i username body posted_at d =
     (if \<exists>r\<in>set (rooms d). r_id r = i
      then Some (d\<lparr>messages := messages d @
             [\<lparr>m_seq = s, m_room_id = i, m_username = username, m_body = body, m_posted_at = posted_at\<rparr>]\<rparr>)
      else None)"

definition post_message ::
  "env \<Rightarrow> room_id \<Rightarrow> rstr \<Rightarrow> rstr \<Rightarrow> db
     \<Rightarrow> db \<times> (store_error, post_message_response) result" where
  "post_message env room username body d =
     (case bind_res (to_column ''room id'' (room_id_get room)) (\<lambda>i.
             map_res (Pair i) (timestamp_column (clock env))) of
        Err e \<Rightarrow> (d, Err e)
      | Panic p \<Rightarrow> (d, Panic p)
      | Ok (i, posted_at) \<Rightarrow>
          (case fault env 0 of
             Some e \<Rightarrow> (d, Err (DbError e))
           | None \<Rightarrow>
               (case rowid env (map m_seq (messages d)) of
                  None \<Rightarrow> (d, Err (DbError (lit ''database or disk is full'')))
                | Some s \<Rightarrow>
                    (case sql_insert_message s i username body posted_at d of
                       None \<Rightarrow> (d, Err (NotFound (lit ''room '' @ room_id_display room)))
                     | Some d' \<Rightarrow>
                         (d', bind_res (col_seq s) (\<lambda>q.
                              bind_res (col_millis posted_at) (\<lambda>t.
                                Ok \<lparr>pr_seq = q, pr_posted_at = t\<rparr>)))))))"

definition message_of_row :: "message_row \<Rightarrow> (store_error, message) result" where
  "message_of_row m =
     bind_res (col_seq (m_seq m)) (\<lambda>s.
     bind_res (col_millis (m_posted_at m)) (\<lambda>t.
       Ok \<lparr>msg_seq = s, msg_username = m_username m, msg_body = m_body m, msg_posted_at = t\<rparr>))"

definition collect_messages :: "message_row list \<Rightarrow> (store_error, message list) result" where
  "collect_messages rows = collect_res (map message_of_row rows)"

text \<open>\<open>SELECT ... FROM messages WHERE room_id = ? AND P ORDER BY seq ASC / DESC LIMIT ?\<close>.\<close>

definition select_messages :: "int \<Rightarrow> (int \<Rightarrow> bool) \<Rightarrow> db \<Rightarrow> message_row list" where
  "select_messages i P d =
     sort_key m_seq (filter (\<lambda>m. m_room_id m = i \<and> P (m_seq m)) (messages d))"

definition messages_newest ::
  "env \<Rightarrow> room_id \<Rightarrow> u32 \<Rightarrow> db \<Rightarrow> (store_error, message list) result" where
  "messages_newest env room limit d =
     bind_res (to_column ''room id'' (room_id_get room)) (\<lambda>i.
     bind_res (run_stmt env 0 (Ok (take (unat limit) (rev (select_messages i (\<lambda>_. True) d))))) (\<lambda>rows.
       map_res rev (collect_messages rows)))"

definition messages_after ::
  "env \<Rightarrow> room_id \<Rightarrow> seq \<Rightarrow> u32 \<Rightarrow> db \<Rightarrow> (store_error, message list) result" where
  "messages_after env room after limit d =
     bind_res (to_column ''room id'' (room_id_get room)) (\<lambda>i.
     bind_res (to_column ''seq'' (seq_get after)) (\<lambda>a.
     bind_res (run_stmt env 0 (Ok (take (unat limit) (select_messages i (\<lambda>s. a < s) d)))) (\<lambda>rows.
       collect_messages rows)))"

definition messages_before ::
  "env \<Rightarrow> room_id \<Rightarrow> seq \<Rightarrow> u32 \<Rightarrow> db \<Rightarrow> (store_error, message list) result" where
  "messages_before env room before limit d =
     bind_res (to_column ''room id'' (room_id_get room)) (\<lambda>i.
     bind_res (to_column ''seq'' (seq_get before)) (\<lambda>b.
     bind_res (run_stmt env 0 (Ok (take (unat limit) (rev (select_messages i (\<lambda>s. s < b) d))))) (\<lambda>rows.
       map_res rev (collect_messages rows))))"

end
