(* ===== verification/Store_Inv.thy ===== *)
theory Store_Inv
  imports Store
begin

text \<open>
  The database invariant, the atomic write statements as a step relation, and what every run of
  such statements keeps: well-formedness, the caps, and that no table ever loses or reorders a
  row.
\<close>

section \<open>Row ids\<close>

text \<open>
  Rows are never deleted, so the keys of a table are 1, 2, ... in insertion order: this is what
  makes \<open>seq\<close> increase strictly, up to the very last key.
\<close>

definition ids_dense :: "int list \<Rightarrow> bool" where
  "ids_dense ids \<longleftrightarrow> ids = map int [1..<Suc (length ids)] \<and> int (length ids) \<le> i64_max"

lemma ids_dense_Nil [simp]: "ids_dense []"
  by (simp add: ids_dense_def i64_max_eq)

lemma ids_dense_set: "ids_dense ids \<Longrightarrow> set ids = {1..int (length ids)}"
proof -
  assume "ids_dense ids"
  then have "set ids = int ` {1..<Suc (length ids)}"
    by (metis ids_dense_def set_map set_upt)
  also have "\<dots> = {1..int (length ids)}"
    by (simp only: atLeastLessThanSuc_atLeastAtMost image_int_atLeastAtMost of_nat_1)
  finally show ?thesis .
qed

lemma ids_dense_sorted: "ids_dense ids \<Longrightarrow> sorted_wrt (<) ids"
proof -
  assume "ids_dense ids"
  then have "ids = map int [1..<Suc (length ids)]" by (simp add: ids_dense_def)
  moreover have "sorted_wrt (<) (map int [1..<Suc (length ids)])"
    using sorted_wrt_upt [of 1 "Suc (length ids)"] by (simp only: sorted_wrt_map of_nat_less_iff)
  ultimately show ?thesis by metis
qed

lemma ids_dense_distinct: "ids_dense ids \<Longrightarrow> distinct ids"
  using ids_dense_sorted strict_sorted_iff by blast

lemma ids_dense_range: "ids_dense ids \<Longrightarrow> i \<in> set ids \<Longrightarrow> 1 \<le> i \<and> i \<le> i64_max"
  by (auto simp: ids_dense_set ids_dense_def)

lemma ids_dense_snoc:
  "ids_dense ids \<Longrightarrow> int (length ids) < i64_max \<Longrightarrow> ids_dense (ids @ [int (length ids) + 1])"
  by (simp add: ids_dense_def)

text \<open>The engine either gives the next key or, with every key in use, none.\<close>

lemma rowid_dense:
  assumes "env_ok env" and "ids_dense ids" and "rowid env ids = Some k"
  shows "k = int (length ids) + 1 \<and> int (length ids) < i64_max"
proof (cases "ids = []")
  case True
  with assms show ?thesis by (simp add: env_ok_def i64_max_eq)
next
  case False
  have s: "set ids = {1..int (length ids)}" by (rule ids_dense_set [OF assms(2)])
  show ?thesis
  proof (cases "int (length ids) < i64_max")
    case True
    then have "\<forall>i\<in>set ids. 1 \<le> i \<and> i < i64_max" by (auto simp: s)
    then have "rowid env ids = Some (Max (set ids) + 1)"
      using assms(1) False by (simp add: env_ok_def)
    moreover have "Max (set ids) = int (length ids)"
      unfolding s using False by (intro Max_eqI) (auto simp: Suc_leI)
    ultimately show ?thesis using True assms(3) by simp
  next
    case False
    then have "int (length ids) = i64_max" using assms(2) by (simp add: ids_dense_def)
    moreover have "k \<notin> set ids \<and> 1 \<le> k \<and> k \<le> i64_max"
      using assms(1,3) by (simp add: env_ok_def)
    ultimately show ?thesis by (auto simp: s)
  qed
qed

lemma rowid_dense_next:
  assumes "env_ok env" and "ids_dense ids" and "int (length ids) < i64_max"
  shows "rowid env ids = Some (int (length ids) + 1)"
proof (cases "ids = []")
  case False
  have s: "set ids = {1..int (length ids)}" by (rule ids_dense_set [OF assms(2)])
  have "rowid env ids = Some (Max (set ids) + 1)"
    using assms False by (auto simp: env_ok_def s)
  moreover have "Max (set ids) = int (length ids)"
    unfolding s using False by (intro Max_eqI) (auto simp: Suc_leI)
  ultimately show ?thesis by simp
qed (use assms in \<open>simp add: env_ok_def\<close>)

section \<open>The invariant\<close>

definition folded :: "('a \<Rightarrow> rstr) \<Rightarrow> 'a list \<Rightarrow> rstr list" where
  "folded f xs = map (\<lambda>x. map to_ascii_lower (f x)) xs"

lemma folded_append [simp]: "folded f (xs @ ys) = folded f xs @ folded f ys"
  by (simp add: folded_def)

lemma folded_single [simp]: "folded f [x] = [map to_ascii_lower (f x)]"
  by (simp add: folded_def)

lemma find_nocase_None:
  "find (\<lambda>x. nocase (f x) n) xs = None \<longleftrightarrow> map to_ascii_lower n \<notin> set (folded f xs)"
  unfolding find_None_iff folded_def set_map image_iff eq_ignore_ascii_case_def by metis

lemma room_id_mem [simp]: "(\<exists>r\<in>set rs. r_id r = i) \<longleftrightarrow> i \<in> r_id ` set rs"
  unfolding image_iff by metis

definition message_row_ok :: "db \<Rightarrow> message_row \<Rightarrow> bool" where
  "message_row_ok d m \<longleftrightarrow>
     0 \<le> m_posted_at m \<and> m_posted_at m \<le> i64_max \<and> m_room_id m \<in> r_id ` set (rooms d)"

definition db_ok :: "db \<Rightarrow> bool" where
  "db_ok d \<longleftrightarrow>
     distinct (folded u_username (users d)) \<and>
     distinct (folded r_name (rooms d)) \<and>
     ids_dense (map r_id (rooms d)) \<and>
     ids_dense (map m_seq (messages d)) \<and>
     list_all (message_row_ok d) (messages d)"

lemma db_ok_empty: "db_ok empty_db"
  by (simp add: db_ok_def empty_db_def folded_def)

text \<open>Every table of the later database starts with the earlier one.\<close>

definition extends :: "db \<Rightarrow> db \<Rightarrow> bool" where
  "extends d d' \<longleftrightarrow>
     (\<exists>us rs ms. users d' = users d @ us \<and> rooms d' = rooms d @ rs \<and> messages d' = messages d @ ms)"

lemma extends_refl [simp]: "extends d d"
  by (simp add: extends_def)

lemma extends_trans: "extends a b \<Longrightarrow> extends b c \<Longrightarrow> extends a c"
  by (fastforce simp: extends_def)

lemma message_row_ok_extends: "extends d d' \<Longrightarrow> message_row_ok d m \<Longrightarrow> message_row_ok d' m"
  by (auto simp: extends_def message_row_ok_def)

lemma find_user_extends: "extends d d' \<Longrightarrow> find_user n d = Some u \<Longrightarrow> find_user n d' = Some u"
  by (auto simp: extends_def find_user_def find_append)

lemma find_room_extends: "extends d d' \<Longrightarrow> find_room n d = Some r \<Longrightarrow> find_room n d' = Some r"
  by (auto simp: extends_def find_room_def find_append)

section \<open>Each write statement keeps it\<close>

lemma insert_user_insert_cases:
  assumes "insert_user_insert env cap n h d = (d', r)"
  shows "d' = d \<and> r \<noteq> Ok True \<or>
    (\<exists>at. r = Ok True \<and> int (length (users d)) < uint cap \<and> find_user n d = None \<and>
       d' = d\<lparr>users := users d @ [\<lparr>u_username = n, u_pw_hash = phc h, u_created_at = at\<rparr>]\<rparr>)"
  using assms
  by (auto simp: insert_user_insert_def sql_insert_user_def split: result.splits option.splits if_splits)

lemma insert_user_insert_ok:
  assumes "insert_user_insert env cap n h d = (d', r)" and "db_ok d"
  shows "db_ok d'" "extends d d'"
  using insert_user_insert_cases [OF assms(1)] assms(2)
  by (auto simp: db_ok_def extends_def find_user_def find_nocase_None message_row_ok_def list_all_iff)

lemma create_room_insert_cases:
  assumes "create_room_insert env cap n d = (d', r)"
  shows "d' = d \<and> r \<noteq> Ok True \<or>
    (\<exists>at k. r = Ok True \<and> int (length (rooms d)) < uint cap \<and> find_room n d = None \<and>
       rowid env (map r_id (rooms d)) = Some k \<and>
       d' = d\<lparr>rooms := rooms d @ [\<lparr>r_id = k, r_name = n, r_created_at = at\<rparr>]\<rparr>)"
  using assms
  by (auto simp: create_room_insert_def sql_insert_room_def
      split: result.splits option.splits if_splits prod.splits)

lemma create_room_insert_ok:
  assumes "create_room_insert env cap n d = (d', r)" and "db_ok d" and "env_ok env"
  shows "db_ok d'" "extends d d'"
proof -
  consider (same) "d' = d"
    | (new) at k where "find_room n d = None" "rowid env (map r_id (rooms d)) = Some k"
        "d' = d\<lparr>rooms := rooms d @ [\<lparr>r_id = k, r_name = n, r_created_at = at\<rparr>]\<rparr>"
    using create_room_insert_cases [OF assms(1)] by blast
  then have "db_ok d' \<and> extends d d'"
  proof cases
    case new
    have e: "extends d d'" using new(3) by (simp add: extends_def)
    have "k = int (length (rooms d)) + 1 \<and> int (length (rooms d)) < i64_max"
      using rowid_dense [OF assms(3) _ new(2)] assms(2) by (simp add: db_ok_def)
    then have "ids_dense (map r_id (rooms d'))"
      using ids_dense_snoc [of "map r_id (rooms d)"] assms(2) new(3) by (simp add: db_ok_def)
    moreover have "list_all (message_row_ok d') (messages d')"
      using assms(2) message_row_ok_extends [OF e] new(3) by (auto simp: db_ok_def list_all_iff)
    ultimately show ?thesis
      using assms(2) new e by (auto simp: db_ok_def find_room_def find_nocase_None)
  qed (use assms(2) in simp)
  then show "db_ok d'" "extends d d'" by blast+
qed

lemma post_message_cases:
  assumes "post_message env room u b d = (d', r)"
  shows "d' = d \<and> \<not> is_ok r \<or>
    (\<exists>at s. timestamp_column (clock env) = Ok at \<and> rowid env (map m_seq (messages d)) = Some s \<and>
       uint (room_id_get room) \<in> r_id ` set (rooms d) \<and> fault env 0 = None \<and>
       r = bind_res (col_seq s) (\<lambda>q. bind_res (col_millis at) (\<lambda>t. Ok \<lparr>pr_seq = q, pr_posted_at = t\<rparr>)) \<and>
       d' = d\<lparr>messages := messages d @ [\<lparr>m_seq = s, m_room_id = uint (room_id_get room), m_username = u,
              m_body = b, m_posted_at = at\<rparr>]\<rparr>)"
  using assms
  by (auto simp: post_message_def sql_insert_message_def res_simps to_column_eq_Ok
      split: result.splits option.splits if_splits prod.splits)

lemma post_message_ok:
  assumes "post_message env room u b d = (d', r)" and "db_ok d" and "env_ok env"
  shows "db_ok d'" "extends d d'"
proof -
  consider (same) "d' = d"
    | (new) at s where "timestamp_column (clock env) = Ok at"
        "rowid env (map m_seq (messages d)) = Some s" "uint (room_id_get room) \<in> r_id ` set (rooms d)"
        "d' = d\<lparr>messages := messages d @ [\<lparr>m_seq = s, m_room_id = uint (room_id_get room), m_username = u,
              m_body = b, m_posted_at = at\<rparr>]\<rparr>"
    using post_message_cases [OF assms(1)] by blast
  then have "db_ok d' \<and> extends d d'"
  proof cases
    case new
    have "s = int (length (messages d)) + 1 \<and> int (length (messages d)) < i64_max"
      using rowid_dense [OF assms(3) _ new(2)] assms(2) by (simp add: db_ok_def)
    then have "ids_dense (map m_seq (messages d'))"
      using ids_dense_snoc [of "map m_seq (messages d)"] assms(2) new(4) by (simp add: db_ok_def)
    moreover have "list_all (message_row_ok d') (messages d')"
      using assms(2) new timestamp_column_range [OF new(1)]
      by (auto simp: db_ok_def list_all_iff message_row_ok_def)
    ultimately show ?thesis using assms(2) new(4) by (simp add: db_ok_def extends_def)
  qed (use assms(2) in simp)
  then show "db_ok d'" "extends d d'" by blast+
qed

section \<open>Runs\<close>

text \<open>
  SQLite runs one statement at a time, so whatever the connections do, the database moves by
  these three writes, with the reads in between.
\<close>

inductive db_step :: "caps \<Rightarrow> db \<Rightarrow> db \<Rightarrow> bool" for c :: caps where
  user: "env_ok env \<Longrightarrow> insert_user_insert env (cap_accounts c) n h d = (d', r) \<Longrightarrow> db_step c d d'"
| room: "env_ok env \<Longrightarrow> create_room_insert env (cap_rooms c) n d = (d', r) \<Longrightarrow> db_step c d d'"
| message: "env_ok env \<Longrightarrow> post_message env i u b d = (d', r) \<Longrightarrow> db_step c d d'"

inductive_cases db_stepE: "db_step c d d'"

abbreviation db_steps :: "caps \<Rightarrow> db \<Rightarrow> db \<Rightarrow> bool" where
  "db_steps c \<equiv> (db_step c)\<^sup>*\<^sup>*"

lemma db_step_ok: "db_step c d d' \<Longrightarrow> db_ok d \<Longrightarrow> db_ok d' \<and> extends d d'"
  by (elim db_stepE)
    (blast dest: insert_user_insert_ok create_room_insert_ok post_message_ok)+

lemma db_steps_ok: "db_steps c d d' \<Longrightarrow> db_ok d \<Longrightarrow> db_ok d' \<and> extends d d'"
  by (induction rule: rtranclp_induct) (blast intro: extends_refl extends_trans dest: db_step_ok)+

lemma db_step_caps:
  assumes "db_step c d d'"
  shows "int (length (users d')) \<le> max (int (length (users d))) (uint (cap_accounts c)) \<and>
    int (length (rooms d')) \<le> max (int (length (rooms d))) (uint (cap_rooms c))"
  using assms
proof cases
  case (user env n h r)
  then show ?thesis using insert_user_insert_cases [OF user(2)] by auto
next
  case (room env n r)
  then show ?thesis using create_room_insert_cases [OF room(2)] by auto
next
  case (message env i u b r)
  then show ?thesis using post_message_cases [OF message(2)] by auto
qed

lemma db_steps_caps:
  "db_steps c d d' \<Longrightarrow>
     int (length (users d')) \<le> max (int (length (users d))) (uint (cap_accounts c)) \<and>
     int (length (rooms d')) \<le> max (int (length (rooms d))) (uint (cap_rooms c))"
proof (induction rule: rtranclp_induct)
  case (step d' d'')
  then show ?case using db_step_caps [OF step(2)] by linarith
qed simp

text \<open>Once the accounts cap is reached the accounts table no longer changes, and so for rooms.\<close>

lemma db_steps_users_full:
  assumes "db_steps c d d'" and "db_ok d" and "uint (cap_accounts c) \<le> int (length (users d))"
  shows "users d' = users d"
proof -
  obtain us where us: "users d' = users d @ us"
    using db_steps_ok [OF assms(1,2)] by (auto simp: extends_def)
  have "int (length (users d')) \<le> int (length (users d))"
    using db_steps_caps [OF assms(1)] assms(3) by linarith
  then show ?thesis using us by simp
qed

lemma db_steps_rooms_full:
  assumes "db_steps c d d'" and "db_ok d" and "uint (cap_rooms c) \<le> int (length (rooms d))"
  shows "rooms d' = rooms d"
proof -
  obtain rs where rs: "rooms d' = rooms d @ rs"
    using db_steps_ok [OF assms(1,2)] by (auto simp: extends_def)
  have "int (length (rooms d')) \<le> int (length (rooms d))"
    using db_steps_caps [OF assms(1)] assms(3) by linarith
  then show ?thesis using rs by simp
qed

end
