(* ===== verification/Message_Log.thy ===== *)
theory Message_Log
  imports Api_Types
begin

text \<open>
  The contract between whoever serves a room's messages and whoever pages through them: a log
  per room, strictly increasing in \<open>seq\<close>, that only ever grows at its end; a newest page, which is
  the end of the log (\<open>newest s r ms\<close>: \<open>ms\<close> can be the answer); and a page beyond a cursor, which
  is a non-empty front segment of what lies there, if anything does (\<open>page s r c ms\<close>). The store and the HTTP handler provide it; the
  client's feed relies on it.
\<close>

definition beyond :: "seq \<Rightarrow> message list \<Rightarrow> message list" where
  "beyond c ms = filter (\<lambda>m. c < msg_seq m) ms"

lemma beyond_append [simp]: "beyond c (xs @ ys) = beyond c xs @ beyond c ys"
  by (simp add: beyond_def)

lemma beyond_beyond: "c \<le> d \<Longrightarrow> beyond d (beyond c ms) = beyond d ms"
  unfolding beyond_def by (rule filter_filter_greater)

lemma beyond_all: "(\<And>m. m \<in> set ms \<Longrightarrow> c < msg_seq m) \<Longrightarrow> beyond c ms = ms"
  by (simp add: beyond_def)

lemma beyond_take_last:
  assumes "sorted_wrt (<) (map msg_seq ms)" and "take k (beyond c ms) \<noteq> []"
  shows "beyond (msg_seq (last (take k (beyond c ms)))) ms = drop k (beyond c ms)"
proof -
  let ?l = "last (take k (beyond c ms))"
  have "?l \<in> set (beyond c ms)" using assms(2) by (meson in_set_takeD last_in_set)
  then have c: "c \<le> msg_seq ?l" by (auto simp: beyond_def)
  have "sorted_wrt (<) (map msg_seq (beyond c ms))"
    unfolding beyond_def using assms(1) by (simp add: sorted_wrt_map sorted_wrt_filter_imp)
  then have "beyond (msg_seq ?l) (beyond c ms) = drop k (beyond c ms)"
    unfolding beyond_def [of "msg_seq ?l"] using assms(2) by (rule filter_greater_last_take)
  then show ?thesis by (simp add: beyond_beyond [OF c])
qed

locale message_log =
  fixes inv :: "'s \<Rightarrow> bool"
    and grows :: "'s \<Rightarrow> 's \<Rightarrow> bool"
    and log :: "'s \<Rightarrow> room_id \<Rightarrow> message list"
    and newest :: "'s \<Rightarrow> room_id \<Rightarrow> message list \<Rightarrow> bool"
    and page :: "'s \<Rightarrow> room_id \<Rightarrow> seq \<Rightarrow> message list \<Rightarrow> bool"
  assumes log_sorted: "inv s \<Longrightarrow> sorted_wrt (<) (map msg_seq (log s r))"
    and log_positive: "inv s \<Longrightarrow> m \<in> set (log s r) \<Longrightarrow> seq_start < msg_seq m"
    and grows_inv: "inv s \<Longrightarrow> grows s s' \<Longrightarrow> inv s'"
    and grows_log: "inv s \<Longrightarrow> grows s s' \<Longrightarrow> \<exists>ms. log s' r = log s r @ ms"
    and newest_back: "inv s \<Longrightarrow> newest s r ms \<Longrightarrow>
        \<exists>k. ms = drop k (log s r) \<and> (ms = [] \<longrightarrow> log s r = [])"
    and page_front: "inv s \<Longrightarrow> page s r c ms \<Longrightarrow>
        \<exists>k>0. ms = take k (beyond c (log s r))"
begin

text \<open>A non-empty page and what lies beyond its last message make up all that lay beyond the cursor.\<close>

lemma page_gapless:
  assumes "inv s" and "page s r c ms" and "ms \<noteq> []"
  shows "beyond c (log s r) = ms @ beyond (msg_seq (last ms)) (log s r)"
proof -
  obtain k where k: "ms = take k (beyond c (log s r))"
    using page_front [OF assms(1,2)] by blast
  have "beyond (msg_seq (last ms)) (log s r) = drop k (beyond c (log s r))"
    using beyond_take_last [OF log_sorted [OF assms(1)]] assms(3) k by blast
  then show ?thesis using k by simp
qed

text \<open>An empty page means the cursor is at the end.\<close>

lemma page_empty:
  assumes "inv s" and "page s r c []"
  shows "beyond c (log s r) = []"
  using page_front [OF assms] by auto

text \<open>
  What a reader has been handed since the position \<open>c0\<close>, and what is still beyond its cursor,
  always make up everything the log holds after \<open>c0\<close>: nothing lost, repeated or reordered.
\<close>

definition caught_up :: "'s \<Rightarrow> room_id \<Rightarrow> seq \<Rightarrow> message list \<Rightarrow> seq \<Rightarrow> bool" where
  "caught_up s r c0 got c \<longleftrightarrow>
     beyond c0 (log s r) = got @ beyond c (log s r) \<and>
     c = (if got = [] then c0 else msg_seq (last got))"

lemma caught_up_start: "caught_up s r c [] c"
  by (simp add: caught_up_def)

lemma caught_up_page:
  assumes "inv s" and "caught_up s r c0 got c" and "page s r c ms" and "ms \<noteq> []"
  shows "caught_up s r c0 (got @ ms) (msg_seq (last ms))"
  using page_gapless [OF assms(1,3,4)] assms(2,4) by (simp add: caught_up_def)

lemma caught_up_newest:
  assumes "inv s" and "newest s r ms"
  shows "\<exists>c0 before. caught_up s r c0 ms (if ms = [] then seq_start else msg_seq (last ms)) \<and>
    log s r = before @ ms \<and> beyond c0 (log s r) = ms \<and> (ms = [] \<longrightarrow> c0 = seq_start)"
proof -
  obtain k where k: "ms = drop k (log s r)" and e: "ms = [] \<longrightarrow> log s r = []"
    using newest_back [OF assms] by blast
  let ?L = "log s r"
  have split: "?L = take k ?L @ ms" by (simp add: k)
  have sorted: "sorted_wrt (<) (map msg_seq (take k ?L @ ms))"
    using log_sorted [OF assms(1), of r] split by simp
  show ?thesis
  proof (cases "ms = []")
    case True
    then have "caught_up s r seq_start ms seq_start" by (simp add: caught_up_def)
    moreover have "?L = []" using True e by simp
    ultimately show ?thesis using True by (auto simp: beyond_def)
  next
    case False
    have b: "beyond (msg_seq (last ms)) ?L = []"
    proof -
      have "beyond (msg_seq (last (take (length ?L) (beyond seq_start ?L)))) ?L = []"
        if "beyond seq_start ?L \<noteq> []"
        using beyond_take_last [OF log_sorted [OF assms(1)], of "length ?L" seq_start r] that
        by (simp add: beyond_def)
      moreover have "beyond seq_start ?L = ?L"
        using log_positive [OF assms(1)] by (rule beyond_all)
      moreover have "last ms = last ?L" using split False by (metis last_appendR)
      moreover have "?L \<noteq> []" using False k by auto
      ultimately show ?thesis by simp
    qed
    have "\<exists>c0. beyond c0 ?L = ms"
    proof (cases "take k ?L = []")
      case True
      then have "?L = ms" using k by auto
      then have "beyond seq_start ?L = ms"
        using log_positive [OF assms(1)] by (metis beyond_all)
      then show ?thesis by blast
    next
      case f: False
      have "filter (\<lambda>m. msg_seq (last (take k ?L)) < msg_seq m) ?L = drop k ?L"
        using log_sorted [OF assms(1)] f by (rule filter_greater_last_take)
      then show ?thesis using k by (auto simp: beyond_def)
    qed
    then show ?thesis using b False split by (auto simp: caught_up_def)
  qed
qed

text \<open>What a log keeps in front of a newest page stays in front of everything posted after it.\<close>

lemma newest_front:
  assumes "inv s" and "grows s s'" and "log s r = before @ ms" and "beyond c0 (log s r) = ms"
    and "ms = [] \<longrightarrow> log s r = [] \<and> c0 = seq_start"
  shows "log s' r = before @ beyond c0 (log s' r)"
proof -
  obtain new where new: "log s' r = log s r @ new" using grows_log [OF assms(1,2)] by blast
  have inv': "inv s'" by (rule grows_inv [OF assms(1,2)])
  have "beyond c0 new = new"
  proof (rule beyond_all)
    fix m assume m: "m \<in> set new"
    show "c0 < msg_seq m"
    proof (cases "ms = []")
      case True
      then show ?thesis using log_positive [OF inv', of m r] m new assms(5) by simp
    next
      case False
      then have "last ms \<in> set (beyond c0 (log s r))" using assms(4) by simp
      then have l: "c0 < msg_seq (last ms)" "last ms \<in> set (log s r)" by (auto simp: beyond_def)
      have "sorted_wrt (<) (map msg_seq (log s r @ new))" using log_sorted [OF inv', of r] new by simp
      then have "msg_seq (last ms) < msg_seq m" using l(2) m by (auto simp: sorted_wrt_append_iff)
      with l(1) show ?thesis by (rule less_trans)
    qed
  qed
  then show ?thesis using new assms(3,4) by simp
qed

lemma caught_up_grows:
  assumes "inv s" and "grows s s'" and "caught_up s r c0 got c"
  shows "caught_up s' r c0 got c"
proof (cases "got = []")
  case True
  then show ?thesis using assms(3) by (simp add: caught_up_def)
next
  case False
  obtain ms where ms: "log s' r = log s r @ ms" using grows_log [OF assms(1,2)] by blast
  have c: "c = msg_seq (last got)" and g: "beyond c0 (log s r) = got @ beyond c (log s r)"
    using assms(3) False by (simp_all add: caught_up_def)
  have "last got \<in> set (beyond c0 (log s r))" using g False by simp
  then have l: "last got \<in> set (log s r)" "c0 < c" by (auto simp: beyond_def c)
  have "sorted_wrt (<) (map msg_seq (log s r @ ms))"
    using log_sorted [OF grows_inv [OF assms(1,2)], of r] ms by simp
  then have "c < msg_seq m" if "m \<in> set ms" for m
    using l(1) that by (auto simp: sorted_wrt_append_iff c)
  then have "beyond c ms = ms" "beyond c0 ms = ms"
    using l(2) by (auto intro!: beyond_all intro: less_trans)
  then show ?thesis using g c False ms by (simp add: caught_up_def)
qed

end

end
