(* ===== verification/Store_Read.thy ===== *)
theory Store_Read
  imports Store_Inv Message_Log
begin

text \<open>
  What the store's reads return on a well-formed database, stated over the log of each room, and
  the store as a provider of the message-log contract.
\<close>

section \<open>A room's log\<close>

definition message_of :: "message_row \<Rightarrow> message" where
  "message_of m = \<lparr>msg_seq = Seq (word_of_int (m_seq m)), msg_username = m_username m,
     msg_body = m_body m, msg_posted_at = UnixMillis (word_of_int (m_posted_at m))\<rparr>"

definition room_log :: "db \<Rightarrow> room_id \<Rightarrow> message list" where
  "room_log d r =
     map message_of (filter (\<lambda>m. m_room_id m = uint (room_id_get r)) (messages d))"

lemma db_ok_seq_range:
  assumes "db_ok d" and "m \<in> set (messages d)"
  shows "1 \<le> m_seq m" "m_seq m \<le> i64_max" "0 \<le> m_posted_at m" "m_posted_at m \<le> i64_max"
proof -
  have "ids_dense (map m_seq (messages d))" using assms(1) by (simp add: db_ok_def)
  then show "1 \<le> m_seq m" "m_seq m \<le> i64_max"
    using ids_dense_range [of "map m_seq (messages d)" "m_seq m"] assms(2) by auto
  have "message_row_ok d m" using assms by (simp add: db_ok_def list_all_iff)
  then show "0 \<le> m_posted_at m" "m_posted_at m \<le> i64_max" by (simp_all add: message_row_ok_def)
qed

lemma message_of_row_Ok:
  "db_ok d \<Longrightarrow> m \<in> set (messages d) \<Longrightarrow> message_of_row m = Ok (message_of m)"
  using db_ok_seq_range [of d m]
  by (simp add: message_of_row_def message_of_def col_seq_def col_millis_def from_column_def)

lemma collect_messages_Ok:
  assumes "db_ok d" and "set rows \<subseteq> set (messages d)"
  shows "collect_messages rows = Ok (map message_of rows)"
  unfolding collect_messages_def
  by (rule collect_res_map_Ok) (use assms message_of_row_Ok in blast)

lemma messages_sorted: "db_ok d \<Longrightarrow> sorted_wrt (\<lambda>a b. m_seq a < m_seq b) (messages d)"
  using ids_dense_sorted [of "map m_seq (messages d)"] by (simp add: db_ok_def sorted_wrt_map)

lemma select_messages_eq:
  assumes "db_ok d"
  shows "select_messages i P d = filter (\<lambda>m. m_room_id m = i \<and> P (m_seq m)) (messages d)"
proof -
  have "sorted (map m_seq (filter Q (messages d)))" for Q
    using sorted_wrt_filter_imp [OF messages_sorted [OF assms], of Q]
    by (simp add: sorted_wrt_map) (rule sorted_wrt_mono_rel [rotated], assumption, simp)
  then show ?thesis by (simp add: select_messages_def sorted_sort_id sort_key_id_if_sorted)
qed

text \<open>A bound on the column is the same bound on the wire, since no key is past \<open>i64\<close>.\<close>

lemma seq_of_less_iff:
  assumes "0 \<le> s" "s \<le> i64_max" "uint c \<le> i64_max"
  shows "Seq c < Seq (word_of_int s) \<longleftrightarrow> uint c < s" "Seq (word_of_int s) < Seq c \<longleftrightarrow> s < uint c"
  using assms by (simp_all add: word_less_def uint_word_of_int_64 i64_max_eq)

lemma log_filter:
  assumes "db_ok d" and "\<And>m. m \<in> set (messages d) \<Longrightarrow> P (m_seq m) \<longleftrightarrow> Q (msg_seq (message_of m))"
  shows "map message_of (select_messages (uint (room_id_get r)) P d) = filter (\<lambda>m. Q (msg_seq m)) (room_log d r)"
proof -
  have "filter (\<lambda>m. m_room_id m = i \<and> P (m_seq m)) (messages d) =
      filter (\<lambda>m. Q (msg_seq (message_of m))) (filter (\<lambda>m. m_room_id m = i) (messages d))" for i
    using assms(2) by (auto simp: filter_filter intro: filter_cong)
  then show ?thesis
    by (simp add: select_messages_eq [OF assms(1)] room_log_def filter_map o_def)
qed

section \<open>The three pages\<close>

definition last_n :: "nat \<Rightarrow> 'a list \<Rightarrow> 'a list" where
  "last_n n xs = drop (length xs - n) xs"

lemma rev_take_rev: "rev (take n (rev xs)) = last_n n xs"
  by (simp add: last_n_def take_rev)

text \<open>Running a select and turning its rows into messages fails only where the statement fails.\<close>

lemma fetch_rows:
  assumes "db_ok d" and "set rows \<subseteq> set (messages d)"
  shows "bind_res (run_stmt env 0 (Ok rows)) collect_messages =
    (case fault env 0 of Some e \<Rightarrow> Err (DbError e) | None \<Rightarrow> Ok (map message_of rows))"
    "bind_res (run_stmt env 0 (Ok rows)) (\<lambda>rows. map_res rev (collect_messages rows)) =
    (case fault env 0 of Some e \<Rightarrow> Err (DbError e) | None \<Rightarrow> Ok (rev (map message_of rows)))"
  using collect_messages_Ok [OF assms] by (simp_all add: run_stmt_def split: option.split)

lemma select_take_subset:
  "set (take n (select_messages i P d)) \<subseteq> set (messages d)"
  "set (take n (rev (select_messages i P d))) \<subseteq> set (messages d)"
  by (auto simp: select_messages_def dest: in_set_takeD)

lemma rev_map_take_rev: "rev (map f (take n (rev xs))) = last_n n (map f xs)"
  by (metis rev_map rev_take_rev take_map)

lemma messages_after_eq:
  assumes "db_ok d"
  shows "messages_after env r c n d =
    (if i64_max < uint (room_id_get r) then Err (OutOfRange ''room id'' (uint (room_id_get r)))
     else if i64_max < uint (seq_get c) then Err (OutOfRange ''seq'' (uint (seq_get c)))
     else case fault env 0 of Some e \<Rightarrow> Err (DbError e)
       | None \<Rightarrow> Ok (take (unat n) (beyond c (room_log d r))))"
proof (cases "uint (seq_get c) \<le> i64_max")
  case True
  have "map message_of (select_messages (uint (room_id_get r)) (\<lambda>s. uint (seq_get c) < s) d) =
      beyond c (room_log d r)"
    unfolding beyond_def
  proof (rule log_filter [OF assms])
    fix m assume m: "m \<in> set (messages d)"
    then show "(uint (seq_get c) < m_seq m) = (c < msg_seq (message_of m))"
      using seq_of_less_iff(1) [OF _ _ True, of "m_seq m"] db_ok_seq_range [OF assms m]
      by (simp add: message_of_def)
  qed
  then show ?thesis
    using True fetch_rows(1) [OF assms select_take_subset(1)]
    by (simp add: messages_after_def to_column_def take_map [symmetric] split: option.split)
qed (simp add: messages_after_def to_column_def)

lemma messages_before_eq:
  assumes "db_ok d"
  shows "messages_before env r c n d =
    (if i64_max < uint (room_id_get r) then Err (OutOfRange ''room id'' (uint (room_id_get r)))
     else if i64_max < uint (seq_get c) then Err (OutOfRange ''seq'' (uint (seq_get c)))
     else case fault env 0 of Some e \<Rightarrow> Err (DbError e)
       | None \<Rightarrow> Ok (last_n (unat n) (filter (\<lambda>m. msg_seq m < c) (room_log d r))))"
proof (cases "uint (seq_get c) \<le> i64_max")
  case True
  have "map message_of (select_messages (uint (room_id_get r)) (\<lambda>s. s < uint (seq_get c)) d) =
      filter (\<lambda>m. msg_seq m < c) (room_log d r)"
  proof (rule log_filter [OF assms])
    fix m assume m: "m \<in> set (messages d)"
    then show "(m_seq m < uint (seq_get c)) = (msg_seq (message_of m) < c)"
      using seq_of_less_iff(2) [OF _ _ True, of "m_seq m"] db_ok_seq_range [OF assms m]
      by (simp add: message_of_def)
  qed
  then show ?thesis
    using True fetch_rows(2) [OF assms select_take_subset(2)]
    by (simp add: messages_before_def to_column_def rev_map_take_rev split: option.split)
qed (simp add: messages_before_def to_column_def)

lemma messages_newest_eq:
  assumes "db_ok d"
  shows "messages_newest env r n d =
    (if i64_max < uint (room_id_get r) then Err (OutOfRange ''room id'' (uint (room_id_get r)))
     else case fault env 0 of Some e \<Rightarrow> Err (DbError e)
       | None \<Rightarrow> Ok (last_n (unat n) (room_log d r)))"
  using log_filter [OF assms, of "\<lambda>_. True" "\<lambda>_. True" r] fetch_rows(2) [OF assms select_take_subset(2)]
  by (simp add: messages_newest_def to_column_def rev_map_take_rev split: option.split)

section \<open>The room list\<close>

definition log_latest :: "message list \<Rightarrow> seq" where
  "log_latest ms = (if ms = [] then seq_start else msg_seq (last ms))"

definition room_view :: "db \<Rightarrow> room_row \<Rightarrow> room" where
  "room_view d r = \<lparr>rm_id = RoomId (word_of_int (r_id r)), rm_name = r_name r,
     rm_latest_seq = log_latest (room_log d (RoomId (word_of_int (r_id r))))\<rparr>"

lemma fold_max_sorted: "sorted_wrt (<) (s # ss) \<Longrightarrow> fold max ss s = last (s # (ss :: int list))"
proof (induction ss arbitrary: s)
  case (Cons a ss)
  then have "max a s = a" by simp
  with Cons show ?case by simp
qed simp

lemma room_row_range:
  "db_ok d \<Longrightarrow> r \<in> set (rooms d) \<Longrightarrow> 1 \<le> r_id r \<and> r_id r \<le> i64_max"
  using ids_dense_range [of "map r_id (rooms d)" "r_id r"] by (simp add: db_ok_def)

lemma latest_seq_log:
  assumes "db_ok d" and "0 \<le> i" and "i \<le> i64_max"
  shows "col_seq (latest_seq i d) = Ok (log_latest (room_log d (RoomId (word_of_int i))))"
proof -
  let ?rows = "filter (\<lambda>m. m_room_id m = i) (messages d)"
  have u: "uint (word_of_int i :: u64) = i"
    using assms by (simp add: uint_word_of_int_64 i64_max_eq)
  show ?thesis
  proof (cases "?rows = []")
    case True
    then have "map m_seq ?rows = []" by simp
    then have "latest_seq i d = 0" by (simp add: latest_seq_def del: map_is_Nil_conv)
    then show ?thesis
      using True by (simp add: log_latest_def room_log_def u col_seq_def from_column_def seq_start_def)
  next
    case False
    then obtain s ss where rows: "map m_seq ?rows = s # ss" by (cases ?rows) auto
    have "sorted_wrt (<) (map m_seq ?rows)"
      using sorted_wrt_filter_imp [OF messages_sorted [OF assms(1)]] by (simp add: sorted_wrt_map)
    then have "latest_seq i d = last (map m_seq ?rows)"
      using fold_max_sorted [of s ss] by (simp only: latest_seq_def rows list.case)
    then have l: "latest_seq i d = m_seq (last ?rows)" using False by (simp add: last_map)
    have "last ?rows \<in> set ?rows" using False by (rule last_in_set)
    then have "0 \<le> m_seq (last ?rows)" using db_ok_seq_range(1) [OF assms(1)] by fastforce
    then show ?thesis
      using False l by (simp add: log_latest_def room_log_def u col_seq_def from_column_def last_map message_of_def)
  qed
qed

lemma room_of_row_Ok:
  assumes "db_ok d" and "r \<in> set (rooms d)"
  shows "room_of_row d r = Ok (room_view d r)"
  using latest_seq_log [OF assms(1), of "r_id r"] room_row_range [OF assms]
  by (simp add: room_of_row_def room_view_def col_room_id_def from_column_def)

lemma list_rooms_eq:
  assumes "db_ok d"
  shows "list_rooms env d = (case fault env 0 of Some e \<Rightarrow> Err (DbError e)
    | None \<Rightarrow> Ok (map (room_view d) (rooms d)))"
proof -
  have "sorted (map r_id (rooms d))"
    using ids_dense_sorted [of "map r_id (rooms d)"] assms strict_sorted_imp_sorted
    by (auto simp: db_ok_def)
  then have "sort_key r_id (rooms d) = rooms d" by (rule sort_key_id_if_sorted)
  moreover have "collect_res (map (room_of_row d) (rooms d)) = Ok (map (room_view d) (rooms d))"
    by (rule collect_res_map_Ok) (rule room_of_row_Ok [OF assms])
  ultimately show ?thesis by (simp add: list_rooms_def run_stmt_def split: option.split)
qed

text \<open>Rooms are found by the id the API hands out.\<close>

definition room_known :: "db \<Rightarrow> room_id \<Rightarrow> bool" where
  "room_known d r \<longleftrightarrow> uint (room_id_get r) \<in> r_id ` set (rooms d)"

lemma room_known_bound: "db_ok d \<Longrightarrow> room_known d r \<Longrightarrow> uint (room_id_get r) \<le> i64_max"
  using room_row_range [of d] by (auto simp: room_known_def)

lemma room_exists_eq:
  "room_exists env r d =
    (if i64_max < uint (room_id_get r) then Err (OutOfRange ''room id'' (uint (room_id_get r)))
     else case fault env 0 of Some e \<Rightarrow> Err (DbError e) | None \<Rightarrow> Ok (room_known d r))"
  by (simp add: room_exists_def to_column_def run_stmt_def room_known_def split: option.split)

lemma room_known_extends: "extends d d' \<Longrightarrow> room_known d r \<Longrightarrow> room_known d' r"
  by (auto simp: extends_def room_known_def)

section \<open>The store provides the message log\<close>

text \<open>The pages the store can answer with, for some environment and some page size.\<close>

definition store_newest :: "db \<Rightarrow> room_id \<Rightarrow> message list \<Rightarrow> bool" where
  "store_newest d r ms \<longleftrightarrow> (\<exists>env n. 0 < n \<and> messages_newest env r n d = Ok ms)"

definition store_page :: "db \<Rightarrow> room_id \<Rightarrow> seq \<Rightarrow> message list \<Rightarrow> bool" where
  "store_page d r c ms \<longleftrightarrow> (\<exists>env n. 0 < n \<and> messages_after env r c n d = Ok ms)"

lemma seq_of_row_mono:
  assumes "db_ok d" "x \<in> set (messages d)" "y \<in> set (messages d)" "m_seq x < m_seq y"
  shows "(word_of_int (m_seq x) :: u64) < word_of_int (m_seq y)"
  using db_ok_seq_range [OF assms(1,2)] db_ok_seq_range [OF assms(1,3)] assms(4)
  by (simp add: word_less_def uint_word_of_int_64 i64_max_eq)

lemma room_log_sorted: "db_ok d \<Longrightarrow> sorted_wrt (<) (map msg_seq (room_log d r))"
proof -
  assume ok: "db_ok d"
  have "sorted_wrt (\<lambda>a b. m_seq a < m_seq b) (filter (\<lambda>m. m_room_id m = i) (messages d))" for i
    using messages_sorted [OF ok] by (rule sorted_wrt_filter_imp)
  then have "sorted_wrt (\<lambda>a b. Seq (word_of_int (m_seq a)) < Seq (word_of_int (m_seq b)))
      (filter (\<lambda>m. m_room_id m = i) (messages d))" for i
    by (rule sorted_wrt_mono_rel [rotated]) (auto simp: seq_of_row_mono [OF ok])
  then show ?thesis by (simp add: room_log_def sorted_wrt_map message_of_def)
qed

lemma room_log_positive: "db_ok d \<Longrightarrow> m \<in> set (room_log d r) \<Longrightarrow> seq_start < msg_seq m"
  using db_ok_seq_range [of d]
  by (force simp: room_log_def message_of_def seq_start_def word_less_def uint_word_of_int_64 i64_max_eq)

lemma room_log_extends: "extends d d' \<Longrightarrow> \<exists>ms. room_log d' r = room_log d r @ ms"
  by (auto simp: extends_def room_log_def)

interpretation store_log: message_log db_ok "db_steps c" room_log store_newest store_page for c
proof (unfold_locales, goal_cases)
  case (5 s r ms)
  then obtain n :: u32 where "0 < n" and ms: "ms = last_n (unat n) (room_log s r)"
    by (auto simp: store_newest_def messages_newest_eq split: if_splits option.splits)
  then have "0 < unat n" by (simp add: unat_gt_0)
  with ms have "ms = [] \<longrightarrow> room_log s r = []"
    by (cases "room_log s r") (auto simp: last_n_def)
  with ms show ?case unfolding last_n_def by blast
next
  case (6 s r c ms)
  then obtain n :: u32 where "0 < n" and ms: "ms = take (unat n) (beyond c (room_log s r))"
    by (auto simp: store_page_def messages_after_eq split: if_splits option.splits)
  then show ?case by (auto simp: unat_gt_0 intro!: exI [of _ "unat n"])
qed (auto dest: db_steps_ok room_log_extends intro: room_log_sorted room_log_positive)

end
