(* ===== verification/Std_Net.thy ===== *)
theory Std_Net
  imports Rust_Str
begin

text \<open>
  What the server and the development network use of the standard library beside strings: decoding
  UTF-8 (\<open>String::from_utf8\<close>), and \<open>std::net\<close>'s IP and socket addresses with their
  \<open>Display\<close> and \<open>FromStr\<close>.
\<close>

section \<open>Decoding UTF-8\<close>

text \<open>A Unicode scalar value: a code point that is no surrogate.\<close>

definition is_scalar :: "nat \<Rightarrow> bool" where
  "is_scalar c \<longleftrightarrow> c < 55296 \<or> (57344 \<le> c \<and> c < 1114112)"

definition is_cont :: "nat \<Rightarrow> bool" where
  "is_cont b \<longleftrightarrow> 128 \<le> b \<and> b < 192"

text \<open>
  Over-long forms, surrogates and values past U+10FFFF are refused by the range of the second byte,
  as the standard library's validation does.
\<close>

fun from_utf8 :: "nat list \<Rightarrow> rstr option" where
  "from_utf8 [] = Some []"
| "from_utf8 (a # bs) =
     (if a < 128 then map_option (Cons a) (from_utf8 bs)
      else case bs of
        [] \<Rightarrow> None
      | b # bs' \<Rightarrow>
          if \<not> is_cont b then None
          else if 194 \<le> a \<and> a < 224 then
            map_option (Cons ((a - 192) * 64 + (b - 128))) (from_utf8 bs')
          else (case bs' of
            [] \<Rightarrow> None
          | c # bs'' \<Rightarrow>
              if \<not> is_cont c then None
              else if 224 \<le> a \<and> a < 240 \<and> (a = 224 \<longrightarrow> 160 \<le> b) \<and> (a = 237 \<longrightarrow> b < 160) then
                map_option (Cons ((a - 224) * 4096 + (b - 128) * 64 + (c - 128))) (from_utf8 bs'')
              else (case bs'' of
                [] \<Rightarrow> None
              | d # bs''' \<Rightarrow>
                  if is_cont d \<and> 240 \<le> a \<and> a < 245 \<and> (a = 240 \<longrightarrow> 144 \<le> b) \<and> (a = 244 \<longrightarrow> b < 144) then
                    map_option (Cons ((a - 240) * 262144 + (b - 128) * 4096 + (c - 128) * 64 + (d - 128)))
                      (from_utf8 bs''')
                  else None)))"

declare from_utf8.simps(2) [simp del]

lemma base64_digits: "c = c div 4096 * 4096 + c div 64 mod 64 * 64 + c mod (64 :: nat)"
proof -
  have "c div 4096 = c div 64 div 64" by (simp flip: div_mult2_eq)
  then show ?thesis using div_mult_mod_eq [of c 64] div_mult_mod_eq [of "c div 64" 64] by linarith
qed

lemma base64_digits4:
  "c = c div 262144 * 262144 + c div 4096 mod 64 * 4096 + c div 64 mod 64 * 64 + c mod (64 :: nat)"
proof -
  have "c div 262144 = c div 4096 div 64" by (simp flip: div_mult2_eq)
  then show ?thesis using base64_digits [of c] div_mult_mod_eq [of "c div 4096" 64] by linarith
qed

lemma from_utf8_char:
  assumes "is_scalar c"
  shows "from_utf8 (utf8_char c @ bs) = map_option (Cons c) (from_utf8 bs)"
proof -
  consider "c < 128" | "128 \<le> c" "c < 2048" | "2048 \<le> c" "c < 65536" | "65536 \<le> c" by linarith
  then show ?thesis
  proof cases
    case 1
    then show ?thesis by (simp add: utf8_char.simps from_utf8.simps(2))
  next
    case 2
    then have "2 \<le> c div 64" "c div 64 < 32" by simp_all
    then show ?thesis using 2 by (simp add: utf8_char.simps from_utf8.simps(2) is_cont_def)
  next
    case 3
    define x y z where "x = c div 4096" and "y = c div 64 mod 64" and "z = c mod 64"
    have b: "x < 16" "y < 64" "z < 64" using 3 by (simp_all add: x_def y_def z_def)
    have c: "c = x * 4096 + y * 64 + z" unfolding x_def y_def z_def by (rule base64_digits)
    have low: "x = 0 \<longrightarrow> 32 \<le> y" "x = 13 \<longrightarrow> y < 32"
      using 3 b assms unfolding c is_scalar_def by auto
    have "utf8_char c = [224 + x, 128 + y, 128 + z]" using 3 by (simp add: utf8_char.simps x_def y_def z_def)
    then show ?thesis using b low by (simp add: from_utf8.simps(2) is_cont_def c)
  next
    case 4
    define w x y z where "w = c div 262144" and "x = c div 4096 mod 64" and "y = c div 64 mod 64" and "z = c mod 64"
    have b: "x < 64" "y < 64" "z < 64" by (simp_all add: x_def y_def z_def)
    have c: "c = w * 262144 + x * 4096 + y * 64 + z"
      unfolding w_def x_def y_def z_def by (rule base64_digits4)
    have hi: "c < 1114112" using assms 4 by (simp add: is_scalar_def)
    then have w: "w < 5" unfolding w_def by simp
    have low: "w = 0 \<longrightarrow> 16 \<le> x" "w = 4 \<longrightarrow> x < 16"
      using 4 b hi unfolding c by auto
    have "utf8_char c = [240 + w, 128 + x, 128 + y, 128 + z]"
      using 4 by (simp add: utf8_char.simps w_def x_def y_def z_def)
    then show ?thesis using b w low by (simp add: from_utf8.simps(2) is_cont_def c)
  qed
qed

text \<open>Every string is read back from its own encoding.\<close>

lemma from_utf8_as_bytes: "list_all is_scalar s \<Longrightarrow> from_utf8 (as_bytes s) = Some s"
  by (induction s) (simp_all add: from_utf8_char)

text \<open>Lower-case hexadecimal, as \<open>{:x}\<close> writes it and, for a byte, \<open>{:02x}\<close>.\<close>

definition hex_digit :: "nat \<Rightarrow> uchar" where
  "hex_digit n = (if n < 10 then 48 + n else 87 + n)"

fun hex :: "nat \<Rightarrow> rstr" where
  "hex n = (if n < 16 then [hex_digit n] else hex (n div 16) @ [hex_digit (n mod 16)])"

declare hex.simps [simp del]

definition hex2 :: "nat \<Rightarrow> rstr" where
  "hex2 b = [hex_digit (b div 16), hex_digit (b mod 16)]"

lemma hex_digit_eq: "m < 16 \<Longrightarrow> n < 16 \<Longrightarrow> hex_digit m = hex_digit n \<longleftrightarrow> m = n"
  by (auto simp: hex_digit_def split: if_splits)

lemma hex2_eq:
  assumes "a < 256" and "b < 256" and "hex2 a = hex2 b"
  shows "a = b"
proof -
  have "a div 16 = b div 16" "a mod 16 = b mod 16"
    using assms by (auto simp: hex2_def hex_digit_eq less_mult_imp_div_less)
  then show ?thesis by (metis div_mult_mod_eq)
qed

section \<open>IP addresses\<close>

text \<open>An IPv6 address is its eight segments.\<close>

datatype ip_addr = V4 u8 u8 u8 u8 | V6 "u16 list"

fun is_unspecified :: "ip_addr \<Rightarrow> bool" where
  "is_unspecified (V4 a b c d) \<longleftrightarrow> a = 0 \<and> b = 0 \<and> c = 0 \<and> d = 0"
| "is_unspecified (V6 ss) \<longleftrightarrow> list_all (\<lambda>s. s = 0) ss"

fun join_with :: "rstr \<Rightarrow> rstr list \<Rightarrow> rstr" where
  "join_with sep [] = []"
| "join_with sep [s] = s"
| "join_with sep (s # ss) = s @ sep @ join_with sep ss"

definition show_v4 :: "u8 \<Rightarrow> u8 \<Rightarrow> u8 \<Rightarrow> u8 \<Rightarrow> rstr" where
  "show_v4 a b c d = join_with (lit ''.'') (map (\<lambda>x. dec (unat x)) [a, b, c, d])"

text \<open>The longest run of zero segments from some index, the first one on a tie.\<close>

fun longest_zeros :: "nat \<Rightarrow> u16 list \<Rightarrow> nat \<times> nat \<Rightarrow> nat \<times> nat" where
  "longest_zeros i [] best = best"
| "longest_zeros i (s # ss) (bi, bn) =
     (let n = length (takeWhile (\<lambda>x. x = 0) (s # ss))
      in longest_zeros (Suc i) ss (if bn < n then (i, n) else (bi, bn)))"

definition show_groups :: "u16 list \<Rightarrow> rstr" where
  "show_groups ss = join_with (lit '':'') (map (\<lambda>x. hex (unat x)) ss)"

text \<open>An IPv4-mapped address ends in dots; of the others the longest run of zeros is left out.\<close>

fun show_ip :: "ip_addr \<Rightarrow> rstr" where
  "show_ip (V4 a b c d) = show_v4 a b c d"
| "show_ip (V6 ss) =
     (if length ss = 8 \<and> take 5 ss = replicate 5 0 \<and> ss ! 5 = 0xffff then
        lit ''::ffff:'' @ show_v4 (ucast (drop_bit 8 (ss ! 6))) (ucast (ss ! 6))
          (ucast (drop_bit 8 (ss ! 7))) (ucast (ss ! 7))
      else (let (i, n) = longest_zeros 0 ss (0, 0) in
        if 1 < n then show_groups (take i ss) @ lit ''::'' @ show_groups (drop (i + n) ss)
        else show_groups ss))"

section \<open>Reading an IP address\<close>

definition digit_of :: "nat \<Rightarrow> uchar \<Rightarrow> nat option" where
  "digit_of radix c =
     (let v = (if 48 \<le> c \<and> c \<le> 57 then c - 48
               else if 97 \<le> c \<and> c \<le> 122 then c - 87
               else if 65 \<le> c \<and> c \<le> 90 then c - 55 else radix)
      in if v < radix then Some v else None)"

definition digits_value :: "nat \<Rightarrow> uchar list \<Rightarrow> nat" where
  "digits_value radix ds = foldl (\<lambda>n c. n * radix + (case digit_of radix c of Some v \<Rightarrow> v | None \<Rightarrow> 0)) 0 ds"

text \<open>
  The parser's \<open>read_number\<close>: every digit there is, at most \<open>maxd\<close> of them, a value that fits, and
  unless \<open>zeros\<close> no leading zero.
\<close>

definition read_number :: "nat \<Rightarrow> nat \<Rightarrow> bool \<Rightarrow> nat \<Rightarrow> rstr \<Rightarrow> (nat \<times> rstr) option" where
  "read_number radix maxd zeros bound s =
     (let ds = takeWhile (\<lambda>c. digit_of radix c \<noteq> None) s; n = digits_value radix ds in
      if ds = [] \<or> maxd < length ds \<or> bound < n then None
      else if \<not> zeros \<and> hd ds = 48 \<and> 1 < length ds then None
      else Some (n, drop (length ds) s))"

definition read_separator :: "uchar \<Rightarrow> nat \<Rightarrow> (rstr \<Rightarrow> 'a option) \<Rightarrow> rstr \<Rightarrow> 'a option" where
  "read_separator sep i inner s =
     (if i = 0 then inner s
      else case s of c # rest \<Rightarrow> if c = sep then inner rest else None | [] \<Rightarrow> None)"

fun read_octets :: "nat \<Rightarrow> nat \<Rightarrow> rstr \<Rightarrow> (nat list \<times> rstr) option" where
  "read_octets i 0 s = Some ([], s)"
| "read_octets i (Suc k) s =
     (case read_separator 46 i (read_number 10 3 False 255) s of
        None \<Rightarrow> None
      | Some (n, rest) \<Rightarrow> map_option (\<lambda>(ns, r). (n # ns, r)) (read_octets (Suc i) k rest))"

definition read_ipv4 :: "rstr \<Rightarrow> (nat list \<times> rstr) option" where
  "read_ipv4 s = read_octets 0 4 s"

text \<open>\<open>read_groups\<close> from group \<open>i\<close> with room for \<open>k\<close>: the groups, and whether they end in dots.\<close>

fun read_groups :: "nat \<Rightarrow> nat \<Rightarrow> rstr \<Rightarrow> nat list \<times> bool \<times> rstr" where
  "read_groups i 0 s = ([], False, s)"
| "read_groups i (Suc k) s =
     (case (if k = 0 then None else read_separator 58 i read_ipv4 s) of
        Some (ns, rest) \<Rightarrow> ([ns ! 0 * 256 + ns ! 1, ns ! 2 * 256 + ns ! 3], True, rest)
      | None \<Rightarrow>
          (case read_separator 58 i (read_number 16 4 True 65535) s of
             None \<Rightarrow> ([], False, s)
           | Some (g, rest) \<Rightarrow>
               (let (gs, v4, r) = read_groups (Suc i) k rest in (g # gs, v4, r))))"

definition read_ipv6 :: "rstr \<Rightarrow> (nat list \<times> rstr) option" where
  "read_ipv6 s =
     (let (head, v4, rest) = read_groups 0 8 s in
      if length head = 8 then Some (head, rest)
      else if v4 then None
      else case rest of
        c # c' # rest' \<Rightarrow>
          if c = 58 \<and> c' = 58 then
            (let (tail, _, r) = read_groups 0 (8 - (length head + 1)) rest'
             in Some (head @ replicate (8 - length head - length tail) 0 @ tail, r))
          else None
      | _ \<Rightarrow> None)"

text \<open>\<open>str::parse::<IpAddr>\<close>: the whole text, read as one or the other.\<close>

definition parse_ip :: "rstr \<Rightarrow> ip_addr option" where
  "parse_ip s =
     (case (case read_ipv4 s of
              Some (ns, r) \<Rightarrow> Some (V4 (of_nat (ns ! 0)) (of_nat (ns ! 1)) (of_nat (ns ! 2)) (of_nat (ns ! 3)), r)
            | None \<Rightarrow> map_option (\<lambda>(ss, r). (V6 (map of_nat ss), r)) (read_ipv6 s)) of
        Some (ip, []) \<Rightarrow> Some ip
      | _ \<Rightarrow> None)"

section \<open>Socket addresses\<close>

record sock_addr =
  sa_ip :: ip_addr
  sa_port :: u16

definition show_sock :: "sock_addr \<Rightarrow> rstr" where
  "show_sock a =
     (case sa_ip a of
        V4 _ _ _ _ \<Rightarrow> show_ip (sa_ip a) @ lit '':'' @ dec (unat (sa_port a))
      | V6 _ \<Rightarrow> lit ''['' @ show_ip (sa_ip a) @ lit '']:'' @ dec (unat (sa_port a)))"

section \<open>IPv4 addresses read back\<close>

lemma dec_byte:
  assumes "n < 256"
  shows "n < 10 \<and> dec n = [48 + n] \<or>
    (10 \<le> n \<and> n < 100) \<and> dec n = [48 + n div 10, 48 + n mod 10] \<or>
    100 \<le> n \<and> dec n = [48 + n div 100, 48 + n div 10 mod 10, 48 + n mod 10]"
proof -
  have "n div 10 div 10 = n div 100" by (simp flip: div_mult2_eq)
  moreover from this have "n div 100 < 10" using assms by simp
  ultimately show ?thesis using assms
    by (auto simp: dec.simps [of n] dec.simps [of "n div 10"] dec.simps [of "n div 100"])
qed

lemma digit_of_dec: "d < 10 \<Longrightarrow> digit_of 10 (48 + d) = Some d"
  by (simp add: digit_of_def)

lemma read_number_dec:
  assumes "n < 256" and "rest = [] \<or> digit_of 10 (hd rest) = None"
  shows "read_number 10 3 False 255 (dec n @ rest) = Some (n, rest)"
proof -
  have stop: "takeWhile (\<lambda>c. \<exists>y. digit_of 10 c = Some y) rest = []" using assms(2) by (cases rest) auto
  from dec_byte [OF assms(1)] show ?thesis
  proof (elim disjE)
    assume "n < 10 \<and> dec n = [48 + n]"
    then show ?thesis using stop by (simp add: read_number_def digit_of_dec digits_value_def)
  next
    assume d: "(10 \<le> n \<and> n < 100) \<and> dec n = [48 + n div 10, 48 + n mod 10]"
    then have "n div 10 < 10" "n mod 10 < 10" "n div 10 \<noteq> 0" by (auto simp: div_eq_0_iff)
    then show ?thesis using stop d assms(1) by (simp add: read_number_def digit_of_dec digits_value_def)
  next
    assume d: "100 \<le> n \<and> dec n = [48 + n div 100, 48 + n div 10 mod 10, 48 + n mod 10]"
    then have "n div 100 < 10" "n div 10 mod 10 < 10" "n mod 10 < 10" "n div 100 \<noteq> 0"
      using assms(1) by (auto simp: div_eq_0_iff)
    moreover have "(n div 100 * 10 + n div 10 mod 10) * 10 + n mod 10 = n"
    proof -
      have "n div 100 = n div 10 div 10" by (simp flip: div_mult2_eq)
      then show ?thesis by (simp only: div_mult_mod_eq)
    qed
    ultimately show ?thesis using stop d assms(1)
      by (simp add: read_number_def digit_of_dec digits_value_def)
  qed
qed

lemma parse_show_v4: "parse_ip (show_ip (V4 a b c d)) = Some (V4 a b c d)"
proof -
  have lim: "unat (x :: u8) < 256" for x by (rule order_less_le_trans [OF unsigned_less]) simp
  have dot: "digit_of 10 46 = None" by (simp add: digit_of_def)
  have n: "read_number 10 3 False 255 (dec (unat (x :: u8)) @ 46 # r) = Some (unat x, 46 # r)" for x r
    by (rule read_number_dec [OF lim]) (simp add: dot)
  have e: "read_number 10 3 False 255 (dec (unat (x :: u8))) = Some (unat x, [])" for x
    using read_number_dec [OF lim, of "[]"] by simp
  have four: "read_ipv4 s = read_octets 0 (Suc (Suc (Suc (Suc 0)))) s" for s
    by (simp add: read_ipv4_def eval_nat_numeral)
  have "read_ipv4 (show_v4 a b c d) = Some ([unat a, unat b, unat c, unat d], [])"
    by (simp add: four show_v4_def read_separator_def n e)
  then show ?thesis by (simp add: parse_ip_def)
qed

end
