(* ===== verification/Server_Config.thy ===== *)
theory Server_Config
  imports Store Std_Net
begin

text \<open>
  \<open>chat-server\<close>'s configuration (crates/chat-server/src/config.rs) and the part of the file
  system the server touches at startup: a map from paths to files, and the operating-system errors
  a path answers with. Paths are Unix paths.
\<close>

section \<open>Paths and files\<close>

text \<open>\<open>Path::join\<close>: an absolute right side replaces the left one.\<close>

definition path_join :: "rstr \<Rightarrow> rstr \<Rightarrow> rstr" where
  "path_join p q =
     (if q \<noteq> [] \<and> hd q = 47 then q
      else if p = [] \<or> last p = 47 then p @ q
      else p @ lit ''/'' @ q)"

record os_file =
  f_bytes :: "nat list"
  f_mode :: nat

type_synonym files = "rstr \<rightharpoonup> os_file"

text \<open>
  What the operating system answers for a path: an error on reading it, on opening it for writing,
  or after that many bytes have been written; and whether asking what it is fails. \<open>f_mode\<close> is the
  mode a file is created with, before the umask.
\<close>

record os =
  read_fault :: "rstr \<Rightarrow> rstr option"
  write_fault :: "rstr \<Rightarrow> rstr option"
  cut_fault :: "rstr \<Rightarrow> (nat \<times> rstr) option"
  stat_fault :: "rstr \<Rightarrow> bool"

definition calm_os :: os where
  "calm_os = \<lparr>read_fault = (\<lambda>_. None), write_fault = (\<lambda>_. None), cut_fault = (\<lambda>_. None), stat_fault = (\<lambda>_. False)\<rparr>"

text \<open>\<open>fs::read\<close> and \<open>fs::read_to_string\<close>, \<open>Path::is_file\<close>, and \<open>write_all\<close> to a file just opened.\<close>

definition fs_read :: "os \<Rightarrow> rstr \<Rightarrow> files \<Rightarrow> rstr + nat list" where
  "fs_read s path fs =
     (case read_fault s path of
        Some e \<Rightarrow> Inl e
      | None \<Rightarrow> (case fs path of None \<Rightarrow> Inl (lit ''No such file or directory (os error 2)'') | Some f \<Rightarrow> Inr (f_bytes f)))"

definition fs_read_to_string :: "os \<Rightarrow> rstr \<Rightarrow> files \<Rightarrow> rstr + rstr" where
  "fs_read_to_string s path fs =
     (case fs_read s path fs of
        Inl e \<Rightarrow> Inl e
      | Inr bytes \<Rightarrow>
          (case from_utf8 bytes of None \<Rightarrow> Inl (lit ''stream did not contain valid UTF-8'') | Some t \<Rightarrow> Inr t))"

definition is_file :: "os \<Rightarrow> rstr \<Rightarrow> files \<Rightarrow> bool" where
  "is_file s path fs \<longleftrightarrow> \<not> stat_fault s path \<and> fs path \<noteq> None"

definition write_all :: "os \<Rightarrow> rstr \<Rightarrow> nat list \<Rightarrow> nat \<Rightarrow> files \<Rightarrow> files \<times> (rstr, unit) result" where
  "write_all s path bytes mode fs =
     (case cut_fault s path of
        Some (n, e) \<Rightarrow> (fs(path \<mapsto> \<lparr>f_bytes = take n bytes, f_mode = mode\<rparr>), Err e)
      | None \<Rightarrow> (fs(path \<mapsto> \<lparr>f_bytes = bytes, f_mode = mode\<rparr>), Ok ()))"

text \<open>
  Opening with \<open>create\<close> and \<open>truncate\<close>, then writing: a file that was there keeps its mode.
\<close>

definition fs_replace :: "os \<Rightarrow> rstr \<Rightarrow> nat list \<Rightarrow> nat \<Rightarrow> files \<Rightarrow> files \<times> (rstr, unit) result" where
  "fs_replace s path bytes mode fs =
     (case write_fault s path of
        Some e \<Rightarrow> (fs, Err e)
      | None \<Rightarrow> write_all s path bytes (case fs path of Some f \<Rightarrow> f_mode f | None \<Rightarrow> mode) fs)"

lemma fs_replace_other: "fs_replace s p b m fs = (fs', r) \<Longrightarrow> q \<noteq> p \<Longrightarrow> fs' q = fs q"
  by (auto simp: fs_replace_def write_all_def split: option.splits prod.splits)

lemma fs_replace_ok:
  "fs_replace s p b m fs = (fs', Ok u) \<Longrightarrow>
     fs' = fs(p \<mapsto> \<lparr>f_bytes = b, f_mode = (case fs p of Some f \<Rightarrow> f_mode f | None \<Rightarrow> m)\<rparr>)"
  by (auto simp: fs_replace_def write_all_def split: option.splits prod.splits)

section \<open>Configuration\<close>

datatype transport = Scion | Tcp

record config =
  cfg_transport :: transport
  cfg_listen :: sock_addr
  cfg_data_dir :: rstr
  cfg_max_accounts :: u32
  cfg_max_rooms :: u32
  cfg_max_message_bytes :: u32
  cfg_token_expiry_days :: u32
  cfg_endhost_api :: "rstr option"
  cfg_auth_token_file :: "rstr option"
  cfg_auth_api_key_file :: "rstr option"
  cfg_aa_url :: rstr

definition ANAPAYA_AA :: rstr where
  "ANAPAYA_AA = lit ''https://auth.scion.anapaya.net''"

definition config_database :: "config \<Rightarrow> rstr" where
  "config_database c = path_join (cfg_data_dir c) (lit ''chat.db'')"

definition config_jwt_secret :: "config \<Rightarrow> rstr" where
  "config_jwt_secret c = path_join (cfg_data_dir c) (lit ''jwt.secret'')"

definition config_caps :: "config \<Rightarrow> caps" where
  "config_caps c = \<lparr>cap_accounts = cfg_max_accounts c, cap_rooms = cfg_max_rooms c\<rparr>"

text \<open>A whole number of seconds, computed in \<open>u64\<close>.\<close>

definition token_validity :: "config \<Rightarrow> u64" where
  "token_validity c = ucast (cfg_token_expiry_days c) * 24 * 60 * 60"

lemma token_validity_exact:
  "unat (token_validity c) = unat (cfg_token_expiry_days c) * 86400"
proof -
  let ?d = "ucast (cfg_token_expiry_days c) :: u64"
  have b: "unat (cfg_token_expiry_days c) < 2 ^ 32" by (rule order_less_le_trans [OF unsigned_less]) simp
  then have d: "unat ?d = unat (cfg_token_expiry_days c)"
    by (simp add: unsigned_ucast_eq take_bit_nat_eq_self_iff)
  from b have "unat ?d * 86400 < 2 ^ 64" by (simp add: d)
  moreover have "token_validity c = ?d * 86400" by (simp add: token_validity_def)
  ultimately show ?thesis by (simp add: unat_word_ariths d)
qed

end
