(* ===== verification/Data_Store.thy ===== *)
theory Data_Store
  imports Store_Read Server_Config
begin

text \<open>
  The \<open>DataStore\<close> trait (crates/chat-server/src/store.rs) as a record of operations, the contract
  the handlers rely on, and \<open>SqliteStore\<close> (store/sqlite.rs) as its provider: dispatch, and
  opening the database file.
\<close>

section \<open>The trait\<close>

record 's data_store =
  ds_insert_user :: "env \<Rightarrow> rstr \<Rightarrow> password_hash \<Rightarrow> 's \<Rightarrow> 's \<times> (store_error, registration) result"
  ds_password_hash :: "env \<Rightarrow> rstr \<Rightarrow> 's \<Rightarrow> (store_error, password_hash option) result"
  ds_create_room :: "env \<Rightarrow> rstr \<Rightarrow> 's \<Rightarrow> 's \<times> (store_error, room_creation) result"
  ds_list_rooms :: "env \<Rightarrow> 's \<Rightarrow> (store_error, room list) result"
  ds_room_exists :: "env \<Rightarrow> room_id \<Rightarrow> 's \<Rightarrow> (store_error, bool) result"
  ds_post_message ::
    "env \<Rightarrow> room_id \<Rightarrow> rstr \<Rightarrow> rstr \<Rightarrow> 's \<Rightarrow> 's \<times> (store_error, post_message_response) result"
  ds_messages_newest :: "env \<Rightarrow> room_id \<Rightarrow> u32 \<Rightarrow> 's \<Rightarrow> (store_error, message list) result"
  ds_messages_after :: "env \<Rightarrow> room_id \<Rightarrow> seq \<Rightarrow> u32 \<Rightarrow> 's \<Rightarrow> (store_error, message list) result"
  ds_messages_before :: "env \<Rightarrow> room_id \<Rightarrow> seq \<Rightarrow> u32 \<Rightarrow> 's \<Rightarrow> (store_error, message list) result"

text \<open>
  What a handler may assume of a store: accounts are found whatever the ASCII case and are never
  lost, a room's log grows only by what is posted to it, a call that reports a failure wrote
  nothing (creating a room aside, whose second statement may fail after the first), and pages are
  cut from the log.
\<close>

locale data_store_contract =
  fixes ds :: "'s data_store"
    and inv :: "'s \<Rightarrow> bool"
    and grows :: "'s \<Rightarrow> 's \<Rightarrow> bool"
    and account :: "'s \<Rightarrow> rstr \<Rightarrow> password_hash option"
    and known :: "'s \<Rightarrow> room_id \<Rightarrow> bool"
    and log :: "'s \<Rightarrow> room_id \<Rightarrow> message list"
  assumes grows_refl: "grows s s"
    and grows_trans: "grows s s1 \<Longrightarrow> grows s1 s2 \<Longrightarrow> grows s s2"
    and grows_inv: "inv s \<Longrightarrow> grows s s' \<Longrightarrow> inv s'"
    and account_grows: "inv s \<Longrightarrow> grows s s' \<Longrightarrow> account s n = Some h \<Longrightarrow> account s' n = Some h"
    and account_nocase: "nocase m n \<Longrightarrow> account s m = account s n"
    and known_grows: "inv s \<Longrightarrow> grows s s' \<Longrightarrow> known s room \<Longrightarrow> known s' room"
    and log_grows: "inv s \<Longrightarrow> grows s s' \<Longrightarrow> \<exists>more. log s' room = log s room @ more"
    and insert_user_law: "inv s \<Longrightarrow> env_ok env \<Longrightarrow> ds_insert_user ds env n h s = (s', r) \<Longrightarrow>
        grows s s' \<and> (r = Ok Created \<longrightarrow> account s n = None \<and> account s' n = Some h) \<and>
        (r \<noteq> Ok Created \<longrightarrow> s' = s)"
    and insert_user_taken_law: "inv s \<Longrightarrow> ds_insert_user ds env n h s = (s', Ok UsernameTakenReg) \<Longrightarrow>
        account s n \<noteq> None"
    and password_hash_law: "inv s \<Longrightarrow> ds_password_hash ds env n s = Ok p \<Longrightarrow> p = account s n"
    and create_room_law: "inv s \<Longrightarrow> env_ok env \<Longrightarrow> ds_create_room ds env n s = (s', q) \<Longrightarrow>
        grows s s' \<and> (\<forall>room. log s' room = log s room)"
    and room_exists_law: "inv s \<Longrightarrow> ds_room_exists ds env room s = Ok x \<Longrightarrow> x = known s room"
    and post_message_law: "inv s \<Longrightarrow> env_ok env \<Longrightarrow> ds_post_message ds env room u b s = (s', t) \<Longrightarrow>
        grows s s' \<and> (\<not> is_ok t \<longrightarrow> s' = s) \<and>
        (\<forall>w. t = Ok w \<longrightarrow> known s room \<and>
           log s' room = log s room @
             [\<lparr>msg_seq = pr_seq w, msg_username = u, msg_body = b, msg_posted_at = pr_posted_at w\<rparr>])"
    and newest_law: "inv s \<Longrightarrow> ds_messages_newest ds env room k s = Ok ms \<Longrightarrow>
        ms = last_n (unat k) (log s room)"
    and after_law: "inv s \<Longrightarrow> ds_messages_after ds env room c k s = Ok ms \<Longrightarrow>
        ms = take (unat k) (beyond c (log s room))"
    and before_law: "inv s \<Longrightarrow> ds_messages_before ds env room c k s = Ok ms \<Longrightarrow>
        ms = last_n (unat k) (filter (\<lambda>msg. msg_seq msg < c) (log s room))"

section \<open>SqliteStore\<close>

definition sqlite_store :: "caps \<Rightarrow> db data_store" where
  "sqlite_store c = \<lparr>
     ds_insert_user = (\<lambda>env username pw_hash d. insert_user env (cap_accounts c) username pw_hash d),
     ds_password_hash = stored_hash,
     ds_create_room = (\<lambda>env name d. create_room env (cap_rooms c) name d),
     ds_list_rooms = list_rooms,
     ds_room_exists = room_exists,
     ds_post_message = post_message,
     ds_messages_newest = messages_newest,
     ds_messages_after = messages_after,
     ds_messages_before = messages_before\<rparr>"

definition account_hash :: "db \<Rightarrow> rstr \<Rightarrow> password_hash option" where
  "account_hash d n = map_option (\<lambda>u. PasswordHash (u_pw_hash u)) (find_user n d)"

lemma insert_user_steps:
  assumes "db_ok d" and "env_ok env" and "insert_user env (cap_accounts c) n h d = (d', r)"
  shows "db_steps c d d'" "r = Ok Created \<longleftrightarrow> d' \<noteq> d"
    "r = Ok Created \<Longrightarrow> find_user n d = None \<and> account_hash d' n = Some h"
proof -
  obtain i where i: "insert_user_insert env (cap_accounts c) n h d = (d', i)"
    and r: "r = bind_res i (\<lambda>i. insert_user_classify env n i d')"
    using assms(3) by (auto simp: insert_user_def split: prod.splits)
  show "db_steps c d d'" using assms(2) i by (blast intro: db_step.user)
  have cls: "insert_user_classify env n b d' = Ok Created \<longleftrightarrow> b" for b
    by (auto simp: insert_user_classify_def res_simps split: if_splits)
  consider (no) "d' = d" "i \<noteq> Ok True"
    | (yes) at where "i = Ok True" "find_user n d = None"
      "d' = d\<lparr>users := users d @ [\<lparr>u_username = n, u_pw_hash = phc h, u_created_at = at\<rparr>]\<rparr>"
    using insert_user_insert_cases [OF i] by blast
  then have "(r = Ok Created \<longleftrightarrow> d' \<noteq> d) \<and>
    (r = Ok Created \<longrightarrow> find_user n d = None \<and> account_hash d' n = Some h)"
  proof cases
    case no
    then have "r \<noteq> Ok Created" using r cls by (auto simp: res_simps)
    with no show ?thesis by auto
  next
    case yes
    have "d' \<noteq> d" using yes(3) by (metis append_self_conv db.select_convs(1) db.surjective db.update_convs(1) not_Cons_self2)
    moreover have "r = Ok Created" using r yes(1) cls by simp
    moreover have "find (\<lambda>u. nocase (u_username u) n) (users d) = None"
      using yes(2) by (simp add: find_user_def)
    ultimately show ?thesis
      using yes by (auto simp: account_hash_def find_user_def find_append)
  qed
  then show "r = Ok Created \<longleftrightarrow> d' \<noteq> d"
    "r = Ok Created \<Longrightarrow> find_user n d = None \<and> account_hash d' n = Some h" by blast+
qed

lemma create_room_steps:
  assumes "env_ok env" and "create_room env (cap_rooms c) n d = (d', r)"
  shows "db_steps c d d'" "messages d' = messages d"
proof -
  obtain i where i: "create_room_insert env (cap_rooms c) n d = (d', i)"
    using assms(2) by (auto simp: create_room_def split: prod.splits)
  show "db_steps c d d'" using assms(1) i by (blast intro: db_step.room)
  show "messages d' = messages d" using create_room_insert_cases [OF i] by auto
qed

lemma post_message_steps:
  assumes "db_ok d" and "env_ok env" and "post_message env room u b d = (d', r)"
  shows "db_steps c d d'" "\<not> is_ok r \<Longrightarrow> d' = d"
    "r = Ok p \<Longrightarrow> room_known d room \<and> room_log d' room = room_log d room @
       [\<lparr>msg_seq = pr_seq p, msg_username = u, msg_body = b, msg_posted_at = pr_posted_at p\<rparr>]"
proof -
  show "db_steps c d d'" using assms(2,3) by (blast intro: db_step.message)
  consider (no) "d' = d" "\<not> is_ok r"
    | (yes) at s where "timestamp_column (clock env) = Ok at" "rowid env (map m_seq (messages d)) = Some s"
        "room_known d room"
        "r = bind_res (col_seq s) (\<lambda>q. bind_res (col_millis at) (\<lambda>t. Ok \<lparr>pr_seq = q, pr_posted_at = t\<rparr>))"
        "d' = d\<lparr>messages := messages d @ [\<lparr>m_seq = s, m_room_id = uint (room_id_get room), m_username = u,
              m_body = b, m_posted_at = at\<rparr>]\<rparr>"
    using post_message_cases [OF assms(3)] unfolding room_known_def by blast
  then have "(\<not> is_ok r \<longrightarrow> d' = d) \<and> (r = Ok p \<longrightarrow> room_known d room \<and> room_log d' room = room_log d room @
       [\<lparr>msg_seq = pr_seq p, msg_username = u, msg_body = b, msg_posted_at = pr_posted_at p\<rparr>])"
  proof cases
    case yes
    have "0 \<le> s" using assms(2) yes(2) unfolding env_ok_def by (meson order_trans zero_le_one)
    then have "r = Ok \<lparr>pr_seq = Seq (word_of_int s), pr_posted_at = UnixMillis (word_of_int at)\<rparr>"
      using yes(4) timestamp_column_range [OF yes(1)] by (simp add: col_seq_def col_millis_def from_column_def)
    then show ?thesis using yes(3,5) by (auto simp: room_log_def message_of_def)
  qed (auto simp: res_simps)
  then show "\<not> is_ok r \<Longrightarrow> d' = d"
    "r = Ok p \<Longrightarrow> room_known d room \<and> room_log d' room = room_log d room @
       [\<lparr>msg_seq = pr_seq p, msg_username = u, msg_body = b, msg_posted_at = pr_posted_at p\<rparr>]"
    by blast+
qed

lemma account_hash_nocase: "nocase m n \<Longrightarrow> account_hash d m = account_hash d n"
  by (simp add: account_hash_def find_user_def eq_ignore_ascii_case_def)

lemma account_hash_extends: "extends d d' \<Longrightarrow> account_hash d n = Some h \<Longrightarrow> account_hash d' n = Some h"
  by (auto simp: account_hash_def dest: find_user_extends)

lemma insert_user_taken:
  assumes "insert_user env cap n h d = (d', Ok UsernameTakenReg)"
  shows "account_hash d n \<noteq> None"
proof -
  obtain i where i: "insert_user_insert env cap n h d = (d', i)"
    and r: "Ok UsernameTakenReg = bind_res i (\<lambda>i. insert_user_classify env n i d')"
    using assms by (auto simp: insert_user_def split: prod.splits)
  have "find_user n d' \<noteq> None \<and> i \<noteq> Ok True"
    using r [symmetric] by (auto simp: insert_user_classify_def res_simps split: if_splits)
  then show ?thesis using insert_user_insert_cases [OF i] by (auto simp: account_hash_def)
qed

interpretation sqlite: data_store_contract "sqlite_store c" db_ok "db_steps c" account_hash room_known room_log
  for c
proof (unfold_locales, goal_cases)
  case (4 s s' n h)
  then show ?case using account_hash_extends db_steps_ok by blast
next
  case (5 m n s)
  then show ?case by (rule account_hash_nocase)
next
  case (6 s s' room)
  then show ?case using room_known_extends db_steps_ok by blast
next
  case (7 s s' room)
  then show ?case using room_log_extends db_steps_ok by blast
next
  case (8 s env n h s' r)
  then have "insert_user env (cap_accounts c) n h s = (s', r)" by (simp add: sqlite_store_def)
  note steps = insert_user_steps [OF 8(1,2) this]
  then show ?case by (auto simp: account_hash_def)
next
  case (9 s env n h s')
  then show ?case using insert_user_taken by (simp add: sqlite_store_def)
next
  case (11 s env n s' q)
  then have "create_room env (cap_rooms c) n s = (s', q)" by (simp add: sqlite_store_def)
  from create_room_steps [OF 11(2) this] show ?case by (simp add: room_log_def)
next
  case (13 s env room u b s' t)
  then have "post_message env room u b s = (s', t)" by (simp add: sqlite_store_def)
  from post_message_steps [OF 13(1,2) this] show ?case by blast
qed (auto simp: sqlite_store_def stored_hash_def account_hash_def res_simps room_exists_eq
       messages_newest_eq messages_after_eq messages_before_eq dest: db_steps_ok
       split: if_splits option.splits)

section \<open>Opening the database\<close>

text \<open>A file is a SQLite database, stamped with its \<open>user_version\<close>, or something else.\<close>

datatype disk_file = Database int db | OtherFile

type_synonym disk = "rstr \<rightharpoonup> disk_file"

definition SCHEMA_VERSION :: int where
  "SCHEMA_VERSION = 1"

text \<open>What fails: creating the directory, removing a file, or the n-th step on the database.\<close>

record open_env =
  dir_fault :: "rstr \<Rightarrow> rstr option"
  remove_fault :: "rstr \<Rightarrow> rstr option"
  db_fault :: "nat \<Rightarrow> rstr option"

text \<open>\<open>Path::parent\<close> of a file path.\<close>

definition path_parent :: "rstr \<Rightarrow> rstr" where
  "path_parent p = (case rsplit_once (\<lambda>c. c = 47) p of
     None \<Rightarrow> []
   | Some (d, _) \<Rightarrow> if d = [] then lit ''/'' else d)"

text \<open>Opening a pool: the file must be a database, and is created when asked for.\<close>

definition connect :: "open_env \<Rightarrow> nat \<Rightarrow> rstr \<Rightarrow> bool \<Rightarrow> disk \<Rightarrow> disk \<times> (store_error, int \<times> db) result" where
  "connect oe n path create fs =
     (case db_fault oe n of
        Some e \<Rightarrow> (fs, Err (DbError e))
      | None \<Rightarrow>
          (case fs path of
             Some (Database v d) \<Rightarrow> (fs, Ok (v, d))
           | Some OtherFile \<Rightarrow> (fs, Err (DbError (lit ''file is not a database'')))
           | None \<Rightarrow>
               if create then (fs(path \<mapsto> Database 0 empty_db), Ok (0, empty_db))
               else (fs, Err (DbError (lit ''unable to open database file'')))))"

definition stamped_version :: "open_env \<Rightarrow> rstr \<Rightarrow> disk \<Rightarrow> (store_error, int option) result" where
  "stamped_version oe path fs =
     (if fs path = None then Ok None
      else bind_res (snd (connect oe 0 path False fs)) (\<lambda>(version, _).
        case db_fault oe 1 of
          Some e \<Rightarrow> Err (DbError e)
        | None \<Rightarrow> Ok (if version \<noteq> 0 then Some version else None)))"

fun remove_files :: "open_env \<Rightarrow> rstr list \<Rightarrow> disk \<Rightarrow> disk \<times> (store_error, unit) result" where
  "remove_files oe [] fs = (fs, Ok ())"
| "remove_files oe (p # ps) fs =
     (case remove_fault oe p of
        Some e \<Rightarrow> (fs, Err (FileError p e))
      | None \<Rightarrow> remove_files oe ps (fs(p := None)))"

definition remove_database :: "open_env \<Rightarrow> rstr \<Rightarrow> disk \<Rightarrow> disk \<times> (store_error, unit) result" where
  "remove_database oe path fs =
     remove_files oe (map (\<lambda>suffix. path @ suffix) [[], lit ''-wal'', lit ''-shm'']) fs"

text \<open>
  The second half of \<open>SqliteStore::new\<close>: connect, apply the schema (which leaves existing tables
  alone), stamp the version, and seed the lobby past the room cap.
\<close>

definition sqlite_setup :: "open_env \<Rightarrow> env \<Rightarrow> rstr \<Rightarrow> disk \<Rightarrow> disk \<times> (store_error, unit) result" where
  "sqlite_setup oe env path fs =
     (case connect oe 2 path True fs of
        (fs1, Err e) \<Rightarrow> (fs1, Err e)
      | (fs1, Panic p) \<Rightarrow> (fs1, Panic p)
      | (fs1, Ok (v, d)) \<Rightarrow>
          (case db_fault oe 3 of
             Some e \<Rightarrow> (fs1, Err (DbError e))
           | None \<Rightarrow>
               (case db_fault oe 4 of
                  Some e \<Rightarrow> (fs1, Err (DbError e))
                | None \<Rightarrow>
                    (let (d', seeded) = create_room env (2 ^ 32 - 1) LOBBY d
                     in (fs1(path \<mapsto> Database SCHEMA_VERSION d'), map_res (\<lambda>_. ()) seeded)))))"

definition sqlite_new :: "open_env \<Rightarrow> env \<Rightarrow> rstr \<Rightarrow> disk \<Rightarrow> disk \<times> (store_error, unit) result" where
  "sqlite_new oe env path fs =
     (case (if path_parent path = [] then None else dir_fault oe (path_parent path)) of
        Some e \<Rightarrow> (fs, Err (FileError (path_parent path) e))
      | None \<Rightarrow>
          (case stamped_version oe path fs of
             Err e \<Rightarrow> (fs, Err e)
           | Panic p \<Rightarrow> (fs, Panic p)
           | Ok version \<Rightarrow>
               (case version of
                  None \<Rightarrow> sqlite_setup oe env path fs
                | Some v \<Rightarrow>
                    if v \<noteq> SCHEMA_VERSION then
                      (case remove_database oe path fs of
                         (fs', Ok _) \<Rightarrow> sqlite_setup oe env path fs'
                       | (fs', Err e) \<Rightarrow> (fs', Err e)
                       | (fs', Panic p) \<Rightarrow> (fs', Panic p))
                    else sqlite_setup oe env path fs)))"

end
