(* ===== verification/Store_Properties.thy ===== *)
theory Store_Properties
  imports Data_Store
begin

text \<open>
  What the store promises, stated over runs: every interleaving of its statements keeps the
  database well-formed and within its caps, the operations that take two statements answer rightly
  whatever other connections write in between, pages are cut from a room's log, and opening the
  file keeps or discards it as its version says.
\<close>

section \<open>Runs\<close>

lemma int_le_uint: "int k \<le> uint w \<longleftrightarrow> k \<le> unat w"
  unfolding uint_nat by (rule of_nat_le_iff)

lemma int_less_uint: "int k < uint w \<longleftrightarrow> k < unat w"
  unfolding uint_nat by (rule of_nat_less_iff)

text \<open>C8: Whatever sequence of writes the connections run, a well-formed database stays
  well-formed (names unique up to ASCII case, keys dense and increasing, every message in a room
  that exists), no row is lost or reordered, and neither table grows past its cap.\<close>

theorem store_runs_safe:
  assumes "db_ok d" and "db_steps c d d'"
    and "length (users d) \<le> unat (cap_accounts c)" and "length (rooms d) \<le> unat (cap_rooms c)"
  shows "db_ok d' \<and> extends d d' \<and>
    length (users d') \<le> unat (cap_accounts c) \<and> length (rooms d') \<le> unat (cap_rooms c)"
proof -
  have "int (length (users d)) \<le> uint (cap_accounts c)" "int (length (rooms d)) \<le> uint (cap_rooms c)"
    using assms(3,4) by (simp_all only: int_le_uint)
  then have "int (length (users d')) \<le> uint (cap_accounts c)" "int (length (rooms d')) \<le> uint (cap_rooms c)"
    using db_steps_caps [OF assms(2)] by linarith+
  then show ?thesis using db_steps_ok [OF assms(2,1)] by (simp only: int_le_uint)
qed

text \<open>A small run from the empty database, for the concrete instances below.\<close>

definition demo_caps :: caps where
  "demo_caps = \<lparr>cap_accounts = 2, cap_rooms = 2\<rparr>"

definition demo_hash :: password_hash where
  "demo_hash = PasswordHash (lit ''h'')"

definition demo_db :: db where
  "demo_db =
     \<lparr>users = [\<lparr>u_username = lit ''Ann'', u_pw_hash = lit ''h'', u_created_at = 5\<rparr>],
      rooms = [\<lparr>r_id = 1, r_name = lit ''lobby'', r_created_at = 1\<rparr>],
      messages = [\<lparr>m_seq = 1, m_room_id = 1, m_username = lit ''Ann'', m_body = lit ''hi'', m_posted_at = 6\<rparr>,
                  \<lparr>m_seq = 2, m_room_id = 1, m_username = lit ''Ann'', m_body = lit ''yo'', m_posted_at = 7\<rparr>]\<rparr>"

lemma demo_db_ok: "db_ok demo_db"
  by (simp add: db_ok_def demo_db_def folded_def ids_dense_def message_row_ok_def i64_max_eq)

lemma demo_find:
  "find_user (lit ''ann'') demo_db = Some \<lparr>u_username = lit ''Ann'', u_pw_hash = lit ''h'', u_created_at = 5\<rparr>"
  "find_user (lit ''bob'') demo_db = None"
  by (simp_all add: find_user_def demo_db_def eq_ignore_ascii_case_def to_ascii_lower_def)

lemma demo_insert:
  "insert_user_insert (calm_env 5000000) (cap_accounts demo_caps) (lit ''bob'') demo_hash demo_db =
     (demo_db\<lparr>users := users demo_db @ [\<lparr>u_username = lit ''bob'', u_pw_hash = lit ''h'', u_created_at = 5\<rparr>]\<rparr>, Ok True)"
  by (simp add: insert_user_insert_def timestamp_column_Ok i64_max_eq calm_env_def sql_insert_user_def
      demo_find [simplified] demo_hash_def) (simp add: demo_db_def demo_caps_def)

corollary store_runs_safe_witness:
  "db_ok (fst (insert_user_insert (calm_env 5000000) (cap_accounts demo_caps) (lit ''bob'') demo_hash demo_db))"
proof -
  let ?d = "fst (insert_user_insert (calm_env 5000000) (cap_accounts demo_caps) (lit ''bob'') demo_hash demo_db)"
  have "db_step demo_caps demo_db ?d"
    by (rule db_step.user [OF calm_env_ok]) (rule prod.collapse [symmetric])
  then have "db_steps demo_caps demo_db ?d" by blast
  then show ?thesis
    using store_runs_safe [OF demo_db_ok, of demo_caps ?d] by (simp add: demo_caps_def demo_db_def)
qed

section \<open>Operations of two statements, under interference\<close>

text \<open>C18: Registering is classified rightly even when other connections write between the insert
  and the lookup that explains a refusal: created exactly when the row was written and the name
  was free; taken only when the name is held; over the cap only when the table was full and the
  name is still free. Nothing else is reported but a database error.\<close>

theorem insert_user_linearizable:
  assumes "db_ok d" and "env_ok env"
    and "insert_user_insert env (cap_accounts c) n h d = (d1, Ok i)" and "db_steps c d1 d2"
  shows "case insert_user_classify env n i d2 of
      Ok Created \<Rightarrow> account_hash d n = None \<and> account_hash d2 n = Some h
    | Ok UsernameTakenReg \<Rightarrow> d1 = d \<and> account_hash d2 n \<noteq> None
    | Err (CapExceededErr w) \<Rightarrow> d1 = d \<and> w = ''account'' \<and> account_hash d2 n = None \<and>
        unat (cap_accounts c) \<le> length (users d)
    | Err e \<Rightarrow> d1 = d \<and> (\<exists>m. e = DbError m)
    | Panic p \<Rightarrow> False"
proof -
  have d1: "db_ok d1" using insert_user_insert_ok [OF assms(3,1)] by blast
  have e12: "extends d1 d2" using db_steps_ok [OF assms(4) d1] by blast
  consider (new) at where "i" "find_user n d = None"
      "d1 = d\<lparr>users := users d @ [\<lparr>u_username = n, u_pw_hash = phc h, u_created_at = at\<rparr>]\<rparr>"
    | (old) "\<not> i" "d1 = d"
    using insert_user_insert_cases [OF assms(3)] by auto
  then show ?thesis
  proof cases
    case new
    have "account_hash d1 n = Some h"
      using new by (auto simp: account_hash_def find_user_def find_append)
    then have "account_hash d2 n = Some h" by (rule account_hash_extends [OF e12])
    then show ?thesis using new by (simp add: insert_user_classify_def account_hash_def)
  next
    case old
    have full: "unat (cap_accounts c) \<le> length (users d)" if free: "find_user n d2 = None"
    proof -
      have "find_user n d = None" using find_user_extends [OF e12, of n] free old(2) by (cases "find_user n d") auto
      then have "\<not> int (length (users d)) < uint (cap_accounts c)"
        using assms(3) old by (auto simp: insert_user_insert_def sql_insert_user_def
            split: result.splits option.splits if_splits)
      then show ?thesis by (simp only: int_less_uint not_less)
    qed
    show ?thesis
    proof (cases "fault env 1")
      case None
      then show ?thesis
        using old full by (cases "find_user n d2")
          (simp_all add: insert_user_classify_def run_stmt_def account_hash_def)
    qed (use old in \<open>simp add: insert_user_classify_def run_stmt_def\<close>)
  qed
qed

corollary insert_user_linearizable_witness:
  "account_hash (fst (insert_user_insert (calm_env 5000000) (cap_accounts demo_caps) (lit ''bob'') demo_hash demo_db))
     (lit ''bob'') = Some demo_hash"
  using insert_user_linearizable [OF demo_db_ok calm_env_ok demo_insert rtranclp.rtrancl_refl]
  unfolding demo_insert fst_conv insert_user_classify_def if_True result.case registration.case
  by (rule conjunct2)

lemma create_room_insert_full:
  assumes "create_room_insert env cap n d = (d, Ok False)" and "find_room n d = None"
  shows "unat cap \<le> length (rooms d)"
proof -
  have "\<not> int (length (rooms d)) < uint cap"
    using assms by (auto simp: create_room_insert_def sql_insert_room_def
        split: result.splits option.splits if_splits prod.splits)
  then show ?thesis by (simp only: int_less_uint not_less)
qed

lemma find_room_mem: "find_room n d = Some r \<Longrightarrow> r \<in> set (rooms d) \<and> nocase (r_name r) n"
  by (auto simp: find_room_def find_Some_iff)

text \<open>C19: Creating a room is idempotent on the name, whatever other connections write between its
  two statements: a new room has exactly the name asked for and the name was free; an existing
  room is one that already holds the name up to ASCII case, and nothing was written; a cap refusal
  means the table was full and still holds no such room. In every answer the room is one the
  database holds.\<close>

theorem create_room_linearizable:
  assumes "db_ok d" and "env_ok env"
    and "create_room_insert env (cap_rooms c) n d = (d1, Ok i)" and "db_steps c d1 d2"
  shows "case create_room_fetch env n i d2 of
      Ok (RoomCreated q) \<Rightarrow> find_room n d = None \<and> rm_name q = n \<and> room_known d2 (rm_id q)
    | Ok (RoomExisting q) \<Rightarrow> d1 = d \<and> nocase (rm_name q) n \<and> room_known d2 (rm_id q)
    | Err (CapExceededErr w) \<Rightarrow> d1 = d \<and> w = ''room'' \<and> find_room n d2 = None \<and>
        unat (cap_rooms c) \<le> length (rooms d)
    | Err e \<Rightarrow> (\<exists>m. e = DbError m)
    | Panic p \<Rightarrow> False"
proof (cases "fault env 1")
  case None
  have d1: "db_ok d1" using create_room_insert_ok [OF assms(3,1,2)] by blast
  have e12: "extends d1 d2" and d2: "db_ok d2" using db_steps_ok [OF assms(4) d1] by blast+
  have known: "room_known d2 (rm_id (room_view d2 r))" if "r \<in> set (rooms d2)" for r
    using that room_row_range [OF d2 that]
    by (simp add: room_known_def room_view_def uint_word_of_int_64 i64_max_eq)
  consider (new) at k where "i" "find_room n d = None"
      "d1 = d\<lparr>rooms := rooms d @ [\<lparr>r_id = k, r_name = n, r_created_at = at\<rparr>]\<rparr>"
    | (old) "\<not> i" "d1 = d"
    using create_room_insert_cases [OF assms(3)] by auto
  then show ?thesis
  proof cases
    case new
    let ?r = "\<lparr>r_id = k, r_name = n, r_created_at = at\<rparr>"
    have "find_room n d1 = Some ?r"
      using new by (auto simp: find_room_def find_append)
    then have f: "find_room n d2 = Some ?r" by (rule find_room_extends [OF e12])
    then have "create_room_fetch env n i d2 = Ok (RoomCreated (room_view d2 ?r))"
      using new(1) None find_room_mem [OF f] room_of_row_Ok [OF d2]
      by (simp add: create_room_fetch_def run_stmt_def)
    then show ?thesis using new find_room_mem [OF f] known [of ?r] by (simp add: room_view_def)
  next
    case old
    show ?thesis
    proof (cases "find_room n d2")
      case free: None
      then have "find_room n d = None" using find_room_extends [OF e12, of n] old(2) by (cases "find_room n d") auto
      then have "unat (cap_rooms c) \<le> length (rooms d)"
        using create_room_insert_full [of env "cap_rooms c" n d] assms(3) old by simp
      then show ?thesis using old free None by (simp add: create_room_fetch_def run_stmt_def)
    next
      case (Some r)
      then show ?thesis
        using old None find_room_mem [OF Some] room_of_row_Ok [OF d2] known
        by (simp add: create_room_fetch_def run_stmt_def) (simp add: room_view_def)
    qed
  qed
qed (simp add: create_room_fetch_def run_stmt_def)

lemma demo_room:
  "create_room_insert (calm_env 5000000) (cap_rooms demo_caps) (lit ''LOBBY'') demo_db = (demo_db, Ok False)"
  by (simp add: create_room_insert_def timestamp_column_Ok i64_max_eq calm_env_def sql_insert_room_def
      demo_db_def demo_caps_def find_room_def eq_ignore_ascii_case_def to_ascii_lower_def)

lemma demo_room_fetch:
  "\<exists>q. create_room_fetch (calm_env 5000000) (lit ''LOBBY'') False demo_db = Ok (RoomExisting q)"
proof -
  have "find_room (lit ''LOBBY'') demo_db = Some \<lparr>r_id = 1, r_name = lit ''lobby'', r_created_at = 1\<rparr>"
    by (simp add: demo_db_def find_room_def eq_ignore_ascii_case_def to_ascii_lower_def)
  then show ?thesis using room_of_row_Ok [OF demo_db_ok] find_room_mem
    by (simp add: create_room_fetch_def run_stmt_def calm_env_def)
qed

corollary create_room_linearizable_witness:
  "\<exists>q. create_room_fetch (calm_env 5000000) (lit ''LOBBY'') False demo_db = Ok (RoomExisting q) \<and>
     nocase (rm_name q) (lit ''LOBBY'')"
proof -
  obtain q where "create_room_fetch (calm_env 5000000) (lit ''LOBBY'') False demo_db = Ok (RoomExisting q)"
    using demo_room_fetch by blast
  then show ?thesis
    using create_room_linearizable [OF demo_db_ok calm_env_ok demo_room rtranclp.rtrancl_refl] by simp
qed

section \<open>Messages\<close>

lemma post_message_NotFound:
  "post_message env room u b d = (d', Err (NotFound w)) \<Longrightarrow> \<not> room_known d room"
  by (auto simp: post_message_def sql_insert_message_def room_known_def to_column_def timestamp_column_def now_def
      Let_def col_seq_def col_millis_def from_column_def split: result.splits option.splits if_splits prod.splits)

lemma post_message_accepts:
  assumes "db_ok d" and "env_ok env" and "room_known d room" and "fault env 0 = None"
    and "0 \<le> clock env" and "clock env div 1000000 \<le> i64_max" and "int (length (messages d)) < i64_max"
  shows "is_ok (snd (post_message env room u b d))"
proof -
  have "rowid env (map m_seq (messages d)) = Some (int (length (messages d)) + 1)"
    using rowid_dense_next [OF assms(2), of "map m_seq (messages d)"] assms(1,7) by (simp add: db_ok_def)
  moreover have "to_column ''room id'' (room_id_get room) = Ok (uint (room_id_get room))"
    using room_known_bound [OF assms(1,3)] by (simp add: to_column_def)
  ultimately show ?thesis
    using assms(3,4,5) timestamp_column_Ok [OF assms(5,6)]
    by (simp add: post_message_def sql_insert_message_def room_known_def col_seq_def col_millis_def from_column_def
        pos_imp_zdiv_nonneg_iff)
qed

lemma post_message_appends:
  assumes "db_ok d" and "env_ok env" and "post_message env room u b d = (d', Ok p)"
  shows "users d' = users d" "rooms d' = rooms d"
    "r \<noteq> room \<Longrightarrow> room_log d' r = room_log d r"
    "m \<in> set (room_log d r) \<Longrightarrow> msg_seq m < pr_seq p"
proof -
  have dense: "ids_dense (map m_seq (messages d))" using assms(1) by (simp add: db_ok_def)
  obtain at s where s: "rowid env (map m_seq (messages d)) = Some s"
    and r: "Ok p = bind_res (col_seq s) (\<lambda>q. bind_res (col_millis at) (\<lambda>t. Ok \<lparr>pr_seq = q, pr_posted_at = t\<rparr>))"
    and d': "d' = d\<lparr>messages := messages d @ [\<lparr>m_seq = s, m_room_id = uint (room_id_get room), m_username = u,
              m_body = b, m_posted_at = at\<rparr>]\<rparr>"
    using post_message_cases [OF assms(3)] by auto
  have len: "s = int (length (messages d)) + 1 \<and> int (length (messages d)) < i64_max"
    using rowid_dense [OF assms(2) dense s] by simp
  have p: "pr_seq p = Seq (word_of_int s)"
    using r [symmetric] len by (auto simp: res_simps col_seq_def from_column_def)
  show "users d' = users d" "rooms d' = rooms d" using d' by simp_all
  show "r \<noteq> room \<Longrightarrow> room_log d' r = room_log d r"
    using d' by (cases r; cases room) (auto simp: room_log_def dest: iffD2 [OF word_uint_eq_iff])
  assume "m \<in> set (room_log d r)"
  then obtain row where row: "row \<in> set (messages d)" "m = message_of row" by (auto simp: room_log_def)
  have "m_seq row \<in> set (map m_seq (messages d))" using row(1) by simp
  then have "m_seq row < s" "1 \<le> m_seq row" using ids_dense_set [OF dense] len by auto
  moreover have "s \<le> i64_max" using len by simp
  ultimately have "uint (word_of_int (m_seq row) :: u64) < uint (word_of_int s :: u64)"
    by (simp add: uint_word_of_int_64 i64_max_eq)
  then show "msg_seq m < pr_seq p" using row(2) by (simp add: p message_of_def word_less_def)
qed

text \<open>Posting appends exactly one message to exactly one room's log, under the name and body
  given, with a cursor greater than that of every message in any room; any failure writes nothing,
  a missing room is reported as not found and only then, and a known room with a running clock, no
  failing statement and keys left always accepts.\<close>

lemma post_message_spec:
  assumes "db_ok d" and "env_ok env"
  shows "(case post_message env room u b d of
      (d', Ok p) \<Rightarrow> room_known d room \<and> users d' = users d \<and> rooms d' = rooms d \<and>
        room_log d' room = room_log d room @
          [\<lparr>msg_seq = pr_seq p, msg_username = u, msg_body = b, msg_posted_at = pr_posted_at p\<rparr>] \<and>
        (\<forall>r. r \<noteq> room \<longrightarrow> room_log d' r = room_log d r) \<and>
        (\<forall>r. list_all (\<lambda>m. msg_seq m < pr_seq p) (room_log d r))
    | (d', Err e) \<Rightarrow> d' = d \<and> ((\<exists>w. e = NotFound w) \<longrightarrow> \<not> room_known d room)
    | (d', Panic _) \<Rightarrow> d' = d) \<and>
    (room_known d room \<longrightarrow> fault env 0 = None \<longrightarrow> 0 \<le> clock env \<longrightarrow> clock env div 1000000 \<le> i64_max \<longrightarrow>
      int (length (messages d)) < i64_max \<longrightarrow> is_ok (snd (post_message env room u b d)))"
proof -
  obtain d' r where run: "post_message env room u b d = (d', r)" by fastforce
  have "case r of Ok p \<Rightarrow> room_known d room \<and> users d' = users d \<and> rooms d' = rooms d \<and>
        room_log d' room = room_log d room @
          [\<lparr>msg_seq = pr_seq p, msg_username = u, msg_body = b, msg_posted_at = pr_posted_at p\<rparr>] \<and>
        (\<forall>r. r \<noteq> room \<longrightarrow> room_log d' r = room_log d r) \<and>
        (\<forall>r. list_all (\<lambda>m. msg_seq m < pr_seq p) (room_log d r))
    | Err e \<Rightarrow> d' = d \<and> ((\<exists>w. e = NotFound w) \<longrightarrow> \<not> room_known d room)
    | Panic _ \<Rightarrow> d' = d"
  proof (cases r)
    case (Ok p)
    note run' = run [unfolded Ok]
    show ?thesis
      using Ok post_message_steps(3) [OF assms run'] post_message_appends [OF assms run']
      by (simp add: list_all_iff)
  next
    case (Err e)
    then show ?thesis using post_message_steps(2) [OF assms run] run post_message_NotFound by auto
  qed (use post_message_steps(2) [OF assms run] in simp)
  then show ?thesis using run post_message_accepts [OF assms, of room u b] by simp
qed

corollary post_message_spec_witness:
  "is_ok (snd (post_message (calm_env 5000000) (RoomId 1) (lit ''Ann'') (lit ''yo'') demo_db))"
  using post_message_spec [OF demo_db_ok calm_env_ok, of "RoomId 1" "lit ''Ann''" "lit ''yo''" 5000000]
  by (simp add: room_known_def demo_db_def calm_env_def i64_max_eq)

text \<open>C22: Every page a read returns is cut from the room's log, oldest message first: the newest
  \<open>n\<close> messages, the first \<open>n\<close> past a cursor, or the last \<open>n\<close> before one. It never holds more
  than \<open>n\<close>, and never skips a message between the cursor and its far end.\<close>

theorem pages_exact:
  assumes "db_ok d"
  shows "(\<forall>ms. messages_newest env r n d = Ok ms \<longrightarrow>
        ms = last_n (unat n) (room_log d r) \<and> length ms \<le> unat n) \<and>
    (\<forall>ms. messages_after env r c n d = Ok ms \<longrightarrow>
        ms = take (unat n) (filter (\<lambda>m. c < msg_seq m) (room_log d r)) \<and> length ms \<le> unat n) \<and>
    (\<forall>ms. messages_before env r c n d = Ok ms \<longrightarrow>
        ms = last_n (unat n) (filter (\<lambda>m. msg_seq m < c) (room_log d r)) \<and> length ms \<le> unat n)"
  using messages_newest_eq [OF assms] messages_after_eq [OF assms] messages_before_eq [OF assms]
  by (auto simp: beyond_def last_n_def split: if_splits option.splits)

corollary pages_exact_witness:
  "messages_after (calm_env 0) (RoomId 1) (Seq 1) 5 demo_db =
     Ok [\<lparr>msg_seq = Seq 2, msg_username = lit ''Ann'', msg_body = lit ''yo'', msg_posted_at = UnixMillis 7\<rparr>]"
proof -
  have "is_ok (messages_after (calm_env 0) (RoomId 1) (Seq 1) 5 demo_db)"
    using messages_after_eq [OF demo_db_ok] by (simp add: i64_max_eq calm_env_def)
  then obtain ms where ms: "messages_after (calm_env 0) (RoomId 1) (Seq 1) 5 demo_db = Ok ms"
    by (auto simp: is_ok_iff)
  then have "ms = take (unat (5 :: u32)) (filter (\<lambda>m. Seq 1 < msg_seq m) (room_log demo_db (RoomId 1)))"
    using pages_exact [OF demo_db_ok] by blast
  then show ?thesis using ms by (simp add: room_log_def demo_db_def message_of_def)
qed

section \<open>Opening the file\<close>

text \<open>What a database file holds once opened: its rows under version 0 or the current one, nothing otherwise.\<close>

definition kept_db :: "disk \<Rightarrow> rstr \<Rightarrow> db" where
  "kept_db fs path = (case fs path of
     Some (Database v d) \<Rightarrow> if v = 0 \<or> v = SCHEMA_VERSION then d else empty_db
   | _ \<Rightarrow> empty_db)"

lemma create_room_Ok_found: "create_room env cap n d = (d', Ok q) \<Longrightarrow> find_room n d' \<noteq> None"
  by (auto simp: create_room_def create_room_fetch_def res_simps split: prod.splits option.splits)

lemma create_room_keeps:
  assumes "create_room env cap n d = (d', r)" and "db_ok d" and "env_ok env"
  shows "db_ok d'" "extends d d'" "users d' = users d" "messages d' = messages d"
proof -
  obtain i where i: "create_room_insert env cap n d = (d', i)"
    using assms(1) by (auto simp: create_room_def split: prod.splits)
  show "db_ok d'" "extends d d'" using create_room_insert_ok [OF i assms(2,3)] .
  show "users d' = users d" "messages d' = messages d" using create_room_insert_cases [OF i] by auto
qed

lemma sqlite_setup_other: "sqlite_setup oe env path fs = (fs', r) \<Longrightarrow> p \<noteq> path \<Longrightarrow> fs' p = fs p"
  by (auto simp: sqlite_setup_def connect_def Let_def
      split: option.splits disk_file.splits if_splits prod.splits result.splits)

lemma sqlite_setup_file:
  assumes "sqlite_setup oe env path fs = (fs', r)" and "fs path \<noteq> Some OtherFile" and "env_ok env"
    and "base = (case fs path of Some (Database v d) \<Rightarrow> d | _ \<Rightarrow> empty_db)" and "db_ok base"
  shows "r = Ok () \<Longrightarrow> \<exists>d'. fs' path = Some (Database SCHEMA_VERSION d') \<and> db_ok d' \<and>
      find_room LOBBY d' \<noteq> None \<and> extends base d' \<and> users d' = users base \<and> messages d' = messages base"
    "fs path \<noteq> None \<Longrightarrow> \<exists>v d'. fs' path = Some (Database v d') \<and> extends base d'"
proof -
  obtain d' q where seed: "create_room env (2 ^ 32 - 1) LOBBY base = (d', q)" by fastforce
  note keeps = create_room_keeps [OF seed assms(5,3)]
  have ends: "(case db_fault oe 2 of Some e \<Rightarrow> fs' = fs \<and> r \<noteq> Ok ()
     | None \<Rightarrow> (fs' path = Some (Database (case fs path of Some (Database v d) \<Rightarrow> v | _ \<Rightarrow> 0) base) \<and> r \<noteq> Ok ())
         \<or> (fs' path = Some (Database SCHEMA_VERSION d') \<and> r = map_res (\<lambda>_. ()) q))"
    using assms(1,2,4) seed
    by (auto simp: sqlite_setup_def connect_def Let_def split: option.splits disk_file.splits)
  show "r = Ok () \<Longrightarrow> \<exists>d'. fs' path = Some (Database SCHEMA_VERSION d') \<and> db_ok d' \<and>
      find_room LOBBY d' \<noteq> None \<and> extends base d' \<and> users d' = users base \<and> messages d' = messages base"
    using ends keeps create_room_Ok_found seed by (cases q) (auto split: option.splits)
  show "fs path \<noteq> None \<Longrightarrow> \<exists>v d'. fs' path = Some (Database v d') \<and> extends base d'"
    using ends keeps assms(2,4) by (auto split: option.splits disk_file.splits)
qed

lemma remove_files_other: "remove_files oe ps fs = (fs', r) \<Longrightarrow> p \<notin> set ps \<Longrightarrow> fs' p = fs p"
  by (induction ps arbitrary: fs) (auto split: option.splits)

lemma remove_files_gone:
  "remove_files oe ps fs = (fs', Ok ()) \<Longrightarrow> p \<in> set ps \<Longrightarrow> fs' p = None"
proof (induction ps arbitrary: fs)
  case (Cons q ps)
  then show ?case
    by (cases "p \<in> set ps") (auto split: option.splits dest: remove_files_other)
qed simp

lemma remove_database_other:
  "remove_database oe path fs = (fs', r) \<Longrightarrow> p \<notin> {path, path @ lit ''-wal'', path @ lit ''-shm''} \<Longrightarrow> fs' p = fs p"
  unfolding remove_database_def by (erule remove_files_other) simp

lemma remove_database_gone: "remove_database oe path fs = (fs', Ok ()) \<Longrightarrow> fs' path = None"
  unfolding remove_database_def by (erule remove_files_gone) simp

lemma stamped_version_Ok:
  "stamped_version oe path fs = Ok v \<Longrightarrow>
     (case fs path of None \<Rightarrow> v = None | Some (Database n d) \<Rightarrow> v = (if n = 0 then None else Some n) | Some OtherFile \<Rightarrow> False)"
  by (auto simp: stamped_version_def connect_def res_simps split: option.splits disk_file.splits if_splits prod.splits)

text \<open>The branches of opening, up to the deletion of an outdated file.\<close>

lemma sqlite_new_cases:
  assumes "sqlite_new oe env path fs = (fs', r)"
  obtains (refused) "fs' = fs" "r \<noteq> Ok ()"
  | (kept) "fs path \<noteq> Some OtherFile" "kept_db fs path = (case fs path of Some (Database v d) \<Rightarrow> d | _ \<Rightarrow> empty_db)"
      "sqlite_setup oe env path fs = (fs', r)"
  | (failed) v d where "fs path = Some (Database v d)" "v \<noteq> 0" "v \<noteq> SCHEMA_VERSION" "r \<noteq> Ok ()"
      "fst (remove_database oe path fs) = fs'"
  | (rebuilt) v d fs1 where "fs path = Some (Database v d)" "v \<noteq> 0" "v \<noteq> SCHEMA_VERSION"
      "remove_database oe path fs = (fs1, Ok ())" "sqlite_setup oe env path fs1 = (fs', r)"
proof -
  let ?dir = "if path_parent path = [] then None else dir_fault oe (path_parent path)"
  show ?thesis
  proof (cases "?dir = None \<and> is_ok (stamped_version oe path fs)")
    case False
    have "fs' = fs \<and> r \<noteq> Ok ()"
    proof (cases ?dir)
      case None
      with False assms show ?thesis
        by (cases "stamped_version oe path fs") (auto simp: sqlite_new_def)
    next
      case (Some e)
      with assms show ?thesis unfolding sqlite_new_def by auto
    qed
    then show ?thesis using refused by blast
  next
    case True
    then obtain version where sv: "stamped_version oe path fs = Ok version" and dir: "?dir = None"
      by (auto simp: is_ok_iff)
    have run: "sqlite_new oe env path fs = (case version of
        None \<Rightarrow> sqlite_setup oe env path fs
      | Some v \<Rightarrow>
          if v \<noteq> SCHEMA_VERSION then
            (case remove_database oe path fs of
               (fs', Ok _) \<Rightarrow> sqlite_setup oe env path fs'
             | (fs', Err e) \<Rightarrow> (fs', Err e)
             | (fs', Panic p) \<Rightarrow> (fs', Panic p))
          else sqlite_setup oe env path fs)"
      unfolding sqlite_new_def dir sv by simp
    note stamped = stamped_version_Ok [OF sv]
    show ?thesis
    proof (cases "version = None \<or> version = Some SCHEMA_VERSION")
      case True
      then have "sqlite_setup oe env path fs = (fs', r)" using run assms by auto
      moreover have "fs path \<noteq> Some OtherFile" using stamped by auto
      moreover have "kept_db fs path = (case fs path of Some (Database v d) \<Rightarrow> d | _ \<Rightarrow> empty_db)"
        using stamped True by (auto simp: kept_db_def split: option.splits disk_file.splits if_splits)
      ultimately show ?thesis using kept by blast
    next
      case outdated: False
      then obtain v where v: "version = Some v" "v \<noteq> SCHEMA_VERSION" by (cases version) auto
      then obtain d where d: "fs path = Some (Database v d)" "v \<noteq> 0"
        using stamped by (auto split: option.splits disk_file.splits if_splits)
      obtain fs1 q where rm: "remove_database oe path fs = (fs1, q)" by fastforce
      show ?thesis
      proof (cases q)
        case (Ok u)
        then show ?thesis using rebuilt d v rm run assms by simp
      qed (use failed [OF d v(2)] v rm run assms in auto)
    qed
  qed
qed

lemma sqlite_new_ends:
  assumes "env_ok env" and "db_ok (kept_db fs path)" and "sqlite_new oe env path fs = (fs', r)"
  shows "r = Ok () \<longrightarrow> (\<exists>d'. fs' path = Some (Database SCHEMA_VERSION d') \<and> db_ok d' \<and>
        find_room LOBBY d' \<noteq> None \<and> extends (kept_db fs path) d' \<and>
        users d' = users (kept_db fs path) \<and> messages d' = messages (kept_db fs path))" (is ?A)
    and "\<forall>v d. fs path = Some (Database v d) \<longrightarrow> v = 0 \<or> v = SCHEMA_VERSION \<longrightarrow>
        (\<exists>v' d'. fs' path = Some (Database v' d') \<and> extends d d')" (is ?B)
    and "\<forall>p. p \<notin> {path, path @ lit ''-wal'', path @ lit ''-shm''} \<longrightarrow> fs' p = fs p" (is ?C)
proof -
  have "?A \<and> ?B \<and> ?C"
    using assms(3)
  proof (cases rule: sqlite_new_cases)
    case refused
    then show ?thesis by auto
  next
    case kept
    note ends = sqlite_setup_file [OF kept(3,1) assms(1) kept(2) assms(2)]
    have "extends d d' \<longleftrightarrow> extends (kept_db fs path) d'" if "fs path = Some (Database v d)" for v d d'
      using that kept(2) by simp
    then show ?thesis using ends sqlite_setup_other [OF kept(3)] by fastforce
  next
    case (failed v d)
    obtain q where "remove_database oe path fs = (fs', q)"
      using failed(5) by (cases "remove_database oe path fs") simp
    then have "\<forall>p. p \<notin> {path, path @ lit ''-wal'', path @ lit ''-shm''} \<longrightarrow> fs' p = fs p"
      using remove_database_other by blast
    then show ?thesis using failed by simp
  next
    case (rebuilt v d fs1)
    have gone: "fs1 path = None" and other: "\<forall>p. p \<notin> {path, path @ lit ''-wal'', path @ lit ''-shm''} \<longrightarrow> fs1 p = fs p"
      using remove_database_gone [OF rebuilt(4)] remove_database_other [OF rebuilt(4)] by blast+
    have "kept_db fs path = empty_db" using rebuilt(1-3) by (simp add: kept_db_def)
    then show ?thesis
      using sqlite_setup_file [OF rebuilt(5) _ assms(1), of "empty_db"] db_ok_empty gone other
        sqlite_setup_other [OF rebuilt(5)] rebuilt(1-3) by auto
  qed
  then show ?A ?B ?C by blast+
qed

text \<open>Opening the database succeeds only with the current version stamped on a well-formed
  database that has the lobby and, for accounts and messages, exactly what the file held under
  version 0 or the current one, and nothing after any other version. A file of version 0 or the
  current one never loses a row, even when opening fails, and no file but the database and the two
  that SQLite keeps beside it is touched.\<close>

lemma sqlite_new_spec:
  assumes "env_ok env" and "db_ok (kept_db fs path)" and "sqlite_new oe env path fs = (fs', r)"
  shows "(r = Ok () \<longrightarrow> (\<exists>d'. fs' path = Some (Database SCHEMA_VERSION d') \<and> db_ok d' \<and>
        find_room LOBBY d' \<noteq> None \<and> extends (kept_db fs path) d' \<and>
        users d' = users (kept_db fs path) \<and> messages d' = messages (kept_db fs path))) \<and>
    (\<forall>v d. fs path = Some (Database v d) \<longrightarrow> v = 0 \<or> v = SCHEMA_VERSION \<longrightarrow>
        (\<exists>v' d'. fs' path = Some (Database v' d') \<and> extends d d')) \<and>
    (\<forall>p. p \<notin> {path, path @ lit ''-wal'', path @ lit ''-shm''} \<longrightarrow> fs' p = fs p)"
  using sqlite_new_ends [OF assms] by blast

corollary sqlite_new_spec_witness:
  "\<exists>fs' r. sqlite_new \<lparr>dir_fault = \<lambda>_. None, remove_fault = \<lambda>_. None, db_fault = \<lambda>_. None\<rparr>
       (calm_env 5000000) (lit ''data/chat.db'') [lit ''data/chat.db'' \<mapsto> Database 1 demo_db] = (fs', r) \<and>
     (\<exists>v' d'. fs' (lit ''data/chat.db'') = Some (Database v' d') \<and> extends demo_db d')"
proof -
  let ?fs = "[lit ''data/chat.db'' \<mapsto> Database 1 demo_db]"
  obtain fs' r where run: "sqlite_new \<lparr>dir_fault = \<lambda>_. None, remove_fault = \<lambda>_. None, db_fault = \<lambda>_. None\<rparr>
       (calm_env 5000000) (lit ''data/chat.db'') ?fs = (fs', r)"
    by fastforce
  moreover have "db_ok (kept_db ?fs (lit ''data/chat.db''))"
    by (simp add: kept_db_def SCHEMA_VERSION_def demo_db_ok)
  ultimately show ?thesis
    using sqlite_new_spec [OF calm_env_ok _ run] by (simp add: SCHEMA_VERSION_def)
qed

text \<open>A number that fits its column reads back as itself, a column value reads back as the
  number that wrote it, and a value outside the other side's range is refused as out of range
  rather than wrapped.\<close>

lemma column_roundtrip:
  "(to_column what v = Ok c \<longrightarrow> from_column what c = Ok v) \<and>
   (c \<le> i64_max \<longrightarrow> from_column what c = Ok v \<longrightarrow> to_column what v = Ok c) \<and>
   (to_column what v = Err (OutOfRange what (uint v)) \<longleftrightarrow> 2 ^ 63 \<le> uint v) \<and>
   (from_column what c = Err (OutOfRange what c) \<longleftrightarrow> c < 0)"
  using to_from_column [of what v c what] from_to_column [of c what v what]
  by (auto simp: to_column_def from_column_def i64_max_def)

corollary column_roundtrip_witness:
  "from_column ''seq'' (uint (7 :: u64)) = Ok (7 :: u64)"
  using column_roundtrip [of "''seq''" 7 "uint (7 :: u64)"] by (simp add: to_column_def i64_max_eq)

end
