(* ===== verification/Server_Auth.thy ===== *)
theory Server_Auth
  imports Server_Config
begin

text \<open>
  Password hashing and bearer tokens (crates/chat-server/src/auth.rs). The Argon2, JWT and HTTP
  header libraries are the argument \<open>deps\<close>; the random bytes a call draws are arguments too.
\<close>

section \<open>The libraries\<close>

datatype jwt_error = ExpiredSignature | OtherJwtError rstr

record claims =
  claim_sub :: rstr
  claim_exp :: u64

text \<open>
  \<open>jwt_decode token secret leeway now\<close> also reads the clock, in whole seconds. A library call
  that can fail answers with \<open>Inl\<close> of its error.
\<close>

record deps =
  salt_encode :: "nat list \<Rightarrow> rstr + rstr"
  argon_hash :: "nat list \<Rightarrow> rstr \<Rightarrow> rstr + rstr"
  argon_parses :: "rstr \<Rightarrow> bool"
  argon_verifies :: "nat list \<Rightarrow> rstr \<Rightarrow> bool"
  jwt_encode :: "claims \<Rightarrow> nat list \<Rightarrow> jwt_error + rstr"
  jwt_decode :: "rstr \<Rightarrow> nat list \<Rightarrow> nat \<Rightarrow> int \<Rightarrow> jwt_error + claims"
  header_to_str :: "nat list \<Rightarrow> rstr option"

text \<open>
  Documented behaviour: a hash parses and verifies exactly the password it was made from; a token
  decodes under the secret it was signed with, to the claims it was made from, until its expiry
  plus the leeway has passed; and a header value of visible ASCII reads as that text.
\<close>

definition argon_ok :: "deps \<Rightarrow> bool" where
  "argon_ok dp \<longleftrightarrow>
     (\<forall>pw salt h. argon_hash dp pw salt = Inr h \<longrightarrow>
        argon_parses dp h \<and> (\<forall>pw'. argon_verifies dp pw' h \<longleftrightarrow> pw' = pw))"

definition jwt_ok :: "deps \<Rightarrow> bool" where
  "jwt_ok dp \<longleftrightarrow>
     (\<forall>c k t leeway now. jwt_encode dp c k = Inr t \<longrightarrow>
        jwt_decode dp t k leeway now =
          (if uint (claim_exp c) < now - int leeway then Inl ExpiredSignature else Inr c))"

section \<open>Errors\<close>

datatype auth_error = PasswordErr rstr | TokenErr jwt_error | SecretErr rstr rstr

fun is_expired_token :: "auth_error \<Rightarrow> bool" where
  "is_expired_token (TokenErr ExpiredSignature) = True"
| "is_expired_token e = False"

section \<open>Passwords\<close>

fun of_sum :: "('x \<Rightarrow> 'e) \<Rightarrow> 'x + 'a \<Rightarrow> ('e, 'a) result" where
  "of_sum f (Inl x) = Err (f x)"
| "of_sum f (Inr a) = Ok a"

lemma of_sum_eq_Ok [res_simps]: "of_sum f s = Ok a \<longleftrightarrow> s = Inr a"
  by (cases s) auto

lemma of_sum_no_panic [simp]: "of_sum f s \<noteq> Panic p"
  by (cases s) auto

definition hash_password :: "deps \<Rightarrow> nat list \<Rightarrow> rstr \<Rightarrow> (auth_error, password_hash) result" where
  "hash_password dp random password =
     bind_res (of_sum PasswordErr (salt_encode dp random)) (\<lambda>salt.
     bind_res (of_sum PasswordErr (argon_hash dp (as_bytes password) salt)) (\<lambda>hash.
       Ok (PasswordHash hash)))"

text \<open>
  \<open>ABSENT_ACCOUNT\<close>, from the bytes drawn when it is first needed; its \<open>expect\<close> is a panic.
\<close>

definition absent_account :: "deps \<Rightarrow> nat list \<Rightarrow> (auth_error, password_hash) result" where
  "absent_account dp random =
     (case hash_password dp random (lit ''a password no account has'') of
        Ok h \<Rightarrow> Ok h
      | _ \<Rightarrow> Panic ''hashing a constant cannot fail'')"

definition verify_password ::
  "deps \<Rightarrow> nat list \<Rightarrow> rstr \<Rightarrow> password_hash option \<Rightarrow> (auth_error, bool) result" where
  "verify_password dp absent password stored =
     bind_res (case stored of
        Some hash \<Rightarrow> Ok (hash, True)
      | None \<Rightarrow> map_res (\<lambda>h. (h, False)) (absent_account dp absent))
     (\<lambda>(hash, present).
        if \<not> argon_parses dp (phc hash) then Ok False
        else Ok (argon_verifies dp (as_bytes password) (phc hash) \<and> present))"

lemma verify_password_absent: "verify_password dp absent pw None = Ok b \<Longrightarrow> \<not> b"
  by (auto simp: verify_password_def res_simps split: if_splits)

lemma verify_password_none:
  assumes "absent_account dp absent = Ok h"
  shows "verify_password dp absent pw None = Ok False"
  using assms by (simp add: verify_password_def)

lemma verify_password_some:
  "verify_password dp absent pw (Some h) =
     Ok (argon_parses dp (phc h) \<and> argon_verifies dp (as_bytes pw) (phc h))"
  by (simp add: verify_password_def)

lemma hash_then_verify:
  assumes "argon_ok dp" and "hash_password dp random pw = Ok h"
  shows "verify_password dp absent pw' (Some h) = Ok (as_bytes pw' = as_bytes pw)"
  using assms by (auto simp: hash_password_def res_simps verify_password_some argon_ok_def)

section \<open>The token-signing secret\<close>

text \<open>
  \<open>write_private\<close> on Unix: \<open>create_new\<close> refuses an existing file, and the mode is set as the
  file is created.
\<close>

definition write_private :: "os \<Rightarrow> rstr \<Rightarrow> nat list \<Rightarrow> files \<Rightarrow> files \<times> (rstr, unit) result" where
  "write_private s path bytes fs =
     (case write_fault s path of
        Some e \<Rightarrow> (fs, Err e)
      | None \<Rightarrow>
          if fs path \<noteq> None then (fs, Err (lit ''File exists (os error 17)''))
          else write_all s path bytes 384 fs)"

definition load_or_create_secret ::
  "os \<Rightarrow> nat list \<Rightarrow> rstr \<Rightarrow> files \<Rightarrow> files \<times> (auth_error, nat list) result" where
  "load_or_create_secret s random path fs =
     (case read_fault s path of
        Some e \<Rightarrow> (fs, Err (SecretErr path e))
      | None \<Rightarrow>
          (case fs path of
             Some f \<Rightarrow> (fs, Ok (f_bytes f))
           | None \<Rightarrow>
               (let (fs', w) = write_private s path random fs
                in (fs', bind_res (map_err (SecretErr path) w) (\<lambda>_. Ok random)))))"

lemma load_or_create_secret_cases [consumes 1, case_names unread read unwritten cut fresh]:
  assumes "load_or_create_secret s random path fs = (fs', r)"
  obtains e where "fs' = fs" "read_fault s path = Some e" "r = Err (SecretErr path e)"
    | f where "fs' = fs" "fs path = Some f" "r = Ok (f_bytes f)"
    | e where "fs' = fs" "fs path = None" "write_fault s path = Some e" "r = Err (SecretErr path e)"
    | n e where "fs' = fs(path \<mapsto> \<lparr>f_bytes = take n random, f_mode = 384\<rparr>)" "fs path = None"
        "cut_fault s path = Some (n, e)" "r = Err (SecretErr path e)"
    | "fs' = fs(path \<mapsto> \<lparr>f_bytes = random, f_mode = 384\<rparr>)" "fs path = None" "r = Ok random"
  using assms
  by (auto simp: load_or_create_secret_def write_private_def write_all_def split: option.splits prod.splits)

section \<open>Tokens\<close>

record tokens =
  tok_secret :: "nat list"
  tok_validity :: u64

definition tokens_new :: "nat list \<Rightarrow> u64 \<Rightarrow> tokens" where
  "tokens_new secret validity = \<lparr>tok_secret = secret, tok_validity = validity\<rparr>"

text \<open>
  \<open>now() + self.validity\<close> as a \<open>Duration\<close>, in nanoseconds: reading a clock before the epoch
  panics, and so does a sum past the largest \<open>Duration\<close>.
\<close>

definition expires_at_ns :: "int \<Rightarrow> u64 \<Rightarrow> ('e, int) result" where
  "expires_at_ns ns validity =
     (if ns < 0 then Panic ''the system clock is set before the Unix epoch''
      else let e = ns + uint validity * 1000000000 in
        if 2 ^ 64 \<le> e div 1000000000 then Panic ''overflow when adding durations''
        else Ok e)"

definition issue :: "deps \<Rightarrow> tokens \<Rightarrow> int \<Rightarrow> rstr \<Rightarrow> (auth_error, rstr \<times> unix_millis) result" where
  "issue dp tk ns username =
     bind_res (expires_at_ns ns (tok_validity tk)) (\<lambda>e.
     bind_res (of_sum TokenErr (jwt_encode dp
         \<lparr>claim_sub = username, claim_exp = word_of_int (e div 1000000000)\<rparr> (tok_secret tk))) (\<lambda>token.
       Ok (token, UnixMillis (word_of_int (e div 1000000)))))"

definition verify :: "deps \<Rightarrow> tokens \<Rightarrow> int \<Rightarrow> rstr \<Rightarrow> (auth_error, rstr) result" where
  "verify dp tk ns token =
     map_res claim_sub (of_sum TokenErr (jwt_decode dp token (tok_secret tk) 0 (ns div 1000000000)))"

text \<open>
  A token verifies to the name it was issued to through the whole second its expiry falls in,
  and is refused as expired from the next second on.
\<close>

lemma issue_then_verify:
  assumes "jwt_ok dp" and "issue dp tk ns u = Ok (t, x)"
  shows "verify dp tk later t =
    (if (ns + uint (tok_validity tk) * 1000000000) div 1000000000 < later div 1000000000
     then Err (TokenErr ExpiredSignature) else Ok u)"
proof -
  let ?e = "ns + uint (tok_validity tk) * 1000000000"
  have e: "expires_at_ns ns (tok_validity tk) = (Ok ?e :: (auth_error, int) result)"
    and t: "jwt_encode dp \<lparr>claim_sub = u, claim_exp = word_of_int (?e div 1000000000)\<rparr> (tok_secret tk) = Inr t"
    using assms(2) by (auto simp: issue_def res_simps expires_at_ns_def Let_def split: if_splits)
  have "0 \<le> ns" "?e div 1000000000 < 2 ^ 64"
    using e by (auto simp: expires_at_ns_def Let_def split: if_splits)
  then have "uint (word_of_int (?e div 1000000000) :: u64) = ?e div 1000000000"
    by (intro uint_word_of_int_64) (simp_all add: pos_imp_zdiv_nonneg_iff)
  with t assms(1) show ?thesis by (simp add: verify_def jwt_ok_def)
qed

lemma int_div_less: "a < b * 1000000 \<Longrightarrow> a div 1000000 < (b :: int)"
  by simp

lemma issue_expiry:
  assumes "issue dp tk ns u = Ok (t, x)" and "uint (tok_validity tk) < 2 ^ 50" and "ns < 2 ^ 70"
  shows "uint (millis_get x) = (ns + uint (tok_validity tk) * 1000000000) div 1000000"
proof -
  let ?e = "ns + uint (tok_validity tk) * 1000000000"
  have x: "x = UnixMillis (word_of_int (?e div 1000000))" and "0 \<le> ns"
    using assms(1) by (auto simp: issue_def res_simps expires_at_ns_def Let_def split: if_splits)
  have "?e < 18446744073709551616 * 1000000" using assms(2,3) by simp
  then have "?e div 1000000 < 18446744073709551616" by (rule int_div_less)
  then show ?thesis using x \<open>0 \<le> ns\<close>
    by (simp add: uint_word_of_int_64 pos_imp_zdiv_nonneg_iff)
qed

end
