(* ===== verification/Server_Api.thy ===== *)
theory Server_Api
  imports Data_Store Server_Auth
begin

text \<open>
  The HTTP API (crates/chat-server/src/api.rs and api/): failures and the responses they become,
  the checks on names, the bearer-token extractor, every handler, and the routing table. The
  handlers are written over any \<open>DataStore\<close>. What axum itself does (reading a path segment, a query
  string or a JSON body, and refusing them) is the argument \<open>axum\<close>; what a call meets while it runs is
  the argument \<open>call\<close>.
\<close>

section \<open>Failures and responses (api.rs)\<close>

record http_error =
  he_status :: nat
  he_code :: error_code
  he_message :: rstr

definition http_error_new :: "nat \<Rightarrow> error_code \<Rightarrow> rstr \<Rightarrow> http_error" where
  "http_error_new status code message = \<lparr>he_status = status, he_code = code, he_message = message\<rparr>"

definition unauthorized :: http_error where
  "unauthorized = http_error_new 401 Unauthorized (lit ''a valid bearer token is required'')"

definition expired_token :: http_error where
  "expired_token = http_error_new 401 ExpiredToken (lit ''the token has expired; log in again'')"

definition internal :: http_error where
  "internal = http_error_new 500 Internal (lit ''the server failed to handle this request'')"

definition room_not_found :: http_error where
  "room_not_found = http_error_new 404 RoomNotFound (lit ''no room with that id'')"

fun of_store_error :: "store_error \<Rightarrow> http_error" where
  "of_store_error (NotFound _) = room_not_found"
| "of_store_error (CapExceededErr w) =
     http_error_new 429 CapExceeded (lit ''this server accepts no more '' @ lit w @ lit ''s'')"
| "of_store_error _ = internal"

definition of_auth_error :: "auth_error \<Rightarrow> http_error" where
  "of_auth_error e = internal"

definition of_json_rejection :: "rstr \<Rightarrow> http_error" where
  "of_json_rejection text = http_error_new 400 InvalidBody text"

datatype resp_body =
    NoBody | HealthBody rstr | InfoBody server_info | LoginBody login_response
  | RoomsBody "room list" | RoomBody room | MessagesBody "message list"
  | PostedBody post_message_response | ErrorBody error_response | SpecBody | ForeignBody rstr

record response =
  rs_status :: nat
  rs_location :: "rstr option"
  rs_body :: resp_body

definition respond :: "nat \<Rightarrow> resp_body \<Rightarrow> response" where
  "respond status body = \<lparr>rs_status = status, rs_location = None, rs_body = body\<rparr>"

definition into_response :: "http_error \<Rightarrow> response" where
  "into_response e = respond (he_status e) (ErrorBody (error_response_new (he_code e) (he_message e)))"

section \<open>State and requests\<close>

record 's app_state =
  as_store :: "'s data_store"
  as_tokens :: tokens
  as_config :: config

record page =
  pg_limit :: "u32 option"
  pg_after_seq :: "u64 option"
  pg_before_seq :: "u64 option"

datatype http_method = GET | HEAD | POST | OtherMethod rstr

record request =
  rq_method :: http_method
  rq_path :: "rstr list"
  rq_query :: rstr
  rq_authorization :: "nat list option"
  rq_body :: "nat list"

text \<open>axum's extractors, each with the refusal it answers itself, and its answers to an unknown path or method.\<close>

record axum =
  ax_path_u64 :: "rstr \<Rightarrow> response + u64"
  ax_query_page :: "rstr \<Rightarrow> response + page"
  ax_json_register :: "request \<Rightarrow> rstr + register_request"
  ax_json_login :: "request \<Rightarrow> rstr + login_request"
  ax_json_create_room :: "request \<Rightarrow> rstr + create_room_request"
  ax_json_post :: "request \<Rightarrow> rstr + post_message_request"
  ax_not_found :: response
  ax_not_allowed :: response

text \<open>
  What one call meets: the clock when a token is checked or issued, the random bytes drawn, the
  environments of its first and second store call, and what other calls do to the store between
  the two.
\<close>

record 's call =
  call_clock :: int
  call_salt :: "nat list"
  call_absent :: "nat list"
  call_env :: env
  call_env2 :: env
  call_meanwhile :: "'s \<Rightarrow> 's"

text \<open>\<open>?\<close> in a handler: the store is left as it is when the step before fails.\<close>

definition try_res :: "('e, 'a) result \<Rightarrow> ('a \<Rightarrow> 's \<Rightarrow> 's \<times> ('e, 'b) result) \<Rightarrow> 's \<Rightarrow> 's \<times> ('e, 'b) result" where
  "try_res r f s = (case r of Ok a \<Rightarrow> f a s | Err e \<Rightarrow> (s, Err e) | Panic p \<Rightarrow> (s, Panic p))"

lemma try_res_simps [simp]:
  "try_res (Ok a) f s = f a s" "try_res (Err e) f s = (s, Err e)" "try_res (Panic p) f s = (s, Panic p)"
  by (simp_all add: try_res_def)

text \<open>A blocking task that panics panics the handler waiting for it.\<close>

definition joined :: "string \<Rightarrow> ('e, 'a) result \<Rightarrow> ('e, 'a) result" where
  "joined message r = (case r of Panic _ \<Rightarrow> Panic message | _ \<Rightarrow> r)"

section \<open>Accounts (auth.rs)\<close>

definition username_parse :: "rstr \<Rightarrow> (http_error, rstr) result" where
  "username_parse raw =
     (let printable = \<not> list_ex is_control raw in
      if 1 \<le> length raw \<and> length raw \<le> 32 \<and> printable then Ok raw
      else Err (http_error_new 422 InvalidUsername
        (lit ''a username is 1 to 32 characters and holds no control characters'')))"

text \<open>The token of an \<open>Authorization\<close> header, and the account it verifies to.\<close>

definition bearer_token :: "deps \<Rightarrow> nat list option \<Rightarrow> rstr option" where
  "bearer_token dp header =
     Option.bind (Option.bind (Option.bind header (header_to_str dp)) (split_once (\<lambda>c. c = 32)))
       (\<lambda>(scheme, token).
          if eq_ignore_ascii_case scheme (lit ''Bearer'') then Some (trim token) else None)"

definition authenticated :: "deps \<Rightarrow> tokens \<Rightarrow> int \<Rightarrow> nat list option \<Rightarrow> (http_error, rstr) result" where
  "authenticated dp tk clk header =
     (case bearer_token dp header of
        None \<Rightarrow> Err unauthorized
      | Some token \<Rightarrow>
          map_err (\<lambda>error. if is_expired_token error then expired_token else unauthorized)
            (verify dp tk clk token))"

definition register ::
  "deps \<Rightarrow> 's app_state \<Rightarrow> 's call \<Rightarrow> rstr + register_request \<Rightarrow> 's \<Rightarrow> 's \<times> (http_error, response) result" where
  "register dp st c body =
     try_res (of_sum of_json_rejection body) (\<lambda>body.
     try_res (username_parse (reg_username body)) (\<lambda>username.
     try_res (map_err of_auth_error
         (joined ''the hashing task cannot panic'' (hash_password dp (call_salt c) (reg_password body)))) (\<lambda>hash s.
       (case ds_insert_user (as_store st) (call_env c) username hash s of
          (s', Ok Created) \<Rightarrow> (s', Ok (respond 201 NoBody))
        | (s', Ok UsernameTakenReg) \<Rightarrow>
            (s', Err (http_error_new 409 UsernameTaken (lit ''that username is already registered'')))
        | (s', Err e) \<Rightarrow> (s', Err (of_store_error e))
        | (s', Panic p) \<Rightarrow> (s', Panic p)))))"

definition login ::
  "deps \<Rightarrow> 's app_state \<Rightarrow> 's call \<Rightarrow> rstr + login_request \<Rightarrow> 's \<Rightarrow> 's \<times> (http_error, response) result" where
  "login dp st c body =
     try_res (of_sum of_json_rejection body) (\<lambda>body s.
     try_res (map_err of_store_error (ds_password_hash (as_store st) (call_env c) (log_username body) s)) (\<lambda>stored.
     try_res (map_err of_auth_error (joined ''the verification task cannot panic''
         (verify_password dp (call_absent c) (log_password body) stored))) (\<lambda>verified.
       if \<not> verified then
         (\<lambda>s. (s, Err (http_error_new 401 InvalidCredentials (lit ''that username and password do not match''))))
       else
         try_res (map_err of_auth_error (issue dp (as_tokens st) (call_clock c) (log_username body)))
           (\<lambda>(token, expires_at) s.
              (s, Ok (respond 200 (LoginBody \<lparr>lr_token = token, lr_expires_at = expires_at\<rparr>)))))) s)"

section \<open>Rooms (rooms.rs)\<close>

definition API_V1 :: rstr where
  "API_V1 = lit ''/api/v1''"

definition room_name_parse :: "rstr \<Rightarrow> (http_error, rstr) result" where
  "room_name_parse raw =
     (let printable = list_all (\<lambda>c. is_ascii_graphic c \<or> c = 32) raw in
      if 1 \<le> str_len raw \<and> str_len raw \<le> 64 \<and> printable then Ok raw
      else Err (http_error_new 422 InvalidName
        (lit ''a room name is 1 to 64 printable ASCII characters'')))"

definition rooms_list ::
  "deps \<Rightarrow> 's app_state \<Rightarrow> 's call \<Rightarrow> nat list option \<Rightarrow> 's \<Rightarrow> 's \<times> (http_error, response) result" where
  "rooms_list dp st c auth =
     try_res (authenticated dp (as_tokens st) (call_clock c) auth) (\<lambda>_ s.
     try_res (map_err of_store_error (ds_list_rooms (as_store st) (call_env c) s)) (\<lambda>rooms s.
       (s, Ok (respond 200 (RoomsBody rooms)))) s)"

definition created :: "room \<Rightarrow> response" where
  "created room =
     \<lparr>rs_status = 201, rs_location = Some (API_V1 @ lit ''/rooms/'' @ room_id_display (rm_id room)),
      rs_body = RoomBody room\<rparr>"

definition rooms_create ::
  "deps \<Rightarrow> 's app_state \<Rightarrow> 's call \<Rightarrow> nat list option \<Rightarrow> rstr + create_room_request
     \<Rightarrow> 's \<Rightarrow> 's \<times> (http_error, response) result" where
  "rooms_create dp st c auth body =
     try_res (authenticated dp (as_tokens st) (call_clock c) auth) (\<lambda>_.
     try_res (of_sum of_json_rejection body) (\<lambda>body.
     try_res (room_name_parse (cr_name body)) (\<lambda>name s.
       (case ds_create_room (as_store st) (call_env c) name s of
          (s', Ok (RoomCreated room)) \<Rightarrow> (s', Ok (created room))
        | (s', Ok (RoomExisting room)) \<Rightarrow> (s', Ok (respond 200 (RoomBody room)))
        | (s', Err e) \<Rightarrow> (s', Err (of_store_error e))
        | (s', Panic p) \<Rightarrow> (s', Panic p)))))"

section \<open>Messages (messages.rs)\<close>

definition DEFAULT_LIMIT :: u32 where
  "DEFAULT_LIMIT = 50"

definition MAX_LIMIT :: u32 where
  "MAX_LIMIT = 200"

definition page_limit :: "page \<Rightarrow> u32" where
  "page_limit p =
     (let n = (case pg_limit p of None \<Rightarrow> DEFAULT_LIMIT | Some n \<Rightarrow> n) in max 1 (min n MAX_LIMIT))"

text \<open>
  The room's existence is checked first, and the cursors only after it; other calls may write
  between the two store calls.
\<close>

definition messages_list ::
  "deps \<Rightarrow> 's app_state \<Rightarrow> 's call \<Rightarrow> nat list option \<Rightarrow> response + u64 \<Rightarrow> response + page
     \<Rightarrow> 's \<Rightarrow> 's \<times> (http_error, response) result" where
  "messages_list dp st c auth path query =
     try_res (authenticated dp (as_tokens st) (call_clock c) auth) (\<lambda>_ s.
     case path of Inl refused \<Rightarrow> (s, Ok refused) | Inr room \<Rightarrow>
     (case query of Inl refused \<Rightarrow> (s, Ok refused) | Inr page \<Rightarrow>
       (let room = RoomId room in
        try_res (map_err of_store_error (ds_room_exists (as_store st) (call_env c) room s)) (\<lambda>exists s.
          if \<not> exists then (s, Err room_not_found)
          else
            (let limit = page_limit page; s = call_meanwhile c s in
             try_res
               (case (pg_after_seq page, pg_before_seq page) of
                  (Some _, Some _) \<Rightarrow>
                    Err (http_error_new 400 InvalidBody (lit ''after_seq and before_seq cannot be combined''))
                | (Some after, None) \<Rightarrow>
                    map_err of_store_error (ds_messages_after (as_store st) (call_env2 c) room (Seq after) limit s)
                | (None, Some before) \<Rightarrow>
                    map_err of_store_error (ds_messages_before (as_store st) (call_env2 c) room (Seq before) limit s)
                | (None, None) \<Rightarrow>
                    map_err of_store_error (ds_messages_newest (as_store st) (call_env2 c) room limit s))
               (\<lambda>messages s. (s, Ok (respond 200 (MessagesBody messages)))) s)) s)))"

definition messages_post ::
  "deps \<Rightarrow> 's app_state \<Rightarrow> 's call \<Rightarrow> nat list option \<Rightarrow> response + u64 \<Rightarrow> rstr + post_message_request
     \<Rightarrow> 's \<Rightarrow> 's \<times> (http_error, response) result" where
  "messages_post dp st c auth path body =
     try_res (authenticated dp (as_tokens st) (call_clock c) auth) (\<lambda>username s.
     case path of Inl refused \<Rightarrow> (s, Ok refused) | Inr room \<Rightarrow>
     try_res (of_sum of_json_rejection body) (\<lambda>body s.
       (let room = RoomId room; max_bytes = cfg_max_message_bytes (as_config st) in
        if unat max_bytes < str_len (pm_body body) then
          (s, Err (http_error_new 413 MessageTooLarge
             (lit ''a message body is at most '' @ dec (unat max_bytes) @ lit '' bytes'')))
        else if pm_body body = [] then
          (s, Err (http_error_new 422 InvalidBody (lit ''a message body cannot be empty'')))
        else
          (case ds_post_message (as_store st) (call_env c) room username (pm_body body) s of
             (s', Ok posted) \<Rightarrow> (s', Ok (respond 201 (PostedBody posted)))
           | (s', Err e) \<Rightarrow> (s', Err (of_store_error e))
           | (s', Panic p) \<Rightarrow> (s', Panic p)))) s)"

section \<open>The server (server.rs)\<close>

definition healthz :: response where
  "healthz = respond 200 (HealthBody (lit ''ok''))"

text \<open>\<open>try_into().unwrap_or(u32::MAX)\<close> of the seconds a token lasts.\<close>

definition validity_seconds :: "config \<Rightarrow> u32" where
  "validity_seconds c =
     (if uint (token_validity c) < 2 ^ 32 then ucast (token_validity c) else - 1)"

definition server_info :: "rstr \<Rightarrow> config \<Rightarrow> response" where
  "server_info version c = respond 200 (InfoBody
     \<lparr>si_version = version, si_isd_as = None, si_max_accounts = cfg_max_accounts c,
      si_max_rooms = cfg_max_rooms c, si_max_message_bytes = cfg_max_message_bytes c,
      si_token_validity_seconds = validity_seconds c\<rparr>)"

section \<open>Routing (api.rs)\<close>

datatype endpoint = HealthzE | ServerInfoE | RegisterE | LoginE | RoomsE | MessagesE rstr | OpenapiE

definition endpoint_of :: "rstr list \<Rightarrow> endpoint option" where
  "endpoint_of path =
     (if path = [lit ''.well-known'', lit ''openapi.json''] then Some OpenapiE
      else if take 2 path \<noteq> [lit ''api'', lit ''v1''] then None
      else case drop 2 path of
          [a] \<Rightarrow>
            if a = lit ''healthz'' then Some HealthzE
            else if a = lit ''server'' then Some ServerInfoE
            else if a = lit ''register'' then Some RegisterE
            else if a = lit ''login'' then Some LoginE
            else if a = lit ''rooms'' then Some RoomsE
            else None
        | [a, i, b] \<Rightarrow>
            if a = lit ''rooms'' \<and> i \<noteq> [] \<and> b = lit ''messages'' then Some (MessagesE i) else None
        | _ \<Rightarrow> None)"

text \<open>The handler of an endpoint and method; a route for \<open>GET\<close> answers \<open>HEAD\<close> too, without the body.\<close>

definition dispatch ::
  "deps \<Rightarrow> axum \<Rightarrow> rstr \<Rightarrow> 's app_state \<Rightarrow> 's call \<Rightarrow> request \<Rightarrow> endpoint \<Rightarrow> http_method
     \<Rightarrow> ('s \<Rightarrow> 's \<times> (http_error, response) result) option" where
  "dispatch dp ax version st c rq e m =
     (case (e, m) of
        (HealthzE, GET) \<Rightarrow> Some (\<lambda>s. (s, Ok healthz))
      | (ServerInfoE, GET) \<Rightarrow> Some (\<lambda>s. (s, Ok (server_info version (as_config st))))
      | (OpenapiE, GET) \<Rightarrow> Some (\<lambda>s. (s, Ok (respond 200 SpecBody)))
      | (RegisterE, POST) \<Rightarrow> Some (register dp st c (ax_json_register ax rq))
      | (LoginE, POST) \<Rightarrow> Some (login dp st c (ax_json_login ax rq))
      | (RoomsE, GET) \<Rightarrow> Some (rooms_list dp st c (rq_authorization rq))
      | (RoomsE, POST) \<Rightarrow> Some (rooms_create dp st c (rq_authorization rq) (ax_json_create_room ax rq))
      | (MessagesE i, GET) \<Rightarrow>
          Some (messages_list dp st c (rq_authorization rq) (ax_path_u64 ax i) (ax_query_page ax (rq_query rq)))
      | (MessagesE i, POST) \<Rightarrow>
          Some (messages_post dp st c (rq_authorization rq) (ax_path_u64 ax i) (ax_json_post ax rq))
      | _ \<Rightarrow> None)"

definition finish :: "'s \<times> (http_error, response) result \<Rightarrow> 's \<times> (http_error, response) result" where
  "finish r = (case r of (s, Err e) \<Rightarrow> (s, Ok (into_response e)) | _ \<Rightarrow> r)"

text \<open>One request, to its response; what remains is a response or a panic of the handler's task.\<close>

definition router ::
  "deps \<Rightarrow> axum \<Rightarrow> rstr \<Rightarrow> 's app_state \<Rightarrow> 's call \<Rightarrow> request \<Rightarrow> 's
     \<Rightarrow> 's \<times> (http_error, response) result" where
  "router dp ax version st c rq s =
     (case endpoint_of (rq_path rq) of
        None \<Rightarrow> (s, Ok (ax_not_found ax))
      | Some e \<Rightarrow>
          (let run = dispatch dp ax version st c rq e in
           case rq_method rq of
             HEAD \<Rightarrow>
               (case run GET of
                  None \<Rightarrow> (s, Ok (ax_not_allowed ax))
                | Some f \<Rightarrow> (let (s', r) = finish (f s) in (s', map_res (\<lambda>p. p\<lparr>rs_body := NoBody\<rparr>) r)))
           | m \<Rightarrow>
               (case run m of
                  None \<Rightarrow> (s, Ok (ax_not_allowed ax))
                | Some f \<Rightarrow> finish (f s))))"

end
