(* ===== verification/Server_Laws.thy ===== *)
theory Server_Laws
  imports Server_Api
begin

text \<open>
  The handlers over any store that keeps the \<open>DataStore\<close> contract: what each does to the store, and
  the message-log contract as the HTTP API offers it.
\<close>

section \<open>Authentication\<close>

lemma authenticated_cases:
  "authenticated dp tk t h = (case bearer_token dp h of
     None \<Rightarrow> Err unauthorized
   | Some token \<Rightarrow> (case jwt_decode dp token (tok_secret tk) 0 (t div 1000000000) of
       Inr c \<Rightarrow> Ok (claim_sub c)
     | Inl e \<Rightarrow> Err (if e = ExpiredSignature then expired_token else unauthorized)))"
proof (cases "bearer_token dp h")
  case (Some token)
  show ?thesis
  proof (cases "jwt_decode dp token (tok_secret tk) 0 (t div 1000000000)")
    case (Inl e)
    then show ?thesis using Some by (cases e) (simp_all add: authenticated_def verify_def)
  qed (use Some in \<open>simp add: authenticated_def verify_def\<close>)
qed (simp add: authenticated_def)

lemma authenticated_no_panic [simp]: "authenticated dp tk t h \<noteq> Panic p"
  by (simp add: authenticated_cases split: option.split sum.split)

lemma authenticated_Err:
  "authenticated dp tk t h = Err e \<Longrightarrow> e = unauthorized \<or> e = expired_token"
  by (auto simp: authenticated_cases split: option.splits sum.splits if_splits)

text \<open>
  A header value of visible ASCII and spaces reads as that text, and a signed token is base64url
  parts and dots.
\<close>

definition header_ok :: "deps \<Rightarrow> bool" where
  "header_ok dp \<longleftrightarrow>
     (\<forall>s. list_all (\<lambda>c. is_ascii_graphic c \<or> c = 32) s \<longrightarrow> header_to_str dp (as_bytes s) = Some s)"

definition token_text_ok :: "deps \<Rightarrow> bool" where
  "token_text_ok dp \<longleftrightarrow>
     (\<forall>c k t. jwt_encode dp c k = Inr t \<longrightarrow> t \<noteq> [] \<and> list_all is_ascii_graphic t)"

lemma graphic_not_space: "is_ascii_graphic c \<Longrightarrow> \<not> is_whitespace c"
  by (auto simp: is_ascii_graphic_def is_whitespace_def)

lemma trim_graphic: "list_all is_ascii_graphic t \<Longrightarrow> trim t = t"
  unfolding trim_def
  by (rule trim_by_id) (auto simp: list_all_iff dest: graphic_not_space hd_in_set last_in_set)

definition bearer_header :: "rstr \<Rightarrow> nat list" where
  "bearer_header t = as_bytes (lit ''Bearer '' @ t)"

lemma bearer_token_header:
  assumes "header_ok dp" and "list_all is_ascii_graphic t"
  shows "bearer_token dp (Some (bearer_header t)) = Some t"
proof -
  let ?s = "lit ''Bearer'' @ 32 # t"
  have "list_all (\<lambda>c. is_ascii_graphic c \<or> c = 32) (lit ''Bearer '' @ t)"
    using assms(2) by (auto simp: list_all_iff is_ascii_graphic_def)
  then have "header_to_str dp (bearer_header t) = Some (lit ''Bearer '' @ t)"
    using assms(1) by (simp only: header_ok_def bearer_header_def)
  moreover have "lit ''Bearer '' @ t = ?s" by simp
  moreover have "split_once (\<lambda>c. c = 32) ?s = Some (lit ''Bearer'', t)"
    by (rule split_once_append) simp_all
  ultimately show ?thesis
    using trim_graphic [OF assms(2)] by (simp only: bearer_token_def bind.simps) simp
qed

section \<open>Handlers that do not write\<close>

lemma login_store: "login dp st c body s = (s', r) \<Longrightarrow> s' = s"
  by (cases body) (auto simp: login_def try_res_def split: result.splits if_splits prod.splits)

lemma rooms_list_store: "rooms_list dp st c auth s = (s', r) \<Longrightarrow> s' = s"
  by (auto simp: rooms_list_def try_res_def split: result.splits)

lemma messages_list_store:
  "messages_list dp st c auth path query s = (s', r) \<Longrightarrow> s' = s \<or> s' = call_meanwhile c s"
  by (auto simp: messages_list_def try_res_def Let_def split: result.splits sum.splits if_splits)

section \<open>Handlers over the contract\<close>

definition call_ok :: "('s \<Rightarrow> bool) \<Rightarrow> ('s \<Rightarrow> 's \<Rightarrow> bool) \<Rightarrow> 's call \<Rightarrow> bool" where
  "call_ok safe grows c \<longleftrightarrow> env_ok (call_env c) \<and> env_ok (call_env2 c) \<and>
     (\<forall>s. safe s \<longrightarrow> grows s (call_meanwhile c s))"

lemma register_cases:
  assumes "register dp st c body s = (s', r)"
  obtains (refused) "s' = s" "\<not> is_ok r"
  | (stored) b h q where "body = Inr b" "username_parse (reg_username b) = Ok (reg_username b)"
      "hash_password dp (call_salt c) (reg_password b) = Ok h"
      "ds_insert_user (as_store st) (call_env c) (reg_username b) h s = (s', q)"
      "is_ok r \<longleftrightarrow> q = Ok Created" "\<And>x. r = Ok x \<Longrightarrow> x = respond 201 NoBody"
proof (cases "\<exists>b n h. body = Inr b \<and> username_parse (reg_username b) = Ok n \<and>
    hash_password dp (call_salt c) (reg_password b) = Ok h")
  case True
  then obtain b n h where b: "body = Inr b" "username_parse (reg_username b) = Ok n"
    "hash_password dp (call_salt c) (reg_password b) = Ok h" by blast
  have n: "n = reg_username b" using b(2) by (simp add: username_parse_def Let_def split: if_splits)
  obtain s1 q where q: "ds_insert_user (as_store st) (call_env c) n h s = (s1, q)" by fastforce
  have "s' = s1 \<and> (is_ok r \<longleftrightarrow> q = Ok Created) \<and> (\<forall>x. r = Ok x \<longrightarrow> x = respond 201 NoBody)"
    using assms b q by (auto simp: register_def joined_def split: result.splits registration.splits)
  then show thesis using stored b q n by simp
next
  case False
  then have "s' = s \<and> \<not> is_ok r"
    using assms by (cases body) (auto simp: register_def try_res_def joined_def split: result.splits)
  then show thesis using refused by blast
qed

lemma rooms_create_cases:
  assumes "rooms_create dp st c auth body s = (s', r)"
  obtains (refused) "s' = s"
  | (stored) n q where "ds_create_room (as_store st) (call_env c) n s = (s', q)"
  using assms
  by (cases body) (fastforce simp: rooms_create_def try_res_def split: result.splits prod.splits room_creation.splits)+

lemma messages_post_cases:
  assumes "messages_post dp st c auth path body s = (s', r)"
  obtains (refused) "s' = s" "\<And>x. r = Ok x \<Longrightarrow> path = Inl x"
      "\<nexists>u room b. authenticated dp (as_tokens st) (call_clock c) auth = Ok u \<and> path = Inr room \<and> body = Inr b \<and>
         pm_body b \<noteq> [] \<and> str_len (pm_body b) \<le> unat (cfg_max_message_bytes (as_config st))"
  | (stored) u room b q where "authenticated dp (as_tokens st) (call_clock c) auth = Ok u"
      "path = Inr room" "body = Inr b" "pm_body b \<noteq> []"
      "str_len (pm_body b) \<le> unat (cfg_max_message_bytes (as_config st))"
      "ds_post_message (as_store st) (call_env c) (RoomId room) u (pm_body b) s = (s', q)"
      "r = (case q of Ok p \<Rightarrow> Ok (respond 201 (PostedBody p)) | Err e \<Rightarrow> Err (of_store_error e) | Panic p \<Rightarrow> Panic p)"
proof (cases "\<exists>u room b. authenticated dp (as_tokens st) (call_clock c) auth = Ok u \<and> path = Inr room \<and>
    body = Inr b \<and> pm_body b \<noteq> [] \<and> str_len (pm_body b) \<le> unat (cfg_max_message_bytes (as_config st))")
  case True
  then obtain u room b where b: "authenticated dp (as_tokens st) (call_clock c) auth = Ok u"
    "path = Inr room" "body = Inr b" "pm_body b \<noteq> []"
    "str_len (pm_body b) \<le> unat (cfg_max_message_bytes (as_config st))" by blast
  obtain s1 q where q: "ds_post_message (as_store st) (call_env c) (RoomId room) u (pm_body b) s = (s1, q)"
    by fastforce
  have "s' = s1 \<and> r = (case q of Ok p \<Rightarrow> Ok (respond 201 (PostedBody p)) | Err e \<Rightarrow> Err (of_store_error e) | Panic p \<Rightarrow> Panic p)"
    using assms b q by (auto simp: messages_post_def Let_def split: result.splits)
  then show thesis using stored b q by simp
next
  case False
  then have "s' = s \<and> (\<forall>x. r = Ok x \<longrightarrow> path = Inl x)"
    using assms by (auto simp: messages_post_def try_res_def Let_def res_simps split: result.splits sum.splits if_splits)
  then show thesis using refused False by blast
qed

context data_store_contract
begin

lemma register_grows:
  assumes "inv s" and "call_ok inv grows c" and "as_store st = ds" and "register dp st c body s = (s', r)"
  shows "grows s s'"
  using assms(4)
proof (cases rule: register_cases)
  case (stored b h q)
  then show ?thesis using insert_user_law [OF assms(1), of "call_env c"] assms(2,3) by (auto simp: call_ok_def)
qed (simp add: grows_refl)

lemma rooms_create_grows:
  assumes "inv s" and "call_ok inv grows c" and "as_store st = ds"
    and "rooms_create dp st c auth body s = (s', r)"
  shows "grows s s'"
  using assms(4)
proof (cases rule: rooms_create_cases)
  case (stored n q)
  then show ?thesis using create_room_law [OF assms(1), of "call_env c"] assms(2,3) by (auto simp: call_ok_def)
qed (simp add: grows_refl)

lemma messages_post_grows:
  assumes "inv s" and "call_ok inv grows c" and "as_store st = ds"
    and "messages_post dp st c auth path body s = (s', r)"
  shows "grows s s'"
  using assms(4)
proof (cases rule: messages_post_cases)
  case (stored u room b q)
  then show ?thesis using post_message_law [OF assms(1), of "call_env c"] assms(2,3) by (auto simp: call_ok_def)
qed (simp add: grows_refl)

lemma messages_list_grows:
  assumes "inv s" and "call_ok inv grows c" and "messages_list dp st c auth path query s = (s', r)"
  shows "grows s s'"
  using messages_list_store [OF assms(3)] assms(1,2) grows_refl by (auto simp: call_ok_def)

lemma router_grows:
  assumes "inv s" and "call_ok inv grows c" and "as_store st = ds" and "router dp ax v st c rq s = (s', r)"
  shows "grows s s'"
proof -
  have d: "grows s s1" if "dispatch dp ax v st c rq e m = Some f" "f s = (s1, q)" for e m f s1 q
    using that register_grows [OF assms(1-3)] rooms_create_grows [OF assms(1-3)]
      messages_post_grows [OF assms(1-3)] messages_list_grows [OF assms(1,2)] grows_refl
      login_store rooms_list_store
    by (fastforce simp: dispatch_def split: endpoint.splits http_method.splits)
  have f: "finish (f s) = (s1, q) \<Longrightarrow> \<exists>q'. f s = (s1, q')" for f s1 q
    by (auto simp: finish_def split: prod.splits result.splits)
  show ?thesis
    using assms(4) grows_refl d f
    by (fastforce simp: router_def Let_def split: option.splits http_method.splits prod.splits)
qed

text \<open>A posted message is in the room's log at its end, under the name the token verified to.\<close>

lemma messages_post_created:
  assumes "inv s" and "call_ok inv grows c" and "as_store st = ds"
    and "messages_post dp st c auth (Inr room) body s = (s', Ok x)"
  shows "\<exists>u b p. authenticated dp (as_tokens st) (call_clock c) auth = Ok u \<and> body = Inr b \<and>
    x = respond 201 (PostedBody p) \<and> pm_body b \<noteq> [] \<and>
    str_len (pm_body b) \<le> unat (cfg_max_message_bytes (as_config st)) \<and> known s (RoomId room) \<and>
    log s' (RoomId room) = log s (RoomId room) @
      [\<lparr>msg_seq = pr_seq p, msg_username = u, msg_body = pm_body b, msg_posted_at = pr_posted_at p\<rparr>]"
  using assms(4)
proof (cases rule: messages_post_cases)
  case (stored u room' b q)
  from stored(7) obtain p where p: "q = Ok p" "x = respond 201 (PostedBody p)"
    by (cases q) auto
  have "room' = room" using stored(2) by simp
  then show ?thesis
    using stored(1,3-6) p post_message_law [OF assms(1) _ stored(6) [unfolded assms(3)]] assms(2)
    by (intro exI [of _ u] exI [of _ b] exI [of _ p]) (simp add: call_ok_def)
qed simp

lemma messages_list_page:
  assumes "inv s" and "call_ok inv grows c" and "as_store st = ds"
    and "messages_list dp st c auth (Inr room) (Inr page) s = (s', Ok x)"
  shows "\<exists>ms. x = respond 200 (MessagesBody ms) \<and> known s (RoomId room) \<and> inv s' \<and>
    (case (pg_after_seq page, pg_before_seq page) of
       (Some a, None) \<Rightarrow> ms = take (unat (page_limit page)) (beyond (Seq a) (log s' (RoomId room)))
     | (None, Some b) \<Rightarrow> ms = last_n (unat (page_limit page)) (filter (\<lambda>m. msg_seq m < Seq b) (log s' (RoomId room)))
     | (None, None) \<Rightarrow> ms = last_n (unat (page_limit page)) (log s' (RoomId room))
     | _ \<Rightarrow> False)"
proof -
  have ex: "ds_room_exists ds (call_env c) (RoomId room) s = Ok True"
    and run: "s' = call_meanwhile c s"
    using assms(3,4)
    by (auto simp: messages_list_def try_res_def Let_def res_simps split: result.splits if_splits)
  have "inv s'" using grows_inv [OF assms(1)] assms(1,2) run by (simp add: call_ok_def)
  moreover have "known s (RoomId room)" using room_exists_law [OF assms(1) ex] by simp
  moreover have "\<exists>ms. x = respond 200 (MessagesBody ms) \<and>
    (case (pg_after_seq page, pg_before_seq page) of
       (Some a, None) \<Rightarrow> ds_messages_after ds (call_env2 c) (RoomId room) (Seq a) (page_limit page) s' = Ok ms
     | (None, Some b) \<Rightarrow> ds_messages_before ds (call_env2 c) (RoomId room) (Seq b) (page_limit page) s' = Ok ms
     | (None, None) \<Rightarrow> ds_messages_newest ds (call_env2 c) (RoomId room) (page_limit page) s' = Ok ms
     | _ \<Rightarrow> False)"
    using assms(3,4) ex
    by (auto simp: messages_list_def try_res_def Let_def res_simps split: result.splits option.splits)
  ultimately show ?thesis
    using newest_law after_law before_law
    by (cases "pg_after_seq page"; cases "pg_before_seq page") fastforce+
qed

text \<open>An account that was registered logs in with its password, and with no other.\<close>

lemma register_account:
  assumes "inv s" and "call_ok inv grows c" and "as_store st = ds" and "register dp st c body s = (s', Ok x)"
  shows "\<exists>b h. body = Inr b \<and> username_parse (reg_username b) = Ok (reg_username b) \<and>
    hash_password dp (call_salt c) (reg_password b) = Ok h \<and>
    account s (reg_username b) = None \<and> account s' (reg_username b) = Some h \<and> x = respond 201 NoBody"
  using assms(4)
proof (cases rule: register_cases)
  case (stored b h q)
  then show ?thesis
    using insert_user_law [OF assms(1) _ stored(4) [unfolded assms(3)]] assms(2) by (simp add: call_ok_def)
qed simp

lemma login_of_account:
  assumes "inv s" and "as_store st = ds" and "argon_ok dp"
    and "hash_password dp salt pw = Ok h" and "account s (log_username b) = Some h"
    and "is_ok (ds_password_hash ds (call_env c) (log_username b) s)"
  shows "login dp st c (Inr b) s =
    (if as_bytes (log_password b) = as_bytes pw
     then try_res (map_err of_auth_error (issue dp (as_tokens st) (call_clock c) (log_username b)))
       (\<lambda>(token, expires_at) s.
          (s, Ok (respond 200 (LoginBody \<lparr>lr_token = token, lr_expires_at = expires_at\<rparr>)))) s
     else (s, Err (http_error_new 401 InvalidCredentials (lit ''that username and password do not match''))))"
proof -
  obtain p where p: "ds_password_hash ds (call_env c) (log_username b) s = Ok p"
    using assms(6) by (auto simp: is_ok_iff)
  then have "p = Some h" using password_hash_law [OF assms(1)] assms(5) by simp
  then show ?thesis
    using p assms(2) hash_then_verify [OF assms(3,4)] by (simp add: login_def joined_def)
qed

lemma login_unknown:
  assumes "inv s" and "as_store st = ds" and "account s (log_username b) = None"
    and "is_ok (ds_password_hash ds (call_env c) (log_username b) s)"
    and "absent_account dp (call_absent c) = Ok h"
  shows "login dp st c (Inr b) s =
    (s, Err (http_error_new 401 InvalidCredentials (lit ''that username and password do not match'')))"
proof -
  have "ds_password_hash ds (call_env c) (log_username b) s = Ok None"
    using assms(4) password_hash_law [OF assms(1)] assms(3) by (metis is_ok_iff)
  then show ?thesis
    using assms(2) verify_password_none [OF assms(5)] by (simp add: login_def joined_def)
qed

end

section \<open>The API as a message log\<close>

lemma page_limit_bounds: "1 \<le> unat (page_limit p)" "unat (page_limit p) \<le> 200"
proof -
  have "1 \<le> page_limit p" by (simp add: page_limit_def Let_def)
  then have "unat (1 :: u32) \<le> unat (page_limit p)" by (simp only: word_le_nat_alt)
  then show "1 \<le> unat (page_limit p)" by simp
  have "page_limit p \<le> 200"
    by (auto simp: page_limit_def Let_def MAX_LIMIT_def max_def min_def not_le)
  then have "unat (page_limit p) \<le> unat (200 :: u32)" by (simp only: word_le_nat_alt)
  then show "unat (page_limit p) \<le> 200" by simp
qed

text \<open>What the list handler can answer, over the state it leaves.\<close>

definition api_newest :: "caps \<Rightarrow> db \<Rightarrow> room_id \<Rightarrow> message list \<Rightarrow> bool" where
  "api_newest k s' r ms \<longleftrightarrow>
     (\<exists>dp st c auth page s. db_ok s \<and> call_ok db_ok (db_steps k) c \<and> as_store st = sqlite_store k \<and>
        pg_after_seq page = None \<and> pg_before_seq page = None \<and>
        messages_list dp st c auth (Inr (room_id_get r)) (Inr page) s = (s', Ok (respond 200 (MessagesBody ms))))"

definition api_page :: "caps \<Rightarrow> db \<Rightarrow> room_id \<Rightarrow> seq \<Rightarrow> message list \<Rightarrow> bool" where
  "api_page k s' r a ms \<longleftrightarrow>
     (\<exists>dp st c auth page s. db_ok s \<and> call_ok db_ok (db_steps k) c \<and> as_store st = sqlite_store k \<and>
        pg_after_seq page = Some (seq_get a) \<and> pg_before_seq page = None \<and>
        messages_list dp st c auth (Inr (room_id_get r)) (Inr page) s = (s', Ok (respond 200 (MessagesBody ms))))"

lemma last_n_nonempty: "0 < n \<Longrightarrow> last_n n xs = [] \<longleftrightarrow> xs = []"
  by (cases xs) (auto simp: last_n_def)

lemma respond_body_inj: "respond a (MessagesBody ms) = respond b (MessagesBody ns) \<longleftrightarrow> a = b \<and> ms = ns"
  by (auto simp: respond_def)

interpretation api_log: message_log db_ok "db_steps k" room_log "api_newest k" "api_page k" for k
proof (unfold_locales, goal_cases)
  case (5 s' r ms)
  then obtain dp st c auth page s where *: "db_ok s" "call_ok db_ok (db_steps k) c" "as_store st = sqlite_store k"
    "pg_after_seq page = None" "pg_before_seq page = None"
    "messages_list dp st c auth (Inr (room_id_get r)) (Inr page) s = (s', Ok (respond 200 (MessagesBody ms)))"
    unfolding api_newest_def by blast
  then have ms: "ms = last_n (unat (page_limit page)) (room_log s' r)"
    using sqlite.messages_list_page [OF *(1-3,6)] by (auto simp: respond_body_inj)
  then show ?case
    using page_limit_bounds(1) [of page] last_n_nonempty [of "unat (page_limit page)" "room_log s' r"]
    by (intro exI [of _ "length (room_log s' r) - unat (page_limit page)"]) (simp add: last_n_def [symmetric])
next
  case (6 s' r a ms)
  then obtain dp st c auth page s where *: "db_ok s" "call_ok db_ok (db_steps k) c" "as_store st = sqlite_store k"
    "pg_after_seq page = Some (seq_get a)" "pg_before_seq page = None"
    "messages_list dp st c auth (Inr (room_id_get r)) (Inr page) s = (s', Ok (respond 200 (MessagesBody ms)))"
    unfolding api_page_def by blast
  then have "ms = take (unat (page_limit page)) (beyond a (room_log s' r))"
    using sqlite.messages_list_page [OF *(1-3,6)] by (auto simp: respond_body_inj)
  then show ?case using page_limit_bounds(1) [of page] by (intro exI [of _ "unat (page_limit page)"]) simp
qed (auto dest: db_steps_ok room_log_extends intro: room_log_sorted room_log_positive)

end
