(* ===== verification/Server_Properties.thy ===== *)
theory Server_Properties
  imports Server_Laws Store_Properties
begin

text \<open>
  What the server promises over HTTP: who may call what, what registering and logging in mean for
  each other, what a page and a posted message are, and what any sequence of requests leaves in the
  database.
\<close>

section \<open>A concrete server\<close>

text \<open>
  Libraries with the documented behaviour, for the concrete instances: a password is its own hash,
  and a token is the subject, a dot and the expiry.
\<close>

definition demo_deps :: deps where
  "demo_deps =
     \<lparr>salt_encode = (\<lambda>_. Inr (lit ''salt'')),
      argon_hash = (\<lambda>pw _. Inr pw),
      argon_parses = (\<lambda>_. True),
      argon_verifies = (\<lambda>pw h. pw = h),
      jwt_encode = (\<lambda>c _. if list_all (\<lambda>x. is_ascii_graphic x \<and> x \<noteq> 46) (claim_sub c)
        then Inr (claim_sub c @ 46 # dec (unat (claim_exp c)))
        else Inl (OtherJwtError (lit ''not encodable''))),
      jwt_decode = (\<lambda>t _ leeway clk. case split_once (\<lambda>x. x = 46) t of
          None \<Rightarrow> Inl (OtherJwtError (lit ''InvalidToken''))
        | Some (sub, e) \<Rightarrow>
            if int (undec e) < clk - int leeway then Inl ExpiredSignature
            else Inr \<lparr>claim_sub = sub, claim_exp = of_nat (undec e)\<rparr>),
      header_to_str = (\<lambda>h. if list_all (\<lambda>b. 32 \<le> b \<and> b \<le> 126) h then Some h else None)\<rparr>"

lemma demo_argon_ok: "argon_ok demo_deps"
  by (simp add: argon_ok_def demo_deps_def)

lemma demo_jwt_ok: "jwt_ok demo_deps"
  by (auto simp: jwt_ok_def demo_deps_def list_all_iff split_once_append uint_nat [symmetric])

lemma demo_token_text_ok: "token_text_ok demo_deps"
  by (auto simp: token_text_ok_def demo_deps_def list_all_iff is_ascii_graphic_def dest: dec_digits)

lemma as_bytes_ascii: "list_all (\<lambda>c. c < 128) s \<Longrightarrow> as_bytes s = s"
  by (induction s) (simp_all add: utf8_char.simps)

lemma demo_header_ok: "header_ok demo_deps"
  unfolding header_ok_def
proof (intro allI impI)
  fix s assume s: "list_all (\<lambda>c. is_ascii_graphic c \<or> c = 32) s"
  then have "as_bytes s = s"
    by (intro as_bytes_ascii) (auto simp: list_all_iff is_ascii_graphic_def)
  then show "header_to_str demo_deps (as_bytes s) = Some s"
    using s by (auto simp: demo_deps_def list_all_iff is_ascii_graphic_def)
qed

definition demo_config :: config where
  "demo_config = \<lparr>cfg_transport = Tcp, cfg_listen = \<lparr>sa_ip = V4 127 0 0 1, sa_port = 8080\<rparr>, cfg_data_dir = lit ''data'',
     cfg_max_accounts = 2, cfg_max_rooms = 2, cfg_max_message_bytes = 8, cfg_token_expiry_days = 1,
     cfg_endhost_api = None, cfg_auth_token_file = None, cfg_auth_api_key_file = None, cfg_aa_url = []\<rparr>"

definition demo_server :: "db app_state" where
  "demo_server = \<lparr>as_store = sqlite_store demo_caps, as_tokens = tokens_new [7] (token_validity demo_config),
     as_config = demo_config\<rparr>"

definition demo_call :: "int \<Rightarrow> db call" where
  "demo_call ns = \<lparr>call_clock = ns, call_salt = [1], call_absent = [2], call_env = calm_env ns,
     call_env2 = calm_env ns, call_meanwhile = id\<rparr>"

lemma demo_call_ok: "call_ok db_ok (db_steps k) (demo_call ns)"
  by (simp add: call_ok_def demo_call_def calm_env_ok)

section \<open>Who may call what\<close>

fun protected :: "endpoint \<Rightarrow> bool" where
  "protected RoomsE = True"
| "protected (MessagesE _) = True"
| "protected _ = False"



section \<open>Registering and logging in\<close>

lemma login_LoginBody:
  assumes "login dp st c (Inr b) s = (s', Ok x)"
  shows "\<exists>t e. issue dp (as_tokens st) (call_clock c) (log_username b) = Ok (t, e) \<and>
    x = respond 200 (LoginBody \<lparr>lr_token = t, lr_expires_at = e\<rparr>)"
  using assms by (auto simp: login_def try_res_def res_simps split: result.splits if_splits prod.splits)

lemma ms_of_seconds: "(a :: int) div 1000000 div 1000 = a div 1000000000"
  by (simp flip: div_mult2_eq)

lemma issued_token_accepted:
  assumes "jwt_ok dp" and "header_ok dp" and "token_text_ok dp" and i: "issue dp tk ns u = Ok (t, e)"
    and "uint (tok_validity tk) < 2 ^ 50" and "ns < 2 ^ 70"
  shows "later div 1000000 < uint (millis_get e) \<Longrightarrow> authenticated dp tk later (Some (bearer_header t)) = Ok u"
    and "uint (millis_get e) + 1000 \<le> later div 1000000 \<Longrightarrow>
      authenticated dp tk later (Some (bearer_header t)) = Err expired_token"
    and "list_all is_ascii_graphic t"
proof -
  let ?E = "ns + uint (tok_validity tk) * 1000000000"
  have e: "uint (millis_get e) = ?E div 1000000" by (rule issue_expiry [OF i assms(5,6)])
  show graphic: "list_all is_ascii_graphic t"
    using i assms(3) by (auto simp: issue_def res_simps token_text_ok_def)
  then have "bearer_token dp (Some (bearer_header t)) = Some t"
    by (rule bearer_token_header [OF assms(2)])
  then have "authenticated dp tk later (Some (bearer_header t)) =
      (if ?E div 1000000000 < later div 1000000000 then Err expired_token else Ok u)"
    using issue_then_verify [OF assms(1) i, of later] by (simp add: authenticated_def)
  moreover have "\<not> ?E div 1000000000 < later div 1000000000" if "later div 1000000 < ?E div 1000000"
    using that zdiv_mono1 [of "later div 1000000" "?E div 1000000" 1000] by (simp add: ms_of_seconds not_less)
  moreover have "?E div 1000000000 < later div 1000000000" if "?E div 1000000 + 1000 \<le> later div 1000000"
    using that zdiv_mono1 [of "?E div 1000000 + 1000" "later div 1000000" 1000] by (simp add: ms_of_seconds)
  ultimately show "later div 1000000 < uint (millis_get e) \<Longrightarrow> authenticated dp tk later (Some (bearer_header t)) = Ok u"
    "uint (millis_get e) + 1000 \<le> later div 1000000 \<Longrightarrow>
      authenticated dp tk later (Some (bearer_header t)) = Err expired_token"
    by (simp_all add: e)
qed

text \<open>C21: The token a login returns authenticates exactly the name logged in with, at every request
  that sends it until the expiry the login announced, and never from a second past that expiry on,
  when the answer says it expired.\<close>

theorem login_token_accepted:
  assumes "jwt_ok dp" and "header_ok dp" and "token_text_ok dp"
    and "login dp st c (Inr b) s = (s', Ok x)" and "rs_body x = LoginBody lr"
    and "uint (tok_validity (as_tokens st)) < 2 ^ 50" and "call_clock c < 2 ^ 70"
  shows "(later div 1000000 < uint (millis_get (lr_expires_at lr)) \<longrightarrow>
       authenticated dp (as_tokens st) later (Some (bearer_header (lr_token lr))) = Ok (log_username b)) \<and>
    (uint (millis_get (lr_expires_at lr)) + 1000 \<le> later div 1000000 \<longrightarrow>
       authenticated dp (as_tokens st) later (Some (bearer_header (lr_token lr))) = Err expired_token)"
proof -
  obtain t e where i: "issue dp (as_tokens st) (call_clock c) (log_username b) = Ok (t, e)"
    and "x = respond 200 (LoginBody \<lparr>lr_token = t, lr_expires_at = e\<rparr>)"
    using login_LoginBody [OF assms(4)] by blast
  then have "lr_token lr = t" "lr_expires_at lr = e" using assms(5) by (auto simp: respond_def)
  then show ?thesis using issued_token_accepted(1,2) [OF assms(1-3) i assms(6,7)] by simp
qed

text \<open>A database with one account whose hash the demo libraries made, and a login to it.\<close>

definition demo_login :: login_request where
  "demo_login = \<lparr>log_username = lit ''ann'', log_password = lit ''h''\<rparr>"

lemma demo_login_run:
  "login demo_deps demo_server (demo_call 5000000000) (Inr demo_login) demo_db =
     (demo_db, Ok (respond 200 (LoginBody \<lparr>lr_token = lit ''ann.86405'', lr_expires_at = UnixMillis 86405000\<rparr>)))"
  by (simp add: login_def demo_login_def demo_server_def sqlite_store_def stored_hash_def run_stmt_def
      demo_call_def calm_env_def demo_find [simplified] verify_password_def demo_deps_def joined_def
      issue_def tokens_new_def token_validity_def demo_config_def expires_at_ns_def dec.simps is_ascii_graphic_def
      utf8_char.simps)

corollary login_token_accepted_witness:
  "authenticated demo_deps (as_tokens demo_server) 6000000000 (Some (bearer_header (lit ''ann.86405''))) = Ok (lit ''ann'')"
  using login_token_accepted [OF demo_jwt_ok demo_header_ok demo_token_text_ok demo_login_run, of _ 6000000000]
  by (simp add: respond_def demo_server_def tokens_new_def token_validity_def demo_config_def demo_call_def demo_login_def)

text \<open>C20: An account registered with a name and password is there for every later login, under any
  ASCII-case variant of the name and whatever else the store has been through since: the same
  password gets a token, any other is refused as wrong credentials.\<close>

theorem register_then_login:
  assumes "argon_ok dp" and "db_ok s" and "call_ok db_ok (db_steps k) c1" and "as_store st = sqlite_store k"
    and "register dp st c1 (Inr a) s = (s1, Ok x)"
    and "db_steps k s1 s2" and "nocase (log_username b) (reg_username a)" and "fault (call_env c2) 0 = None"
  shows "rs_status x = 201 \<and>
    (as_bytes (log_password b) = as_bytes (reg_password a) \<longrightarrow>
       (\<forall>t e. issue dp (as_tokens st) (call_clock c2) (log_username b) = Ok (t, e) \<longrightarrow>
          login dp st c2 (Inr b) s2 =
            (s2, Ok (respond 200 (LoginBody \<lparr>lr_token = t, lr_expires_at = e\<rparr>))))) \<and>
    (as_bytes (log_password b) \<noteq> as_bytes (reg_password a) \<longrightarrow>
       login dp st c2 (Inr b) s2 = (s2, Err (http_error_new 401 InvalidCredentials
         (lit ''that username and password do not match''))))"
proof -
  obtain h where h: "hash_password dp (call_salt c1) (reg_password a) = Ok h"
      "account_hash s1 (reg_username a) = Some h" and x: "x = respond 201 NoBody"
    using sqlite.register_account [OF assms(2-5)] by auto
  have s1: "db_ok s1"
    using sqlite.register_grows [OF assms(2-5)] db_steps_ok assms(2) by blast
  then have s2: "db_ok s2" using assms(6) db_steps_ok by blast
  have "account_hash s2 (log_username b) = Some h"
    using sqlite.account_grows [OF s1 assms(6) h(2)] account_hash_nocase [OF assms(7)] by simp
  moreover have "is_ok (ds_password_hash (sqlite_store k) (call_env c2) (log_username b) s2)"
    using assms(8) by (simp add: sqlite_store_def stored_hash_def run_stmt_def)
  ultimately show ?thesis
    using sqlite.login_of_account [OF s2 assms(4,1) h(1)] x by (simp add: respond_def)
qed

corollary register_then_login_witness:
  "let s1 = fst (register demo_deps demo_server (demo_call 5000000000)
        (Inr \<lparr>reg_username = lit ''Bob'', reg_password = lit ''pw''\<rparr>) demo_db)
   in login demo_deps demo_server (demo_call 6000000000)
        (Inr \<lparr>log_username = lit ''bob'', log_password = lit ''PW''\<rparr>) s1 =
      (s1, Err (http_error_new 401 InvalidCredentials (lit ''that username and password do not match'')))"
proof -
  let ?a = "\<lparr>reg_username = lit ''Bob'', reg_password = lit ''pw''\<rparr>"
  let ?s1 = "demo_db\<lparr>users := users demo_db @ [\<lparr>u_username = lit ''Bob'', u_pw_hash = lit ''pw'', u_created_at = 5000\<rparr>]\<rparr>"
  have "find_user (lit ''Bob'') demo_db = None"
    by (simp add: find_user_def demo_db_def eq_ignore_ascii_case_def to_ascii_lower_def)
  then have reg: "register demo_deps demo_server (demo_call 5000000000) (Inr ?a) demo_db = (?s1, Ok (respond 201 NoBody))"
    by (simp add: register_def username_parse_def is_control_def demo_deps_def hash_password_def joined_def
        demo_server_def sqlite_store_def insert_user_def insert_user_insert_def demo_call_def calm_env_def
        timestamp_column_Ok i64_max_eq sql_insert_user_def insert_user_classify_def utf8_char.simps)
      (simp add: demo_db_def demo_caps_def)
  have "demo_server = demo_server\<lparr>as_store := sqlite_store demo_caps\<rparr>" by (simp add: demo_server_def)
  then have st: "as_store demo_server = sqlite_store demo_caps" by (simp add: demo_server_def)
  show ?thesis
    using register_then_login [OF demo_argon_ok demo_db_ok demo_call_ok st reg rtranclp.rtrancl_refl,
        of "\<lparr>log_username = lit ''bob'', log_password = lit ''PW''\<rparr>" "demo_call 6000000000"] reg
    by (simp add: eq_ignore_ascii_case_def to_ascii_lower_def demo_call_def calm_env_def utf8_char.simps)
qed

text \<open>C37: A login to a name nobody holds is answered exactly as a login with a wrong password, so the
  answer does not tell which names are registered.\<close>

theorem login_refusals_alike:
  assumes "argon_ok dp" and "db_ok s" and "as_store st = sqlite_store k" and "fault (call_env c) 0 = None"
    and "account_hash s (log_username unknown) = None" and "absent_account dp (call_absent c) = Ok absent"
    and "account_hash s (log_username wrong) = Some h" and "hash_password dp salt pw = Ok h"
    and "as_bytes (log_password wrong) \<noteq> as_bytes pw"
  shows "login dp st c (Inr unknown) s = login dp st c (Inr wrong) s \<and>
    \<not> is_ok (snd (login dp st c (Inr wrong) s)) \<and> fst (login dp st c (Inr wrong) s) = s"
proof -
  have ok: "is_ok (ds_password_hash (sqlite_store k) (call_env c) n s)" for n
    using assms(4) by (simp add: sqlite_store_def stored_hash_def run_stmt_def)
  show ?thesis
    using sqlite.login_unknown [OF assms(2,3,5) ok assms(6)]
      sqlite.login_of_account [OF assms(2,3,1,8,7) ok] assms(9) by simp
qed

corollary login_refusals_alike_witness:
  "login demo_deps demo_server (demo_call 0) (Inr \<lparr>log_username = lit ''bob'', log_password = lit ''h''\<rparr>) demo_db =
   login demo_deps demo_server (demo_call 0) (Inr \<lparr>log_username = lit ''ann'', log_password = lit ''x''\<rparr>) demo_db"
proof -
  have "absent_account demo_deps (call_absent (demo_call 0)) =
      Ok (PasswordHash (as_bytes (lit ''a password no account has'')))"
    by (simp add: absent_account_def hash_password_def demo_deps_def)
  moreover have "hash_password demo_deps [] (lit ''h'') = Ok (PasswordHash (lit ''h''))"
    by (simp add: hash_password_def demo_deps_def utf8_char.simps)
  ultimately show ?thesis
    using login_refusals_alike [OF demo_argon_ok demo_db_ok, of demo_server demo_caps "demo_call 0"
        "\<lparr>log_username = lit ''bob'', log_password = lit ''h''\<rparr>" _
        "\<lparr>log_username = lit ''ann'', log_password = lit ''x''\<rparr>" "PasswordHash (lit ''h'')" "[]" "lit ''h''"]
    by (simp add: demo_server_def demo_call_def calm_env_def account_hash_def demo_find [simplified] utf8_char.simps)
qed

section \<open>Messages over HTTP\<close>

text \<open>C23: A post that is accepted put exactly one message at the end of that room's log, in the
  verified caller's name, not empty and within the size the server announces; a post that is not
  accepted stored nothing, and the refusal for size is given exactly to an authenticated,
  well-formed body of more UTF-8 bytes than the limit.\<close>

theorem post_effects:
  assumes "db_ok s" and "call_ok db_ok (db_steps k) c" and "as_store st = sqlite_store k"
    and "messages_post dp st c auth (Inr room) body s = (s', r)"
  shows "case r of
      Ok x \<Rightarrow> \<exists>u b p. authenticated dp (as_tokens st) (call_clock c) auth = Ok u \<and> body = Inr b \<and>
        x = respond 201 (PostedBody p) \<and> 0 < str_len (pm_body b) \<and>
        str_len (pm_body b) \<le> unat (cfg_max_message_bytes (as_config st)) \<and> room_known s (RoomId room) \<and>
        room_log s' (RoomId room) = room_log s (RoomId room) @
          [\<lparr>msg_seq = pr_seq p, msg_username = u, msg_body = pm_body b, msg_posted_at = pr_posted_at p\<rparr>] \<and>
        (\<forall>other. other \<noteq> RoomId room \<longrightarrow> room_log s' other = room_log s other)
    | Err e \<Rightarrow> s' = s \<and> (he_status e = 413 \<longleftrightarrow> is_ok (authenticated dp (as_tokens st) (call_clock c) auth) \<and>
        (\<exists>b. body = Inr b \<and> unat (cfg_max_message_bytes (as_config st)) < str_len (pm_body b)))
    | Panic _ \<Rightarrow> s' = s"
  using assms(4)
proof (cases rule: messages_post_cases)
  case refused
  show ?thesis
  proof (cases "authenticated dp (as_tokens st) (call_clock c) auth")
    case (Ok u)
    show ?thesis
    proof (cases body)
      case (Inl t)
      then show ?thesis using assms(4) Ok
        by (auto simp: messages_post_def of_json_rejection_def http_error_new_def)
    next
      case (Inr b)
      then show ?thesis using assms(4) Ok refused
        by (auto simp: messages_post_def Let_def http_error_new_def not_le split: if_splits)
    qed
  next
    case (Err e)
    then have "r = Err e \<and> he_status e = 401 \<and> s' = s"
      using assms(4) authenticated_Err [OF Err]
      by (auto simp: messages_post_def unauthorized_def expired_token_def http_error_new_def)
    then show ?thesis using Err by simp
  qed simp
next
  case (stored u room' b q)
  have run: "post_message (call_env c) (RoomId room) u (pm_body b) s = (s', q)"
    using stored(2,6) assms(3) by (simp add: sqlite_store_def)
  have env: "env_ok (call_env c)" using assms(2) by (simp add: call_ok_def)
  show ?thesis
  proof (cases q)
    case (Ok p)
    have "room_log s' other = room_log s other" if "other \<noteq> RoomId room" for other
      using post_message_appends(3) [OF assms(1) env run [unfolded Ok] that] .
    moreover have "0 < str_len (pm_body b)" using stored(4) by (simp flip: neq0_conv)
    ultimately have "case Ok (respond 201 (PostedBody p)) of
      Ok x \<Rightarrow> \<exists>u b p. authenticated dp (as_tokens st) (call_clock c) auth = Ok u \<and> body = Inr b \<and>
        x = respond 201 (PostedBody p) \<and> 0 < str_len (pm_body b) \<and>
        str_len (pm_body b) \<le> unat (cfg_max_message_bytes (as_config st)) \<and> room_known s (RoomId room) \<and>
        room_log s' (RoomId room) = room_log s (RoomId room) @
          [\<lparr>msg_seq = pr_seq p, msg_username = u, msg_body = pm_body b, msg_posted_at = pr_posted_at p\<rparr>] \<and>
        (\<forall>other. other \<noteq> RoomId room \<longrightarrow> room_log s' other = room_log s other)
      | _ \<Rightarrow> False"
      using stored(1,3,5) post_message_steps(3) [OF assms(1) env run [unfolded Ok]]
      unfolding result.case by blast
    then show ?thesis using stored(7) Ok by simp
  next
    case (Err e)
    then have "he_status (of_store_error e) \<noteq> 413"
      by (cases e) (simp_all add: room_not_found_def internal_def http_error_new_def)
    then show ?thesis
      using Err stored(1,3,5,7) post_message_steps(2) [OF assms(1) env run] by simp
  qed (use stored(7) post_message_steps(2) [OF assms(1) env run] in simp)
qed

lemma demo_auth: "authenticated demo_deps (as_tokens demo_server) 0 (Some (bearer_header (lit ''ann.5''))) = Ok (lit ''ann'')"
proof -
  have "bearer_token demo_deps (Some (bearer_header (lit ''ann.5''))) = Some (lit ''ann.5'')"
    by (rule bearer_token_header [OF demo_header_ok]) (simp add: is_ascii_graphic_def)
  then show ?thesis
    by (simp add: authenticated_def verify_def) (simp add: demo_deps_def undec_def)
qed

corollary post_effects_witness:
  "\<exists>s'. messages_post demo_deps demo_server (demo_call 0) (Some (bearer_header (lit ''ann.5''))) (Inr 1)
      (Inr \<lparr>pm_body = lit ''123456789''\<rparr>) demo_db = (s', Err (http_error_new 413 MessageTooLarge
        (lit ''a message body is at most 8 bytes''))) \<and> s' = demo_db"
proof -
  have run: "messages_post demo_deps demo_server (demo_call 0) (Some (bearer_header (lit ''ann.5''))) (Inr 1)
      (Inr \<lparr>pm_body = lit ''123456789''\<rparr>) demo_db = (demo_db, Err (http_error_new 413 MessageTooLarge
        (lit ''a message body is at most 8 bytes'')))"
    using demo_auth
    by (simp add: messages_post_def demo_call_def) (simp add: demo_server_def demo_config_def str_len_def utf8_char.simps dec.simps)
  then show ?thesis
    using post_effects [OF demo_db_ok demo_call_ok _ run] by (simp add: demo_server_def)
qed

text \<open>Reading a room answers 404 for a room that does not exist, and otherwise a page cut from
  its log, oldest first, of at most 200 messages and by default 50: the newest ones, the first
  past the cursor or the last before it. With both cursors it answers 400.\<close>

lemma list_pages:
  assumes "db_ok s" and "call_ok db_ok (db_steps k) c" and "as_store st = sqlite_store k"
    and "is_ok (authenticated dp (as_tokens st) (call_clock c) auth)"
    and "messages_list dp st c auth (Inr room) (Inr page) s = (s', r)"
    and "uint room \<le> i64_max" and "fault (call_env c) 0 = None" and "fault (call_env2 c) 0 = None"
    and "\<forall>n. pg_after_seq page = Some n \<or> pg_before_seq page = Some n \<longrightarrow> uint n \<le> i64_max"
  shows "(case (pg_after_seq page, pg_before_seq page) of
      (Some a, Some b) \<Rightarrow> r = (if room_known s (RoomId room)
        then Err (http_error_new 400 InvalidBody (lit ''after_seq and before_seq cannot be combined''))
        else Err room_not_found)
    | (after, before) \<Rightarrow> r = (if room_known s (RoomId room)
        then Ok (respond 200 (MessagesBody
          (case after of Some a \<Rightarrow> take (unat (page_limit page)) (beyond (Seq a) (room_log s' (RoomId room)))
           | None \<Rightarrow> last_n (unat (page_limit page)) (case before of
               Some b \<Rightarrow> filter (\<lambda>m. msg_seq m < Seq b) (room_log s' (RoomId room))
             | None \<Rightarrow> room_log s' (RoomId room)))))
        else Err room_not_found)) \<and>
    1 \<le> unat (page_limit page) \<and> unat (page_limit page) \<le> 200 \<and>
    (pg_limit page = None \<longrightarrow> page_limit page = 50)"
proof -
  have s1: "db_ok (call_meanwhile c s)"
    using assms(1,2) db_steps_ok by (auto simp: call_ok_def)
  obtain u where u: "authenticated dp (as_tokens st) (call_clock c) auth = Ok u"
    using assms(4) by (auto simp: is_ok_iff)
  have ex: "ds_room_exists (as_store st) (call_env c) (RoomId room) s = Ok (room_known s (RoomId room))"
    using assms(3,6,7) by (simp add: sqlite_store_def room_exists_eq)
  have reads:
    "ds_messages_newest (as_store st) (call_env2 c) (RoomId room) n (call_meanwhile c s) =
       Ok (last_n (unat n) (room_log (call_meanwhile c s) (RoomId room)))"
    "uint a \<le> i64_max \<Longrightarrow> ds_messages_after (as_store st) (call_env2 c) (RoomId room) (Seq a) n (call_meanwhile c s) =
       Ok (take (unat n) (beyond (Seq a) (room_log (call_meanwhile c s) (RoomId room))))"
    "uint a \<le> i64_max \<Longrightarrow> ds_messages_before (as_store st) (call_env2 c) (RoomId room) (Seq a) n (call_meanwhile c s) =
       Ok (last_n (unat n) (filter (\<lambda>m. msg_seq m < Seq a) (room_log (call_meanwhile c s) (RoomId room))))" for n a
    using assms(3,6,8) messages_newest_eq [OF s1] messages_after_eq [OF s1] messages_before_eq [OF s1]
    by (simp_all add: sqlite_store_def)
  have "page_limit page = 50" if "pg_limit page = None"
    using that by (simp add: page_limit_def DEFAULT_LIMIT_def MAX_LIMIT_def)
  moreover have "(s', r) = (if room_known s (RoomId room) then
      (call_meanwhile c s, case (pg_after_seq page, pg_before_seq page) of
        (Some _, Some _) \<Rightarrow> Err (http_error_new 400 InvalidBody (lit ''after_seq and before_seq cannot be combined''))
      | (Some a, None) \<Rightarrow> Ok (respond 200 (MessagesBody (take (unat (page_limit page)) (beyond (Seq a) (room_log (call_meanwhile c s) (RoomId room))))))
      | (None, Some b) \<Rightarrow> Ok (respond 200 (MessagesBody (last_n (unat (page_limit page)) (filter (\<lambda>m. msg_seq m < Seq b) (room_log (call_meanwhile c s) (RoomId room))))))
      | (None, None) \<Rightarrow> Ok (respond 200 (MessagesBody (last_n (unat (page_limit page)) (room_log (call_meanwhile c s) (RoomId room))))))
      else (s, Err room_not_found))"
    using assms(5,9) u ex reads by (auto simp: messages_list_def Let_def split: option.splits)
  ultimately show ?thesis
    using page_limit_bounds [of page]
    by (cases "pg_after_seq page"; cases "pg_before_seq page") (auto split: if_splits)
qed

corollary list_pages_witness:
  "snd (messages_list demo_deps demo_server (demo_call 0) (Some (bearer_header (lit ''ann.5''))) (Inr 9)
      (Inr \<lparr>pg_limit = None, pg_after_seq = Some 1, pg_before_seq = None\<rparr>) demo_db) = Err room_not_found"
proof -
  obtain s' r where run: "messages_list demo_deps demo_server (demo_call 0) (Some (bearer_header (lit ''ann.5''))) (Inr 9)
      (Inr \<lparr>pg_limit = None, pg_after_seq = Some 1, pg_before_seq = None\<rparr>) demo_db = (s', r)" by fastforce
  have st: "as_store demo_server = sqlite_store demo_caps" by (simp add: demo_server_def)
  have "is_ok (authenticated demo_deps (as_tokens demo_server) (call_clock (demo_call 0)) (Some (bearer_header (lit ''ann.5''))))"
    using demo_auth by (simp add: demo_call_def)
  moreover have "\<not> room_known demo_db (RoomId 9)" by (simp add: room_known_def demo_db_def)
  ultimately show ?thesis
    using list_pages [OF demo_db_ok demo_call_ok st _ run] run
    by (simp add: i64_max_eq demo_call_def calm_env_def)
qed

section \<open>Sequences of requests\<close>

fun serve_all :: "deps \<Rightarrow> axum \<Rightarrow> rstr \<Rightarrow> 's app_state \<Rightarrow> ('s call \<times> request) list \<Rightarrow> 's \<Rightarrow> 's" where
  "serve_all dp ax version st [] s = s"
| "serve_all dp ax version st ((c, rq) # rest) s =
     serve_all dp ax version st rest (fst (router dp ax version st c rq s))"

lemma router_steps:
  assumes "db_ok s" and "call_ok db_ok (db_steps k) c" and "as_store st = sqlite_store k"
  shows "db_steps k s (fst (router dp ax version st c rq s))"
proof -
  obtain s' r where "router dp ax version st c rq s = (s', r)" by fastforce
  then show ?thesis using sqlite.router_grows [OF assms] by simp
qed

lemma serve_all_steps:
  "db_ok s \<Longrightarrow> list_all (\<lambda>(c, rq). call_ok db_ok (db_steps k) c) calls \<Longrightarrow> as_store st = sqlite_store k \<Longrightarrow>
     db_steps k s (serve_all dp ax version st calls s)"
proof (induction calls arbitrary: s)
  case (Cons a calls)
  obtain c rq where a: "a = (c, rq)" by fastforce
  have step: "db_steps k s (fst (router dp ax version st c rq s))"
    using Cons.prems router_steps by (simp add: a)
  then have "db_ok (fst (router dp ax version st c rq s))" using db_steps_ok Cons.prems(1) by blast
  then have "db_steps k (fst (router dp ax version st c rq s)) (serve_all dp ax version st (a # calls) s)"
    using Cons by (simp add: a)
  with step show ?case by (rule rtranclp_trans)
qed simp

text \<open>C7: Whatever requests arrive, in whatever order, with whatever faults and whatever other
  connections write between the statements of a call, the server's database stays well-formed, never loses an account, a room or
  a message, never exceeds its caps, and every room's log only grows at its end.\<close>

theorem server_runs_safe:
  assumes "db_ok s" and "list_all (\<lambda>(c, rq). call_ok db_ok (db_steps k) c) calls"
    and "as_store st = sqlite_store k" and "s' = serve_all dp ax version st calls s"
    and "length (users s) \<le> unat (cap_accounts k)" and "length (rooms s) \<le> unat (cap_rooms k)"
  shows "db_ok s' \<and> extends s s' \<and> (\<forall>r. \<exists>more. room_log s' r = room_log s r @ more) \<and>
    length (users s') \<le> unat (cap_accounts k) \<and> length (rooms s') \<le> unat (cap_rooms k)"
proof -
  have steps: "db_steps k s s'" using serve_all_steps [OF assms(1-3)] assms(4) by simp
  then have ok: "db_ok s' \<and> extends s s'" using db_steps_ok assms(1) by blast
  have "int (length (users s)) \<le> uint (cap_accounts k)" "int (length (rooms s)) \<le> uint (cap_rooms k)"
    using assms(5,6) by (simp_all only: int_le_uint)
  then have "int (length (users s')) \<le> uint (cap_accounts k)" "int (length (rooms s')) \<le> uint (cap_rooms k)"
    using db_steps_caps [OF steps] by linarith+
  then show ?thesis using ok room_log_extends by (simp only: int_le_uint) blast
qed

text \<open>A concrete \<open>axum\<close>: it refuses every body, path and query with a plain-text answer of its own.\<close>

definition demo_axum :: axum where
  "demo_axum = \<lparr>ax_path_u64 = (\<lambda>_. Inl (respond 400 (ForeignBody (lit ''Invalid URL'')))),
     ax_query_page = (\<lambda>_. Inl (respond 400 (ForeignBody (lit ''Failed to deserialize query string'')))),
     ax_json_register = (\<lambda>_. Inr \<lparr>reg_username = lit ''eve'', reg_password = lit ''pw''\<rparr>),
     ax_json_login = (\<lambda>_. Inl (lit ''no JSON'')), ax_json_create_room = (\<lambda>_. Inl (lit ''no JSON'')),
     ax_json_post = (\<lambda>_. Inl (lit ''no JSON'')), ax_not_found = respond 404 NoBody, ax_not_allowed = respond 405 NoBody\<rparr>"

definition demo_register_request :: request where
  "demo_register_request = \<lparr>rq_method = POST, rq_path = [lit ''api'', lit ''v1'', lit ''register''], rq_query = [],
     rq_authorization = None, rq_body = []\<rparr>"

corollary server_runs_safe_witness:
  "db_ok (serve_all demo_deps demo_axum (lit ''0.1.0'') demo_server
     [(demo_call 0, demo_register_request), (demo_call 0, demo_register_request)] demo_db)"
  using server_runs_safe [OF demo_db_ok _ _ refl, of demo_caps
      "[(demo_call 0, demo_register_request), (demo_call 0, demo_register_request)]" demo_server]
  by (simp add: demo_call_ok demo_server_def demo_caps_def demo_db_def)

section \<open>What is ever stored\<close>

definition content_ok :: "u32 \<Rightarrow> db \<Rightarrow> bool" where
  "content_ok max_bytes d \<longleftrightarrow>
     list_all (\<lambda>u. 1 \<le> length (u_username u) \<and> length (u_username u) \<le> 32 \<and>
        \<not> list_ex is_control (u_username u)) (users d) \<and>
     list_all (\<lambda>r. 1 \<le> length (r_name r) \<and> length (r_name r) \<le> 64 \<and>
        list_all (\<lambda>c. 32 \<le> c \<and> c \<le> 126) (r_name r)) (rooms d) \<and>
     list_all (\<lambda>m. m_body m \<noteq> [] \<and> str_len (m_body m) \<le> unat max_bytes) (messages d)"

lemma username_parse_Ok:
  "username_parse raw = Ok n \<longleftrightarrow> n = raw \<and> 1 \<le> length raw \<and> length raw \<le> 32 \<and> \<not> list_ex is_control raw"
  by (auto simp: username_parse_def Let_def)

lemma room_name_parse_Ok:
  assumes "room_name_parse raw = Ok n"
  shows "n = raw" "1 \<le> length raw" "length raw \<le> 64" "list_all (\<lambda>c. 32 \<le> c \<and> c \<le> 126) raw"
proof -
  have p: "n = raw" "1 \<le> str_len raw" "str_len raw \<le> 64" "list_all (\<lambda>c. is_ascii_graphic c \<or> c = 32) raw"
    using assms by (auto simp: room_name_parse_def Let_def split: if_splits)
  then show "list_all (\<lambda>c. 32 \<le> c \<and> c \<le> 126) raw"
    by (auto simp: list_all_iff is_ascii_graphic_def)
  then have "str_len raw = length raw" by (intro str_len_ascii) (auto simp: list_all_iff)
  with p show "n = raw" "1 \<le> length raw" "length raw \<le> 64" by simp_all
qed

lemma rooms_create_named:
  assumes "rooms_create dp st c auth body s = (s', r)"
  shows "s' = s \<or> (\<exists>n raw q. ds_create_room (as_store st) (call_env c) n s = (s', q) \<and> room_name_parse raw = Ok n)"
proof (cases "\<exists>u b n. authenticated dp (as_tokens st) (call_clock c) auth = Ok u \<and> body = Inr b \<and>
    room_name_parse (cr_name b) = Ok n")
  case True
  then obtain u b n where b: "authenticated dp (as_tokens st) (call_clock c) auth = Ok u" "body = Inr b"
    "room_name_parse (cr_name b) = Ok n" by blast
  obtain s1 q where q: "ds_create_room (as_store st) (call_env c) n s = (s1, q)" by fastforce
  have "s' = s1"
    using assms b q by (auto simp: rooms_create_def split: result.splits room_creation.splits)
  then show ?thesis using q b(3) by blast
next
  case False
  then have "s' = s"
    using assms by (cases body) (auto simp: rooms_create_def try_res_def split: result.splits)
  then show ?thesis by blast
qed

lemma register_content:
  assumes "register dp st c body s = (s', r)" and "as_store st = sqlite_store k" and "content_ok mb s"
  shows "content_ok mb s'"
  using assms(1)
proof (cases rule: register_cases)
  case (stored b h q)
  obtain i where i: "insert_user_insert (call_env c) (cap_accounts k) (reg_username b) h s = (s', i)"
    using stored(4) assms(2) by (auto simp: sqlite_store_def insert_user_def split: prod.splits)
  show ?thesis
    using insert_user_insert_cases [OF i] stored(2) assms(3) by (auto simp: content_ok_def username_parse_Ok)
qed (use assms(3) in simp)

lemma rooms_create_content:
  assumes "rooms_create dp st c auth body s = (s', r)" and "as_store st = sqlite_store k" and "content_ok mb s"
  shows "content_ok mb s'"
proof -
  consider "s' = s" | (stored) n raw q where "ds_create_room (as_store st) (call_env c) n s = (s', q)"
      "room_name_parse raw = Ok n"
    using rooms_create_named [OF assms(1)] by blast
  then show ?thesis
  proof cases
    case stored
    obtain i where i: "create_room_insert (call_env c) (cap_rooms k) n s = (s', i)"
      using stored(1) assms(2) by (auto simp: sqlite_store_def create_room_def split: prod.splits)
    show ?thesis
      using create_room_insert_cases [OF i] room_name_parse_Ok [OF stored(2)] assms(3)
      by (auto simp: content_ok_def)
  qed (use assms(3) in simp)
qed

lemma messages_post_content:
  assumes "messages_post dp st c auth path body s = (s', r)" and "as_store st = sqlite_store k"
    and "content_ok (cfg_max_message_bytes (as_config st)) s"
  shows "content_ok (cfg_max_message_bytes (as_config st)) s'"
  using assms(1)
proof (cases rule: messages_post_cases)
  case (stored u room b q)
  have run: "post_message (call_env c) (RoomId room) u (pm_body b) s = (s', q)"
    using stored(6) assms(2) by (simp add: sqlite_store_def)
  show ?thesis
    using post_message_cases [OF run] stored(4,5) assms(3) by (auto simp: content_ok_def)
qed (use assms(3) in simp)

lemma router_content:
  assumes "as_store st = sqlite_store k" and "content_ok (cfg_max_message_bytes (as_config st)) s"
    and "\<And>s. content_ok (cfg_max_message_bytes (as_config st)) s \<Longrightarrow>
      content_ok (cfg_max_message_bytes (as_config st)) (call_meanwhile c s)"
    and "router dp ax version st c rq s = (s', r)"
  shows "content_ok (cfg_max_message_bytes (as_config st)) s'"
proof -
  let ?ok = "content_ok (cfg_max_message_bytes (as_config st))"
  have d: "?ok s1" if "dispatch dp ax version st c rq e m = Some f" "f s = (s1, q)" for e m f s1 q
    using that register_content [OF _ assms(1,2)] rooms_create_content [OF _ assms(1,2)]
      messages_post_content [OF _ assms(1,2)] messages_list_store login_store rooms_list_store assms(2,3)
    by (fastforce simp: dispatch_def split: endpoint.splits http_method.splits)
  have f: "finish (f s) = (s1, q) \<Longrightarrow> \<exists>q'. f s = (s1, q')" for f s1 q
    by (auto simp: finish_def split: prod.splits result.splits)
  show ?thesis
    using assms(2,4) d f
    by (fastforce simp: router_def Let_def split: option.splits http_method.splits prod.splits)
qed

text \<open>C24: Nothing but what the API's rules allow is ever stored through it: every username is 1 to 32
  characters without control characters, every room name 1 to 64 printable ASCII characters, and
  every message non-empty and within the configured size in UTF-8 bytes.\<close>

theorem server_content_valid:
  assumes "as_store st = sqlite_store k" and "content_ok (cfg_max_message_bytes (as_config st)) s"
    and "list_all (\<lambda>(c, rq). \<forall>d. content_ok (cfg_max_message_bytes (as_config st)) d \<longrightarrow>
      content_ok (cfg_max_message_bytes (as_config st)) (call_meanwhile c d)) calls"
  shows "content_ok (cfg_max_message_bytes (as_config st)) (serve_all dp ax version st calls s)"
  using assms(2,3)
proof (induction calls arbitrary: s)
  case (Cons a calls)
  obtain c rq where a: "a = (c, rq)" by fastforce
  obtain s1 r where run: "router dp ax version st c rq s = (s1, r)" by fastforce
  have "content_ok (cfg_max_message_bytes (as_config st)) s1"
    using router_content [OF assms(1) Cons.prems(1) _ run] Cons.prems(2) by (simp add: a)
  then show ?case using Cons by (simp add: a run)
qed simp

corollary server_content_valid_witness:
  "content_ok 8 (serve_all demo_deps demo_axum (lit ''0.1.0'') demo_server
     [(demo_call 0, demo_register_request), (demo_call 0, demo_register_request)] demo_db)"
proof -
  have "content_ok 8 demo_db"
    by (simp add: content_ok_def demo_db_def is_control_def str_len_def utf8_char.simps)
  then show ?thesis
    using server_content_valid [of demo_server demo_caps demo_db
        "[(demo_call 0, demo_register_request), (demo_call 0, demo_register_request)]"]
    by (simp add: demo_server_def demo_config_def demo_call_def)
qed

section \<open>Failures on the wire\<close>

lemma handler_ok_status:
  "register dp st c b1 s = (s', Ok p) \<Longrightarrow> rs_status p < 400"
  "login dp st c b2 s = (s', Ok p) \<Longrightarrow> rs_status p < 400"
  "rooms_list dp st c auth s = (s', Ok p) \<Longrightarrow> rs_status p < 400"
  "rooms_create dp st c auth b3 s = (s', Ok p) \<Longrightarrow> rs_status p < 400"
  "messages_list dp st c auth path query s = (s', Ok p) \<Longrightarrow> rs_status p < 400 \<or> path = Inl p \<or> query = Inl p"
  "messages_post dp st c auth path b4 s = (s', Ok p) \<Longrightarrow> rs_status p < 400 \<or> path = Inl p"
proof -
  show "rs_status p < 400" if run: "register dp st c b1 s = (s', Ok p)"
    using run
  proof (cases rule: register_cases)
    case (stored b h q)
    then show ?thesis using stored(6) [OF refl] by (simp add: respond_def)
  qed simp
  show "login dp st c b2 s = (s', Ok p) \<Longrightarrow> rs_status p < 400"
    by (cases b2) (auto simp: login_def dest!: login_LoginBody [rotated] simp: respond_def try_res_def split: result.splits if_splits prod.splits)
  show "rooms_list dp st c auth s = (s', Ok p) \<Longrightarrow> rs_status p < 400"
    by (auto simp: rooms_list_def try_res_def respond_def split: result.splits)
  show "rooms_create dp st c auth b3 s = (s', Ok p) \<Longrightarrow> rs_status p < 400"
    by (auto simp: rooms_create_def try_res_def respond_def created_def split: result.splits prod.splits room_creation.splits)
  show "messages_list dp st c auth path query s = (s', Ok p) \<Longrightarrow> rs_status p < 400 \<or> path = Inl p \<or> query = Inl p"
    by (auto simp: messages_list_def try_res_def Let_def respond_def split: result.splits sum.splits if_splits)
  show "messages_post dp st c auth path b4 s = (s', Ok p) \<Longrightarrow> rs_status p < 400 \<or> path = Inl p"
    by (auto elim!: messages_post_cases simp: respond_def split: result.splits)
qed

definition known_error :: "http_error \<Rightarrow> bool" where
  "known_error e \<longleftrightarrow> error_code_parse (error_code_wire (he_code e)) = he_code e \<and>
     (he_status e = 500 \<longrightarrow> e = internal)"

lemma known_errors:
  "known_error unauthorized" "known_error expired_token" "known_error internal" "known_error room_not_found"
  "known_error (of_store_error x)" "known_error (of_auth_error y)" "known_error (of_json_rejection t)"
  "(\<And>w. code \<noteq> Other w) \<Longrightarrow> n \<noteq> 500 \<Longrightarrow> known_error (http_error_new n code t)"
  unfolding known_error_def
  by (simp_all add: unauthorized_def expired_token_def internal_def room_not_found_def of_auth_error_def
      of_json_rejection_def http_error_new_def error_code_parse_known del: error_code_wire.simps)
    (cases x; simp add: room_not_found_def internal_def http_error_new_def error_code_parse_known del: error_code_wire.simps)

definition known_res :: "'s \<times> (http_error, 'a) result \<Rightarrow> bool" where
  "known_res x \<longleftrightarrow> (case snd x of Err e \<Rightarrow> known_error e | _ \<Rightarrow> True)"

lemma known_res_simps [simp]:
  "known_res (s, Ok a)" "known_res (s, Panic p)" "known_res (s, Err e) \<longleftrightarrow> known_error e"
  by (simp_all add: known_res_def)

lemma known_res_try:
  "(\<And>e. r = Err e \<Longrightarrow> known_error e) \<Longrightarrow> (\<And>a. r = Ok a \<Longrightarrow> known_res (f a s)) \<Longrightarrow> known_res (try_res r f s)"
  by (cases r) auto

lemma known_sources:
  "map_err of_store_error r1 = Err e \<Longrightarrow> known_error e"
  "map_err of_auth_error r2 = Err e \<Longrightarrow> known_error e"
  "of_sum of_json_rejection r3 = Err e \<Longrightarrow> known_error e"
  "authenticated dp tk t h = Err e \<Longrightarrow> known_error e"
  "username_parse raw = Err e \<Longrightarrow> known_error e"
  "room_name_parse raw = Err e \<Longrightarrow> known_error e"
proof -
  show "map_err of_store_error r1 = Err e \<Longrightarrow> known_error e"
    using known_errors(5) by (cases r1) auto
  show "map_err of_auth_error r2 = Err e \<Longrightarrow> known_error e"
    using known_errors(6) by (cases r2) auto
  show "of_sum of_json_rejection r3 = Err e \<Longrightarrow> known_error e"
    using known_errors(7) by (cases r3) auto
  show "authenticated dp tk t h = Err e \<Longrightarrow> known_error e"
    using authenticated_Err known_errors(1,2) by blast
  show "username_parse raw = Err e \<Longrightarrow> known_error e"
    using known_errors(8) by (auto simp: username_parse_def Let_def split: if_splits)
  show "room_name_parse raw = Err e \<Longrightarrow> known_error e"
    using known_errors(8) by (auto simp: room_name_parse_def Let_def split: if_splits)
qed

lemma register_known: "known_res (register dp st c b s)"
  unfolding register_def
  by (intro known_res_try) (auto intro: known_sources known_errors split: prod.split result.split registration.split)

lemma login_known: "known_res (login dp st c b s)"
  unfolding login_def
  by (intro known_res_try) (auto intro!: known_res_try intro: known_sources known_errors split: prod.split)

lemma rooms_list_known: "known_res (rooms_list dp st c auth s)"
  unfolding rooms_list_def
  by (intro known_res_try) (auto intro: known_sources)

lemma rooms_create_known: "known_res (rooms_create dp st c auth b s)"
  unfolding rooms_create_def
  by (intro known_res_try) (auto intro: known_sources known_errors split: prod.split result.split room_creation.split)

lemma messages_list_known: "known_res (messages_list dp st c auth path query s)"
  unfolding messages_list_def Let_def
  by (intro known_res_try)
    (auto intro!: known_res_try simp: known_errors dest: known_sources split: sum.split option.splits)

lemma messages_post_known: "known_res (messages_post dp st c auth path b s)"
  unfolding messages_post_def Let_def
  by (intro known_res_try)
    (auto intro!: known_res_try simp: known_errors dest: known_sources split: sum.split prod.split result.split)

lemma dispatch_known:
  "dispatch dp ax version st c rq e m = Some f \<Longrightarrow> known_res (f s)"
  by (auto simp: dispatch_def register_known login_known rooms_list_known rooms_create_known
      messages_list_known messages_post_known split: endpoint.splits http_method.splits)

lemma dispatch_ok_status:
  "dispatch dp ax version st c rq e m = Some f \<Longrightarrow> f s = (s', Ok p) \<Longrightarrow>
     rs_status p < 400 \<or> (\<exists>i. ax_path_u64 ax i = Inl p) \<or> ax_query_page ax (rq_query rq) = Inl p"
  by (auto simp: dispatch_def healthz_def server_info_def respond_def
      dest!: handler_ok_status split: endpoint.splits http_method.splits)



section \<open>Server metadata\<close>

text \<open>The token lifetime \<open>/server\<close> announces is the configured number of days in seconds, or the
  largest 32-bit number when it does not fit, which happens from 49711 days on.\<close>

lemma announced_validity:
  "unat (validity_seconds c) =
     (if unat (cfg_token_expiry_days c) \<le> 49710 then unat (cfg_token_expiry_days c) * 86400 else 2 ^ 32 - 1)"
proof -
  have e: "uint (token_validity c) = int (unat (cfg_token_expiry_days c) * 86400)"
    using token_validity_exact [of c] by (simp only: uint_nat)
  have fits: "int (n * 86400) < 2 ^ 32 \<longleftrightarrow> n \<le> 49710" for n :: nat
    by simp linarith
  show ?thesis
  proof (cases "unat (cfg_token_expiry_days c) \<le> 49710")
    case True
    then have "uint (token_validity c) < 2 ^ 32" unfolding e by (simp only: fits)
    moreover have "unat (ucast (token_validity c) :: u32) = unat (cfg_token_expiry_days c) * 86400"
      using True token_validity_exact [of c] by (simp add: unsigned_ucast_eq take_bit_nat_eq_self_iff)
    ultimately show ?thesis using True by (simp add: validity_seconds_def)
  next
    case False
    then have "\<not> uint (token_validity c) < 2 ^ 32" unfolding e by (simp only: fits not_False_eq_True)
    then show ?thesis using False by (simp add: validity_seconds_def unsigned_minus_1_eq_mask mask_eq_exp_minus_1)
  qed
qed

end
