(* ===== verification/Client.thy ===== *)
theory Client
  imports Message_Log
begin

text \<open>
  \<open>chat-client-core\<close>'s client (crates/chat-client-core/src/error.rs, config.rs and client.rs):
  the configuration, the errors, the session, and every call, each of which is one request through
  a \<open>Transport\<close>. serde\_json and the \<open>http\<close> crate are the argument \<open>codec\<close>; a transport is a
  function over the state of the network, and \<open>meanwhile\<close> is what other tasks sharing the client
  do to its session while a request is on its way.
\<close>

section \<open>Configuration (config.rs)\<close>

datatype snap_token = SnapToken (snap_token_str: rstr)
datatype api_key = ApiKey (api_key_str: rstr)

record api_key_auth =
  ak_key :: api_key
  ak_aa_url :: rstr
  ak_device_id :: rstr

datatype credential = NoCredential | TokenCredential snap_token | ApiKeyCredential api_key_auth

datatype trust = SystemRoots | Pinned rstr | Insecure

record scion_config =
  sc_endhost_api :: rstr
  sc_credential :: credential
  sc_target :: "rstr option"
  sc_trust :: trust

datatype transport_kind = ScionKind scion_config | TcpKind

definition ANAPAYA_AA :: rstr where
  "ANAPAYA_AA = lit ''https://auth.scion.anapaya.net''"

definition DEV_SERVER_URL :: rstr where
  "DEV_SERVER_URL = lit ''http://localhost:8080''"

text \<open>\<open>Url::parse\<close> normalises; what it makes of the two constants is the argument \<open>url\<close>.\<close>

definition api_key_auth_new :: "(rstr \<Rightarrow> rstr) \<Rightarrow> api_key \<Rightarrow> rstr \<Rightarrow> api_key_auth" where
  "api_key_auth_new url key device = \<lparr>ak_key = key, ak_aa_url = url ANAPAYA_AA, ak_device_id = device\<rparr>"

definition default_device_id :: rstr where
  "default_device_id = lit ''chat''"

definition snap_token_debug :: "snap_token \<Rightarrow> rstr" where
  "snap_token_debug t = lit ''SnapToken(<redacted>)''"

definition api_key_debug :: "api_key \<Rightarrow> rstr" where
  "api_key_debug k = lit ''ApiKey(<redacted>)''"

text \<open>A \<open>Duration\<close> is a number of nanoseconds, never negative; \<open>usize\<close> is 64 bits.\<close>

record poll_config =
  pc_messages_interval :: nat
  pc_rooms_interval :: nat
  pc_page_limit :: u64

definition page_size :: "poll_config \<Rightarrow> u64" where
  "page_size p = max (pc_page_limit p) 1"

definition poll_default :: poll_config where
  "poll_default = \<lparr>pc_messages_interval = 2000000000, pc_rooms_interval = 2000000000, pc_page_limit = 50\<rparr>"

record client_config =
  cc_transport :: transport_kind
  cc_server_url :: rstr
  cc_poll :: poll_config

definition client_config_default :: "(rstr \<Rightarrow> rstr) \<Rightarrow> client_config" where
  "client_config_default url =
     \<lparr>cc_transport = TcpKind, cc_server_url = url DEV_SERVER_URL, cc_poll = poll_default\<rparr>"

lemma page_size_pos: "0 < unat (page_size p)"
proof -
  have "1 \<le> page_size p" by (simp add: page_size_def)
  then have "unat (1 :: u64) \<le> unat (page_size p)" by (simp only: word_le_nat_alt)
  then show ?thesis by simp
qed

section \<open>Errors (error.rs)\<close>

datatype transport_error =
    ResolutionErr rstr | ConnectErr rstr | TlsErr rstr | StreamResetErr rstr | TransportProtocol rstr
  | BodyTooLarge nat | TimeoutErr

datatype chat_error =
    ConfigErr rstr | TransportErr transport_error | ApiErr nat error_code rstr
  | ProtocolErr rstr | NotLoggedIn | SessionExpired

section \<open>The libraries and the wire\<close>

type_synonym bytes = "nat list"

datatype client_method = MGet | MPost

record http_request =
  hq_method :: client_method
  hq_uri :: rstr
  hq_content_type :: "rstr option"
  hq_authorization :: "rstr option"
  hq_body :: bytes

record http_reply =
  hr_status :: nat
  hr_body :: bytes

text \<open>
  Encoding and decoding of each body, and whether the \<open>http\<close> crate accepts a request head;
  \<open>Inl\<close> is the library's own words for a refusal.
\<close>

record codec =
  enc_register :: "register_request \<Rightarrow> rstr + bytes"
  enc_login :: "login_request \<Rightarrow> rstr + bytes"
  enc_create_room :: "create_room_request \<Rightarrow> rstr + bytes"
  enc_post :: "post_message_request \<Rightarrow> rstr + bytes"
  dec_ignored :: "bytes \<Rightarrow> rstr + unit"
  dec_login :: "bytes \<Rightarrow> rstr + login_response"
  dec_server :: "bytes \<Rightarrow> rstr + server_info"
  dec_rooms :: "bytes \<Rightarrow> rstr + room list"
  dec_room :: "bytes \<Rightarrow> rstr + room"
  dec_posted :: "bytes \<Rightarrow> rstr + post_message_response"
  dec_messages :: "bytes \<Rightarrow> rstr + message list"
  dec_error :: "bytes \<Rightarrow> rstr + error_response"
  head_fault :: "http_request \<Rightarrow> rstr option"

type_synonym 'n transport_fn = "http_request \<Rightarrow> 'n \<Rightarrow> 'n \<times> (transport_error, http_reply) result"

definition refusal :: "codec \<Rightarrow> nat \<Rightarrow> bytes \<Rightarrow> chat_error" where
  "refusal cd status body =
     (case dec_error cd body of
        Inr envelope \<Rightarrow> ApiErr status (ae_code (er_error envelope)) (ae_message (er_error envelope))
      | Inl error \<Rightarrow> ProtocolErr (dec status @ lit '' carried no error envelope: '' @ error))"

fun lib_res :: "rstr + 'a \<Rightarrow> (chat_error, 'a) result" where
  "lib_res (Inl e) = Err (ProtocolErr e)"
| "lib_res (Inr a) = Ok a"

text \<open>\<open>decode\<close>: an empty success reads as the empty JSON object.\<close>

definition decode :: "(bytes \<Rightarrow> rstr + 'a) \<Rightarrow> bytes \<Rightarrow> (chat_error, 'a) result" where
  "decode d body = lib_res (d (if body = [] then as_bytes (lit ''{}'') else body))"

section \<open>The session (client.rs)\<close>

record session_info =
  sn_username :: rstr
  sn_expires_at :: unix_millis

record session =
  ss_token :: rstr
  ss_info :: session_info

text \<open>The parts of a client that never change, and its session and the network, which do.\<close>

record 'n chat_client =
  cl_transport :: "'n transport_fn"
  cl_server_url :: rstr
  cl_poll :: poll_config
  cl_codec :: codec

record 'n client_state =
  cs_session :: "session option"
  cs_net :: 'n

datatype auth = AuthRequired | AuthNone

definition session_of :: "session option \<Rightarrow> session_info option" where
  "session_of s = map_option ss_info s"

definition token_of :: "session option \<Rightarrow> rstr option" where
  "token_of s = map_option ss_token s"

definition store_session :: "rstr \<Rightarrow> login_response \<Rightarrow> session option \<times> session_info" where
  "store_session username reply =
     (let info = \<lparr>sn_username = username, sn_expires_at = lr_expires_at reply\<rparr>
      in (Some \<lparr>ss_token = lr_token reply, ss_info = info\<rparr>, info))"

definition forget_if_current :: "rstr \<Rightarrow> session option \<Rightarrow> session option" where
  "forget_if_current refused s =
     (case s of Some current \<Rightarrow> if ss_token current = refused then None else s | None \<Rightarrow> s)"

definition logout :: "'n client_state \<Rightarrow> 'n client_state" where
  "logout st = st\<lparr>cs_session := None\<rparr>"

section \<open>One request\<close>

definition trim_end_slash :: "rstr \<Rightarrow> rstr" where
  "trim_end_slash s = trim_end_by (\<lambda>c. c = 47) s"

text \<open>\<open>execute\<close> up to the request handed to the transport, with the token it carries.\<close>

definition prepare ::
  "'n chat_client \<Rightarrow> client_method \<Rightarrow> rstr \<Rightarrow> bytes option \<Rightarrow> auth \<Rightarrow> session option
     \<Rightarrow> (chat_error, http_request \<times> rstr option) result" where
  "prepare cl method path body auth ses =
     (let base = trim_end_slash (cl_server_url cl);
          request = \<lparr>hq_method = method, hq_uri = base @ path,
            hq_content_type = (if body \<noteq> None then Some (lit ''application/json'') else None),
            hq_authorization = None, hq_body = (case body of Some b \<Rightarrow> b | None \<Rightarrow> [])\<rparr>
      in case auth of
           AuthNone \<Rightarrow>
             (case head_fault (cl_codec cl) request of
                Some e \<Rightarrow> Err (ConfigErr e) | None \<Rightarrow> Ok (request, None))
         | AuthRequired \<Rightarrow>
             (case token_of ses of
                None \<Rightarrow> Err NotLoggedIn
              | Some token \<Rightarrow>
                  (let request = request\<lparr>hq_authorization := Some (lit ''Bearer '' @ token)\<rparr>
                   in case head_fault (cl_codec cl) request of
                        Some e \<Rightarrow> Err (ConfigErr e) | None \<Rightarrow> Ok (request, Some token))))"

text \<open>What the reply means, and what it does to the session as it then is.\<close>

definition settle ::
  "codec \<Rightarrow> rstr option \<Rightarrow> (transport_error, http_reply) result \<Rightarrow> session option
     \<Rightarrow> session option \<times> (chat_error, bytes) result" where
  "settle cd sent reply ses =
     (case reply of
        Err e \<Rightarrow> (ses, Err (TransportErr e))
      | Panic p \<Rightarrow> (ses, Panic p)
      | Ok r \<Rightarrow>
          if 200 \<le> hr_status r \<and> hr_status r < 300 then (ses, Ok (hr_body r))
          else
            (case sent of
               Some token \<Rightarrow>
                 if hr_status r = 401 then (forget_if_current token ses, Err SessionExpired)
                 else (ses, Err (refusal cd (hr_status r) (hr_body r)))
             | None \<Rightarrow> (ses, Err (refusal cd (hr_status r) (hr_body r)))))"

definition execute ::
  "'n chat_client \<Rightarrow> (session option \<Rightarrow> session option) \<Rightarrow> client_method \<Rightarrow> rstr \<Rightarrow> bytes option \<Rightarrow> auth
     \<Rightarrow> 'n client_state \<Rightarrow> 'n client_state \<times> (chat_error, bytes) result" where
  "execute cl meanwhile method path body auth st =
     (case prepare cl method path body auth (cs_session st) of
        Err e \<Rightarrow> (st, Err e)
      | Panic p \<Rightarrow> (st, Panic p)
      | Ok (request, sent) \<Rightarrow>
          (let (net', reply) = cl_transport cl request (cs_net st);
               (ses', out) = settle (cl_codec cl) sent reply (meanwhile (cs_session st))
           in (st\<lparr>cs_session := ses', cs_net := net'\<rparr>, out)))"

definition client_get ::
  "'n chat_client \<Rightarrow> (session option \<Rightarrow> session option) \<Rightarrow> (bytes \<Rightarrow> rstr + 'a) \<Rightarrow> rstr \<Rightarrow> auth
     \<Rightarrow> 'n client_state \<Rightarrow> 'n client_state \<times> (chat_error, 'a) result" where
  "client_get cl meanwhile d path auth st =
     (let (st', body) = execute cl meanwhile MGet path None auth st in (st', bind_res body (decode d)))"

definition client_post ::
  "'n chat_client \<Rightarrow> (session option \<Rightarrow> session option) \<Rightarrow> rstr + bytes \<Rightarrow> (bytes \<Rightarrow> rstr + 'a) \<Rightarrow> rstr \<Rightarrow> auth
     \<Rightarrow> 'n client_state \<Rightarrow> 'n client_state \<times> (chat_error, 'a) result" where
  "client_post cl meanwhile encoded d path auth st =
     (case lib_res encoded of
        Ok body \<Rightarrow>
          (let (st', reply) = execute cl meanwhile MPost path (Some body) auth st
           in (st', bind_res reply (decode d)))
      | Err e \<Rightarrow> (st, Err e)
      | Panic p \<Rightarrow> (st, Panic p))"

section \<open>The calls\<close>

definition client_register where
  "client_register cl m username password st =
     client_post cl m (enc_register (cl_codec cl) \<lparr>reg_username = username, reg_password = password\<rparr>)
       (dec_ignored (cl_codec cl)) (lit ''/api/v1/register'') AuthNone st"

text \<open>The session is stored when the reply has been decoded.\<close>

definition client_login ::
  "'n chat_client \<Rightarrow> (session option \<Rightarrow> session option) \<Rightarrow> rstr \<Rightarrow> rstr
     \<Rightarrow> 'n client_state \<Rightarrow> 'n client_state \<times> (chat_error, session_info) result" where
  "client_login cl m username password st =
     (case client_post cl m (enc_login (cl_codec cl) \<lparr>log_username = username, log_password = password\<rparr>)
         (dec_login (cl_codec cl)) (lit ''/api/v1/login'') AuthNone st of
        (st', Ok reply) \<Rightarrow> (let (ses, info) = store_session username reply in (st'\<lparr>cs_session := ses\<rparr>, Ok info))
      | (st', Err e) \<Rightarrow> (st', Err e)
      | (st', Panic p) \<Rightarrow> (st', Panic p))"

definition client_health where
  "client_health cl m st = client_get cl m (dec_ignored (cl_codec cl)) (lit ''/api/v1/healthz'') AuthNone st"

definition client_server_info where
  "client_server_info cl m st = client_get cl m (dec_server (cl_codec cl)) (lit ''/api/v1/server'') AuthNone st"

definition client_rooms where
  "client_rooms cl m st = client_get cl m (dec_rooms (cl_codec cl)) (lit ''/api/v1/rooms'') AuthRequired st"

definition client_create_room where
  "client_create_room cl m name st =
     client_post cl m (enc_create_room (cl_codec cl) \<lparr>cr_name = name\<rparr>) (dec_room (cl_codec cl))
       (lit ''/api/v1/rooms'') AuthRequired st"

definition messages_path :: "room_id \<Rightarrow> rstr" where
  "messages_path room = lit ''/api/v1/rooms/'' @ room_id_display room @ lit ''/messages''"

definition client_send where
  "client_send cl m room body st =
     client_post cl m (enc_post (cl_codec cl) \<lparr>pm_body = body\<rparr>) (dec_posted (cl_codec cl))
       (messages_path room) AuthRequired st"

datatype cursor = NewestC | AfterC seq | BeforeC seq

definition messages_uri :: "room_id \<Rightarrow> u64 \<Rightarrow> cursor \<Rightarrow> rstr" where
  "messages_uri room limit c =
     (let page = messages_path room @ lit ''?limit='' @ dec (unat limit) in
      case c of
        NewestC \<Rightarrow> page
      | AfterC s \<Rightarrow> page @ lit ''&after_seq='' @ seq_display s
      | BeforeC s \<Rightarrow> page @ lit ''&before_seq='' @ seq_display s)"

definition client_messages where
  "client_messages cl m room limit c st =
     client_get cl m (dec_messages (cl_codec cl)) (messages_uri room limit c) AuthRequired st"

end
