(* ===== verification/Client_Feed.thy ===== *)
theory Client_Feed
  imports Client
begin

text \<open>
  The feeds (crates/chat-client-core/src/feed.rs). A call of \<open>next\<close> is cut at its two awaits, the
  wait for the deadline and the fetch, since it can be dropped at either: between them it is a
  point of a step machine, beside the server's log, which grows on its own. Times are nanoseconds
  on the client's monotonic clock.
\<close>

section \<open>One watched room\<close>

datatype since = SinceNewest | SinceAfter seq

record messages_feed =
  mf_room :: room_id
  mf_cursor :: seq
  mf_holding :: "message list"
  mf_catching_up :: bool
  mf_due :: "int option"

text \<open>\<open>watch_room_messages\<close>: what it asks for, and the feed it makes of the reply.\<close>

definition watch_cursor :: "since \<Rightarrow> cursor" where
  "watch_cursor since = (case since of SinceNewest \<Rightarrow> NewestC | SinceAfter s \<Rightarrow> AfterC s)"

definition watch_open :: "u64 \<Rightarrow> room_id \<Rightarrow> since \<Rightarrow> message list \<Rightarrow> messages_feed" where
  "watch_open psize room since holding =
     (let start = (case since of SinceNewest \<Rightarrow> seq_start | SinceAfter s \<Rightarrow> s) in
      \<lparr>mf_room = room,
       mf_cursor = (if holding = [] then start else msg_seq (last holding)),
       mf_holding = holding,
       mf_catching_up = (since \<noteq> SinceNewest \<and> unat psize \<le> length holding),
       mf_due = None\<rparr>)"

text \<open>Where a call of \<open>next\<close> is: not running, waiting for a deadline, or waiting for a fetch.\<close>

datatype feed_point = Idle | Waiting int | Fetching

text \<open>The head of the loop: the deadline is kept if there is one.\<close>

definition next_head :: "int \<Rightarrow> int \<Rightarrow> messages_feed \<Rightarrow> messages_feed \<times> feed_point" where
  "next_head interval clk f =
     (let due = (case mf_due f of
          Some d \<Rightarrow> Some d
        | None \<Rightarrow> if mf_catching_up f then None else Some (clk + interval))
      in (f\<lparr>mf_due := due\<rparr>, (case due of Some d \<Rightarrow> Waiting d | None \<Rightarrow> Fetching)))"

text \<open>The call up to its first await: what is held is handed over at once.\<close>

definition next_start ::
  "int \<Rightarrow> int \<Rightarrow> messages_feed \<Rightarrow> messages_feed \<times> (message list + feed_point)" where
  "next_start interval clk f =
     (if mf_holding f \<noteq> [] then (f\<lparr>mf_holding := []\<rparr>, Inl (mf_holding f))
      else (let (f', p) = next_head interval clk f in (f', Inr p)))"

text \<open>From the settled fetch on: an error or a batch is returned, an empty page goes round again.\<close>

definition next_settle ::
  "u64 \<Rightarrow> int \<Rightarrow> int \<Rightarrow> (chat_error, message list) result \<Rightarrow> messages_feed
     \<Rightarrow> messages_feed \<times> ((chat_error, message list) result + feed_point)" where
  "next_settle psize interval clk fetched f =
     (let f1 = f\<lparr>mf_due := None,
        mf_catching_up := (case fetched of Ok ms \<Rightarrow> unat psize \<le> length ms | _ \<Rightarrow> False)\<rparr>
      in case fetched of
           Ok ms \<Rightarrow>
             if ms \<noteq> [] then (f1\<lparr>mf_cursor := msg_seq (last ms)\<rparr>, Inl (Ok ms))
             else (let (f2, p) = next_head interval clk f1 in (f2, Inr p))
         | _ \<Rightarrow> (f1, Inl fetched))"

section \<open>A feed beside its server\<close>

text \<open>
  \<open>fr_got\<close> is every message handed over so far, in order; \<open>fr_answer\<close> is the reply to the fetch
  under way, once the server has given it; \<open>fr_fetched\<close> is when the last fetch settled, and
  \<open>fr_full\<close> whether it filled its page.
\<close>

record 's feed_run =
  fr_server :: 's
  fr_clock :: int
  fr_feed :: messages_feed
  fr_point :: feed_point
  fr_answer :: "(chat_error, message list) result option"
  fr_got :: "message list"
  fr_fetched :: "int option"
  fr_full :: bool

inductive feed_step ::
  "('s \<Rightarrow> 's \<Rightarrow> bool) \<Rightarrow> ('s \<Rightarrow> room_id \<Rightarrow> seq \<Rightarrow> message list \<Rightarrow> bool) \<Rightarrow> u64 \<Rightarrow> int
     \<Rightarrow> 's feed_run \<Rightarrow> 's feed_run \<Rightarrow> bool"
  for grows page psize interval where
  server: "grows (fr_server c) s \<Longrightarrow> feed_step grows page psize interval c (c\<lparr>fr_server := s\<rparr>)"
| tick: "fr_clock c \<le> t \<Longrightarrow> feed_step grows page psize interval c (c\<lparr>fr_clock := t\<rparr>)"
| held: "fr_point c = Idle \<Longrightarrow> next_start interval (fr_clock c) (fr_feed c) = (f, Inl ms) \<Longrightarrow>
    feed_step grows page psize interval c (c\<lparr>fr_feed := f, fr_got := fr_got c @ ms\<rparr>)"
| start: "fr_point c = Idle \<Longrightarrow> next_start interval (fr_clock c) (fr_feed c) = (f, Inr p) \<Longrightarrow>
    feed_step grows page psize interval c (c\<lparr>fr_feed := f, fr_point := p, fr_answer := None\<rparr>)"
| wake: "fr_point c = Waiting d \<Longrightarrow> d \<le> fr_clock c \<Longrightarrow>
    feed_step grows page psize interval c (c\<lparr>fr_point := Fetching, fr_answer := None\<rparr>)"
| answer: "fr_point c = Fetching \<Longrightarrow> fr_answer c = None \<Longrightarrow>
    page (fr_server c) (mf_room (fr_feed c)) (mf_cursor (fr_feed c)) ms \<Longrightarrow>
    feed_step grows page psize interval c (c\<lparr>fr_answer := Some (Ok ms)\<rparr>)"
| refuse: "fr_point c = Fetching \<Longrightarrow> fr_answer c = None \<Longrightarrow>
    feed_step grows page psize interval c (c\<lparr>fr_answer := Some (Err e)\<rparr>)"
| settled: "fr_point c = Fetching \<Longrightarrow> fr_answer c = Some r \<Longrightarrow>
    next_settle psize interval (fr_clock c) r (fr_feed c) = (f, Inl out) \<Longrightarrow>
    feed_step grows page psize interval c (c\<lparr>fr_feed := f, fr_point := Idle, fr_answer := None,
      fr_got := fr_got c @ (case out of Ok ms \<Rightarrow> ms | _ \<Rightarrow> []),
      fr_fetched := Some (fr_clock c), fr_full := mf_catching_up f\<rparr>)"
| again: "fr_point c = Fetching \<Longrightarrow> fr_answer c = Some r \<Longrightarrow>
    next_settle psize interval (fr_clock c) r (fr_feed c) = (f, Inr p) \<Longrightarrow>
    feed_step grows page psize interval c (c\<lparr>fr_feed := f, fr_point := p, fr_answer := None,
      fr_fetched := Some (fr_clock c), fr_full := mf_catching_up f\<rparr>)"
| dropped: "feed_step grows page psize interval c (c\<lparr>fr_point := Idle, fr_answer := None\<rparr>)"

inductive_cases feed_stepE: "feed_step grows page psize interval c c'"

text \<open>A feed as \<open>watch_room_messages\<close> makes it, before its first \<open>next\<close>.\<close>

definition feed_opened :: "'s \<Rightarrow> int \<Rightarrow> messages_feed \<Rightarrow> 's feed_run" where
  "feed_opened s clk f = \<lparr>fr_server = s, fr_clock = clk, fr_feed = f, fr_point = Idle, fr_answer = None,
     fr_got = [], fr_fetched = None, fr_full = False\<rparr>"

lemma next_start_held:
  "next_start i t f = (f', Inl ms) \<longleftrightarrow> mf_holding f \<noteq> [] \<and> f' = f\<lparr>mf_holding := []\<rparr> \<and> ms = mf_holding f"
  by (auto simp: next_start_def split: prod.splits)

lemma next_head_fields:
  "next_head i t f = (f', p) \<Longrightarrow> mf_room f' = mf_room f \<and> mf_cursor f' = mf_cursor f \<and>
     mf_holding f' = mf_holding f \<and> mf_catching_up f' = mf_catching_up f \<and> p \<noteq> Idle"
  by (auto simp: next_head_def Let_def split: option.splits)

lemma next_start_wait:
  "next_start i t f = (f', Inr p) \<longleftrightarrow> mf_holding f = [] \<and> next_head i t f = (f', p)"
  by (auto simp: next_start_def split: prod.splits)

lemma next_settle_return:
  assumes "next_settle psize i t r f = (f', Inl out)"
  shows "out = r" "mf_room f' = mf_room f" "mf_holding f' = mf_holding f" "mf_due f' = None"
    "mf_cursor f' = (case r of Ok ms \<Rightarrow> msg_seq (last ms) | _ \<Rightarrow> mf_cursor f)" "r \<noteq> Ok []"
  using assms by (auto simp: next_settle_def Let_def split: result.splits if_splits prod.splits)

lemma next_settle_again:
  assumes "next_settle psize i t r f = (f', Inr p)"
  shows "r = Ok []" "mf_room f' = mf_room f" "mf_holding f' = mf_holding f" "mf_cursor f' = mf_cursor f" "p \<noteq> Idle"
    "0 < unat psize \<Longrightarrow> \<not> mf_catching_up f'"
    "0 < unat psize \<Longrightarrow> f' = f\<lparr>mf_due := Some (t + i), mf_catching_up := False\<rparr> \<and> p = Waiting (t + i)"
  using assms
  by (auto simp: next_settle_def next_head_def Let_def split: result.splits if_splits prod.splits option.splits)

section \<open>The deadline\<close>

text \<open>
  A fetch that did not fill its page is followed by a wait of an interval, counted from when it
  settled; \<open>next\<close> calls dropped in between neither shorten nor restart the wait.
\<close>

definition cadence_inv :: "int \<Rightarrow> 's feed_run \<Rightarrow> bool" where
  "cadence_inv interval c \<longleftrightarrow>
     (\<forall>d. fr_point c = Waiting d \<longrightarrow> mf_due (fr_feed c) = Some d) \<and>
     (\<forall>t. fr_fetched c = Some t \<longrightarrow>
        t \<le> fr_clock c \<and> mf_catching_up (fr_feed c) = fr_full c \<and>
        (\<not> fr_full c \<longrightarrow>
           (\<forall>d. mf_due (fr_feed c) = Some d \<longrightarrow> t + interval \<le> d) \<and>
           (fr_point c = Fetching \<longrightarrow> t + interval \<le> fr_clock c)))"

lemma next_head_due:
  assumes "next_head i t f = (f', p)"
  shows "mf_due f = Some d \<Longrightarrow> f' = f \<and> p = Waiting d"
    "mf_due f = None \<Longrightarrow> \<not> mf_catching_up f \<Longrightarrow> f' = f\<lparr>mf_due := Some (t + i)\<rparr> \<and> p = Waiting (t + i)"
    "mf_due f = None \<Longrightarrow> mf_catching_up f \<Longrightarrow> f' = f \<and> p = Fetching"
  using assms by (auto simp: next_head_def Let_def)

lemma cadence_start:
  assumes "cadence_inv i c" and "next_head i (fr_clock c) (fr_feed c) = (f, p)" and "0 \<le> i"
  shows "cadence_inv i (c\<lparr>fr_feed := f, fr_point := p, fr_answer := None\<rparr>)"
proof (cases "mf_due (fr_feed c)")
  case None
  show ?thesis
    using assms(1,3) next_head_due(2,3) [OF assms(2) None]
    by (cases "mf_catching_up (fr_feed c)") (auto simp: cadence_inv_def)
next
  case (Some d)
  show ?thesis using assms(1) next_head_due(1) [OF assms(2) Some] Some by (auto simp: cadence_inv_def)
qed

lemma cadence_step:
  assumes "feed_step grows page psize i c c'" and "cadence_inv i c" and "0 \<le> i" and "0 < unat psize"
  shows "cadence_inv i c'"
  using assms(1)
proof cases
  case (start f p)
  then show ?thesis using cadence_start [OF assms(2) _ assms(3)] by (simp add: next_start_wait)
next
  case (wake d)
  then show ?thesis using assms(2) by (fastforce simp: cadence_inv_def)
next
  case (settled rep f out)
  then show ?thesis using next_settle_return(4) [OF settled(4)] by (simp add: cadence_inv_def)
next
  case (again rep f p)
  then show ?thesis using next_settle_again(7) [OF again(4) assms(4)] by (auto simp: cadence_inv_def)
qed (use assms(2) in \<open>force simp: cadence_inv_def next_start_held\<close>)+

lemma cadence_steps:
  "(feed_step grows page psize i)\<^sup>*\<^sup>* c c' \<Longrightarrow> cadence_inv i c \<Longrightarrow> 0 \<le> i \<Longrightarrow> 0 < unat psize \<Longrightarrow> cadence_inv i c'"
  by (induction rule: rtranclp_induct) (blast intro: cadence_step)+

lemma cadence_opened: "cadence_inv i (feed_opened s t f)"
  by (simp add: cadence_inv_def feed_opened_def)

text \<open>Until the next fetch settles, the deadline stands.\<close>

lemma due_kept_step:
  assumes "feed_step grows page psize i c c'" and "mf_due (fr_feed c) = Some d"
  shows "mf_due (fr_feed c') = Some d \<or> fr_fetched c' = Some (fr_clock c)"
  using assms(1)
proof cases
  case (start f p)
  then show ?thesis using next_head_due(1) [OF _ assms(2)] assms(2) by (auto simp: next_start_wait)
qed (use assms(2) in \<open>auto simp: next_start_held\<close>)

section \<open>A feed over a message log\<close>

text \<open>What a feed needs besides the log: a page of at least one message and an interval.\<close>

locale room_feed = message_log inv grows log newest page
  for inv :: "'s \<Rightarrow> bool" and grows :: "'s \<Rightarrow> 's \<Rightarrow> bool" and log :: "'s \<Rightarrow> room_id \<Rightarrow> message list"
    and newest :: "'s \<Rightarrow> room_id \<Rightarrow> message list \<Rightarrow> bool"
    and page :: "'s \<Rightarrow> room_id \<Rightarrow> seq \<Rightarrow> message list \<Rightarrow> bool" +
  fixes psize :: u64 and interval :: int
  assumes psize_pos: "0 < unat psize" and interval_nonneg: "0 \<le> interval"
begin

text \<open>
  What is handed over and what is held make up the log from the starting point to the cursor; while a
  call is under way nothing is held, and a batch the server has answered with continues it.
\<close>

definition feed_inv :: "room_id \<Rightarrow> seq \<Rightarrow> 's feed_run \<Rightarrow> bool" where
  "feed_inv r c0 c \<longleftrightarrow>
     inv (fr_server c) \<and> mf_room (fr_feed c) = r \<and>
     caught_up (fr_server c) r c0 (fr_got c @ mf_holding (fr_feed c)) (mf_cursor (fr_feed c)) \<and>
     (fr_point c \<noteq> Idle \<longrightarrow> mf_holding (fr_feed c) = []) \<and>
     (\<forall>ms. fr_answer c = Some (Ok ms) \<longrightarrow> ms \<noteq> [] \<longrightarrow> fr_point c = Fetching \<longrightarrow>
        caught_up (fr_server c) r c0 (fr_got c @ ms) (msg_seq (last ms)))"

lemma feed_inv_step:
  assumes "feed_step grows page psize interval c c'" and "feed_inv r c0 c"
  shows "feed_inv r c0 c'"
  using assms(1)
proof cases
  case (server s)
  then show ?thesis
    using assms(2) grows_inv caught_up_grows by (auto simp: feed_inv_def)
next
  case (held f ms)
  then show ?thesis using assms(2) by (auto simp: feed_inv_def next_start_held)
next
  case (start f p)
  then show ?thesis
    using assms(2) next_head_fields by (fastforce simp: feed_inv_def next_start_wait)
next
  case (answer ms)
  then show ?thesis
    using assms(2) caught_up_page by (fastforce simp: feed_inv_def)
next
  case (settled rep f out)
  note rets = next_settle_return [OF settled(4)]
  show ?thesis
  proof (cases rep)
    case (Ok ms)
    then show ?thesis using assms(2) settled rets by (auto simp: feed_inv_def)
  qed (use assms(2) settled rets in \<open>auto simp: feed_inv_def\<close>)
next
  case (again rep f p)
  note rets = next_settle_again [OF again(4)]
  then show ?thesis using assms(2) again by (auto simp: feed_inv_def)
qed (use assms(2) in \<open>auto simp: feed_inv_def\<close>)

lemma feed_inv_steps:
  "(feed_step grows page psize interval)\<^sup>*\<^sup>* c c' \<Longrightarrow> feed_inv r c0 c \<Longrightarrow> feed_inv r c0 c'"
  by (induction rule: rtranclp_induct) (blast intro: feed_inv_step)+

lemma feed_opened_after:
  assumes "inv s" and "page s r c0 ms"
  shows "feed_inv r c0 (feed_opened s t (watch_open psize r (SinceAfter c0) ms))"
proof (cases "ms = []")
  case True
  then show ?thesis
    using assms caught_up_start by (simp add: feed_inv_def feed_opened_def watch_open_def Let_def)
next
  case False
  then show ?thesis
    using assms caught_up_page [OF assms(1) caught_up_start assms(2)]
    by (simp add: feed_inv_def feed_opened_def watch_open_def Let_def)
qed

lemma feed_opened_newest:
  assumes "inv s" and "newest s r ms"
  shows "\<exists>c0 before. feed_inv r c0 (feed_opened s t (watch_open psize r SinceNewest ms)) \<and>
    log s r = before @ ms \<and> (\<forall>s'. grows s s' \<longrightarrow> log s' r = before @ beyond c0 (log s' r))"
proof -
  obtain c0 before where c: "caught_up s r c0 ms (if ms = [] then seq_start else msg_seq (last ms))"
    "log s r = before @ ms" "beyond c0 (log s r) = ms" "ms = [] \<longrightarrow> c0 = seq_start"
    using caught_up_newest [OF assms] by blast
  have "ms = [] \<longrightarrow> log s r = [] \<and> c0 = seq_start" using newest_back [OF assms] c(4) by blast
  then have "\<forall>s'. grows s s' \<longrightarrow> log s' r = before @ beyond c0 (log s' r)"
    using newest_front [OF assms(1) _ c(2,3)] by blast
  moreover have "feed_inv r c0 (feed_opened s t (watch_open psize r SinceNewest ms))"
    using c(1) assms(1) by (simp add: feed_inv_def feed_opened_def watch_open_def Let_def)
  ultimately show ?thesis using c(2) by blast
qed

text \<open>The server's side of a run only ever grows.\<close>

lemma feed_server_grows:
  assumes "(feed_step grows page psize interval)\<^sup>*\<^sup>* c c'"
    and "\<And>s. grows s s" and "\<And>s1 s2 s3. grows s1 s2 \<Longrightarrow> grows s2 s3 \<Longrightarrow> grows s1 s3"
  shows "grows (fr_server c) (fr_server c')"
  using assms(1)
proof (induction rule: rtranclp_induct)
  case (step c1 c2)
  have "fr_server c2 = fr_server c1 \<or> grows (fr_server c1) (fr_server c2)"
    using step(2) by cases auto
  then show ?case using step(3) assms(3) by auto
qed (rule assms(2))

text \<open>So what was handed over is always the front of the log from the starting point on.\<close>

lemma feed_exact:
  assumes "feed_inv r c0 c"
  shows "beyond c0 (log (fr_server c) r) =
    fr_got c @ mf_holding (fr_feed c) @ beyond (mf_cursor (fr_feed c)) (log (fr_server c) r)"
  using assms by (simp add: feed_inv_def caught_up_def)

text \<open>A fetch that is answered hands over something whenever something is there.\<close>

lemma page_progress:
  assumes "inv s" and "page s r c ms" and "beyond c (log s r) \<noteq> []"
  shows "ms \<noteq> []"
  using page_front [OF assms(1,2)] assms(3) by auto

text \<open>Each batch brings the cursor closer to the end of the log.\<close>

lemma batch_shortens:
  assumes "inv s" and "page s r c ms" and "beyond c (log s r) \<noteq> []"
  shows "length (beyond (msg_seq (last ms)) (log s r)) < length (beyond c (log s r))"
  using page_gapless [OF assms(1,2) page_progress [OF assms]] page_progress [OF assms]
  by (metis length_append less_add_same_cancel2 length_greater_0_conv)

lemma cadence:
  assumes "(feed_step grows page psize interval)\<^sup>*\<^sup>* (feed_opened s t f) c"
    and "fr_point c = Fetching" and "fr_fetched c = Some t'" and "\<not> fr_full c"
  shows "t' + interval \<le> fr_clock c"
  using cadence_steps [OF assms(1) cadence_opened interval_nonneg psize_pos] assms(2-4)
  by (simp add: cadence_inv_def)

end

section \<open>The list of rooms\<close>

record rooms_feed =
  rf_holding :: "room list option"
  rf_due :: "int option"

definition watch_rooms_open :: "room list \<Rightarrow> rooms_feed" where
  "watch_rooms_open rooms = \<lparr>rf_holding = Some rooms, rf_due = None\<rparr>"

text \<open>\<open>next\<close> up to its wait, and from the settled fetch on.\<close>

definition rooms_next_start :: "int \<Rightarrow> int \<Rightarrow> rooms_feed \<Rightarrow> rooms_feed \<times> (room list + int)" where
  "rooms_next_start interval clk f =
     (case rf_holding f of
        Some rooms \<Rightarrow> (f\<lparr>rf_holding := None\<rparr>, Inl rooms)
      | None \<Rightarrow>
          (let due = (case rf_due f of Some d \<Rightarrow> d | None \<Rightarrow> clk + interval)
           in (f\<lparr>rf_due := Some due\<rparr>, Inr due)))"

definition rooms_next_settle ::
  "(chat_error, room list) result \<Rightarrow> rooms_feed \<Rightarrow> rooms_feed \<times> (chat_error, room list) result" where
  "rooms_next_settle fetched f = (f\<lparr>rf_due := None\<rparr>, fetched)"

text \<open>However often a call is started and dropped, its wait ends when the first one's would have.\<close>

lemma rooms_wait_resumes:
  assumes "rooms_next_start i t f = (f', Inr d)"
  shows "rooms_next_start i t' f' = (f', Inr d)"
  using assms by (auto simp: rooms_next_start_def Let_def split: option.splits)

end
