(* ===== verification/Client_Properties.thy ===== *)
theory Client_Properties
  imports Client_Feed Server_Properties
begin

text \<open>
  What the client promises its user: which requests carry the token and when it is forgotten, that
  a feed hands over a room's messages exactly once and in order against this server, and how often
  it asks.
\<close>

section \<open>The token and the session\<close>

lemma prepare_cases:
  "prepare cl method path body au ses = Ok (rq, sent) \<Longrightarrow>
     hq_uri rq = trim_end_slash (cl_server_url cl) @ path \<and> hq_method rq = method \<and>
     (case au of
        AuthNone \<Rightarrow> hq_authorization rq = None \<and> sent = None
      | AuthRequired \<Rightarrow> \<exists>t. token_of ses = Some t \<and> sent = Some t \<and> hq_authorization rq = Some (lit ''Bearer '' @ t))"
  by (auto simp: prepare_def Let_def split: auth.splits option.splits)

lemma execute_prepared:
  assumes "prepare cl method path body au (cs_session st) = Ok (rq, sent)"
    and "cl_transport cl rq (cs_net st) = (n', reply)"
  shows "execute cl m method path body au st =
    (st\<lparr>cs_session := fst (settle (cl_codec cl) sent reply (m (cs_session st))), cs_net := n'\<rparr>,
     snd (settle (cl_codec cl) sent reply (m (cs_session st))))"
  using assms by (simp add: execute_def split: prod.split)

text \<open>C27: A request that needs a login is never sent without one, and then says so; one that is sent
  carries exactly the stored token, and a request that needs none never carries it.\<close>

theorem token_only_where_due:
  "(au = AuthRequired \<longrightarrow> cs_session st = None \<longrightarrow>
      execute cl m method path body au st = (st, Err NotLoggedIn)) \<and>
   (\<forall>rq sent. prepare cl method path body au (cs_session st) = Ok (rq, sent) \<longrightarrow>
      hq_authorization rq = (case au of AuthNone \<Rightarrow> None
        | AuthRequired \<Rightarrow> map_option (\<lambda>s. lit ''Bearer '' @ ss_token s) (cs_session st)) \<and>
      hq_uri rq = trim_end_slash (cl_server_url cl) @ path)"
proof -
  have "au = AuthRequired \<longrightarrow> cs_session st = None \<longrightarrow> execute cl m method path body au st = (st, Err NotLoggedIn)"
    by (simp add: execute_def prepare_def token_of_def Let_def)
  moreover have "hq_authorization rq = (case au of AuthNone \<Rightarrow> None
        | AuthRequired \<Rightarrow> map_option (\<lambda>s. lit ''Bearer '' @ ss_token s) (cs_session st)) \<and>
      hq_uri rq = trim_end_slash (cl_server_url cl) @ path"
    if "prepare cl method path body au (cs_session st) = Ok (rq, sent)" for rq sent
    using prepare_cases [OF that] by (cases au) (auto simp: token_of_def)
  ultimately show ?thesis by blast
qed

definition demo_codec :: codec where
  "demo_codec = \<lparr>enc_register = (\<lambda>_. Inr []), enc_login = (\<lambda>_. Inr [1]), enc_create_room = (\<lambda>_. Inr []),
     enc_post = (\<lambda>_. Inr []), dec_ignored = (\<lambda>_. Inr ()),
     dec_login = (\<lambda>_. Inr \<lparr>lr_token = lit ''new'', lr_expires_at = UnixMillis 9\<rparr>),
     dec_server = (\<lambda>_. Inl []), dec_rooms = (\<lambda>_. Inr []), dec_room = (\<lambda>_. Inl []), dec_posted = (\<lambda>_. Inl []),
     dec_messages = (\<lambda>_. Inr []), dec_error = (\<lambda>_. Inl (lit ''EOF'')), head_fault = (\<lambda>_. None)\<rparr>"

definition demo_client :: "nat chat_client" where
  "demo_client = \<lparr>cl_transport = (\<lambda>_ n. (Suc n, Ok \<lparr>hr_status = 401, hr_body = []\<rparr>)),
     cl_server_url = lit ''http://localhost:8080/'', cl_poll = poll_default, cl_codec = demo_codec\<rparr>"

definition demo_session :: session where
  "demo_session = \<lparr>ss_token = lit ''old'', ss_info = \<lparr>sn_username = lit ''ann'', sn_expires_at = UnixMillis 7\<rparr>\<rparr>"

corollary token_only_where_due_witness:
  "execute demo_client id MGet (lit ''/api/v1/rooms'') None AuthRequired \<lparr>cs_session = None, cs_net = 0\<rparr> =
     (\<lparr>cs_session = None, cs_net = 0\<rparr>, Err NotLoggedIn)"
  using token_only_where_due [of AuthRequired "\<lparr>cs_session = None, cs_net = 0\<rparr>" demo_client id MGet "lit ''/api/v1/rooms''" None]
  by simp

text \<open>C25: Only a 401 to a request that carried a token ends the session, and only if the stored token is
  still the one refused: a login made while the request was under way survives it. Every other
  reply and every failure leaves the session as it is.\<close>

theorem session_ends_only_when_refused:
  assumes "prepare cl method path body au (cs_session st) = Ok (rq, sent)"
    and "cl_transport cl rq (cs_net st) = (n', reply)"
    and "execute cl m method path body au st = (st', out)"
  shows "cs_session st' =
      (if (\<exists>r. reply = Ok r \<and> hr_status r = 401) \<and> sent \<noteq> None \<and> token_of (m (cs_session st)) = sent
       then None else m (cs_session st)) \<and>
    (out = Err SessionExpired \<longleftrightarrow> (\<exists>r. reply = Ok r \<and> hr_status r = 401) \<and> au = AuthRequired)"
proof -
  have run: "cs_session st' = fst (settle (cl_codec cl) sent reply (m (cs_session st)))"
    "out = snd (settle (cl_codec cl) sent reply (m (cs_session st)))"
    using execute_prepared [OF assms(1,2), of m] assms(3) by auto
  have sent: "sent \<noteq> None \<longleftrightarrow> au = AuthRequired" using prepare_cases [OF assms(1)] by (cases au) auto
  have "refusal cd s b \<noteq> SessionExpired" for cd s b by (simp add: refusal_def split: sum.split)
  then show ?thesis
    using run sent
    by (cases "m (cs_session st)"; cases sent)
      (auto simp: settle_def forget_if_current_def token_of_def split: result.splits if_splits option.splits)
qed

corollary session_ends_only_when_refused_witness:
  "cs_session (fst (execute demo_client (\<lambda>_. Some (demo_session\<lparr>ss_token := lit ''new''\<rparr>)) MGet (lit ''/api/v1/rooms'')
     None AuthRequired \<lparr>cs_session = Some demo_session, cs_net = 0\<rparr>)) = Some (demo_session\<lparr>ss_token := lit ''new''\<rparr>)"
proof -
  let ?st = "\<lparr>cs_session = Some demo_session, cs_net = 0 :: nat\<rparr>"
  let ?m = "\<lambda>_. Some (demo_session\<lparr>ss_token := lit ''new''\<rparr>)"
  obtain rq where p: "prepare demo_client MGet (lit ''/api/v1/rooms'') None AuthRequired (cs_session ?st) = Ok (rq, Some (lit ''old''))"
    by (simp add: prepare_def demo_client_def demo_codec_def token_of_def demo_session_def Let_def)
  have t: "cl_transport demo_client rq (cs_net ?st) = (1, Ok \<lparr>hr_status = 401, hr_body = []\<rparr>)"
    by (simp add: demo_client_def)
  obtain st' out where r: "execute demo_client ?m MGet (lit ''/api/v1/rooms'') None AuthRequired ?st = (st', out)"
    by fastforce
  show ?thesis
    using session_ends_only_when_refused [OF p t r] r by (simp add: token_of_def demo_session_def)
qed

text \<open>A login stores a session, with the name asked for and the token and expiry of the reply,
  exactly when it succeeds; a login that fails leaves whatever session there is.\<close>

lemma login_stores_session:
  assumes "client_login cl m username password st = (st', out)"
  shows "case out of
      Ok info \<Rightarrow> \<exists>ses. cs_session st' = Some ses \<and> ss_info ses = info \<and> sn_username info = username \<and>
        (\<exists>b. dec_login (cl_codec cl) b = Inr \<lparr>lr_token = ss_token ses, lr_expires_at = sn_expires_at info\<rparr>)
    | _ \<Rightarrow> cs_session st' = cs_session st \<or> cs_session st' = m (cs_session st)"
proof -
  obtain st1 rep where p: "client_post cl m (enc_login (cl_codec cl) \<lparr>log_username = username, log_password = password\<rparr>)
      (dec_login (cl_codec cl)) (lit ''/api/v1/login'') AuthNone st = (st1, rep)" by fastforce
  have keep: "cs_session st1 = cs_session st \<or> cs_session st1 = m (cs_session st)"
  proof -
    have "cs_session (fst (execute cl m MPost path body AuthNone st)) \<in> {cs_session st, m (cs_session st)}" for path body
      by (auto simp: execute_def prepare_def settle_def Let_def split: option.splits prod.splits result.splits if_splits)
    then show ?thesis
      using p by (auto simp: client_post_def Let_def split: result.splits prod.splits) (metis fst_conv insertE singletonD)+
  qed
  show ?thesis
  proof (cases rep)
    case (Ok reply)
    have "\<exists>b. dec_login (cl_codec cl) b = Inr reply"
      using p Ok by (auto simp: client_post_def Let_def decode_def res_simps split: result.splits prod.splits elim!: lib_res.elims)
    then show ?thesis using assms p Ok by (cases reply) (auto simp: client_login_def store_session_def Let_def)
  qed (use assms p keep in \<open>auto simp: client_login_def\<close>)
qed

corollary login_stores_session_witness:
  "\<exists>st'. client_login demo_client id (lit ''bob'') (lit ''pw'') \<lparr>cs_session = Some demo_session, cs_net = 0\<rparr> = (st', Err
       (ProtocolErr (lit ''401 carried no error envelope: EOF''))) \<and> cs_session st' = Some demo_session"
proof -
  let ?st = "\<lparr>cs_session = Some demo_session, cs_net = 0 :: nat\<rparr>"
  have r: "client_login demo_client id (lit ''bob'') (lit ''pw'') ?st =
      (?st\<lparr>cs_net := 1\<rparr>, Err (ProtocolErr (lit ''401 carried no error envelope: EOF'')))"
    by (simp add: client_login_def client_post_def execute_def prepare_def settle_def demo_client_def demo_codec_def
        refusal_def Let_def dec.simps)
  show ?thesis using login_stores_session [OF r] r by simp
qed

section \<open>What a page request asks for\<close>

lemma dec_takeWhile:
  assumes "xs = [] \<or> \<not> (48 \<le> hd xs \<and> hd xs \<le> 57)"
  shows "takeWhile (\<lambda>c. 48 \<le> c \<and> c \<le> 57) (dec n @ xs) = dec n"
proof -
  have "takeWhile (\<lambda>c. 48 \<le> c \<and> c \<le> 57) (dec n @ xs) = dec n @ takeWhile (\<lambda>c. 48 \<le> c \<and> c \<le> 57) xs"
    by (rule takeWhile_append2) (blast dest: dec_digits)
  then show ?thesis using assms by (cases xs) auto
qed

lemma dec_append_inj:
  assumes "dec m @ xs = dec n @ ys" "xs = [] \<or> \<not> (48 \<le> hd xs \<and> hd xs \<le> 57)" "ys = [] \<or> \<not> (48 \<le> hd ys \<and> hd ys \<le> 57)"
  shows "m = n \<and> xs = ys"
proof -
  have "dec m = dec n" using dec_takeWhile [OF assms(2)] dec_takeWhile [OF assms(3)] assms(1) by metis
  then show ?thesis using assms(1) dec_inj by simp
qed

definition cursor_query :: "cursor \<Rightarrow> rstr" where
  "cursor_query c = (case c of NewestC \<Rightarrow> [] | AfterC s \<Rightarrow> lit ''&after_seq='' @ seq_display s
     | BeforeC s \<Rightarrow> lit ''&before_seq='' @ seq_display s)"

lemma cursor_query_inj: "cursor_query c = cursor_query c' \<longleftrightarrow> c = c'"
  by (cases c; cases c')
    (auto simp: cursor_query_def seq_display_def dec_inj word_unat_eq_iff intro: seq.expand)

text \<open>The request for a page says which room, how many messages and from which cursor, and nothing
  else: two requests are the same only when all three are.\<close>

lemma messages_uri_faithful:
  "messages_uri room limit c = messages_uri room' limit' c' \<longleftrightarrow> room = room' \<and> limit = limit' \<and> c = c'"
proof
  assume eq: "messages_uri room limit c = messages_uri room' limit' c'"
  have uri: "messages_uri r n k = lit ''/api/v1/rooms/'' @ dec (unat (room_id_get r)) @
      (lit ''/messages?limit='' @ dec (unat n) @ cursor_query k)" for r n k
    by (cases k) (simp_all add: messages_uri_def messages_path_def room_id_display_def cursor_query_def Let_def)
  have "unat (room_id_get room) = unat (room_id_get room') \<and>
      lit ''/messages?limit='' @ dec (unat limit) @ cursor_query c =
      lit ''/messages?limit='' @ dec (unat limit') @ cursor_query c'"
    by (rule dec_append_inj) (use eq in \<open>simp_all add: uri\<close>)
  moreover from this have "unat limit = unat limit' \<and> cursor_query c = cursor_query c'"
    by (intro dec_append_inj) (simp, auto simp: cursor_query_def split: cursor.split)
  ultimately show "room = room' \<and> limit = limit' \<and> c = c'"
    by (simp add: cursor_query_inj word_unat_eq_iff room_id.expand)
qed simp

section \<open>The feed against this server\<close>

interpretation api_feed: room_feed db_ok "db_steps k" room_log "api_newest k" "api_page k"
  "page_size p" "int (pc_messages_interval p)" for k p
  by unfold_locales (simp_all add: page_size_pos)

text \<open>Watching a room from a cursor against this server hands over, over any sequence of \<open>next\<close>
  calls completed, refused or dropped at either await, and whatever is posted meanwhile, exactly
  the messages of the room's log after that cursor, each once, in order, none skipped; what is
  still to come is what lies past the feed's own cursor.\<close>

lemma feed_exactly_once:
  assumes "db_ok s" and "api_page k s r c0 ms"
    and "(feed_step (db_steps k) (api_page k) (page_size p) (int (pc_messages_interval p)))\<^sup>*\<^sup>*
      (feed_opened s t (watch_open (page_size p) r (SinceAfter c0) ms)) run"
  shows "db_ok (fr_server run) \<and>
    beyond c0 (room_log (fr_server run) r) =
      fr_got run @ mf_holding (fr_feed run) @ beyond (mf_cursor (fr_feed run)) (room_log (fr_server run) r)"
proof -
  have "api_feed.feed_inv r c0 run"
    using api_feed.feed_inv_steps [OF assms(3)] api_feed.feed_opened_after [OF assms(1,2)] by blast
  then show ?thesis using api_feed.feed_exact by (auto simp: api_feed.feed_inv_def)
qed

lemma demo_page:
  "api_page demo_caps demo_db (RoomId 1) (Seq 1)
     [\<lparr>msg_seq = Seq 2, msg_username = lit ''Ann'', msg_body = lit ''yo'', msg_posted_at = UnixMillis 7\<rparr>]"
proof -
  let ?page = "\<lparr>pg_limit = None, pg_after_seq = Some 1, pg_before_seq = None\<rparr>"
  have st: "as_store demo_server = sqlite_store demo_caps" by (simp add: demo_server_def)
  have "messages_after (calm_env 0) (RoomId 1) (Seq 1) (page_limit ?page) demo_db =
      Ok [\<lparr>msg_seq = Seq 2, msg_username = lit ''Ann'', msg_body = lit ''yo'', msg_posted_at = UnixMillis 7\<rparr>]"
    using messages_after_eq [OF demo_db_ok, of "calm_env 0"]
    by (simp add: i64_max_eq calm_env_def page_limit_def DEFAULT_LIMIT_def MAX_LIMIT_def beyond_def room_log_def
        demo_db_def message_of_def)
  then have "messages_list demo_deps demo_server (demo_call 0) (Some (bearer_header (lit ''ann.5'')))
      (Inr (room_id_get (RoomId 1))) (Inr ?page) demo_db = (demo_db, Ok (respond 200 (MessagesBody
        [\<lparr>msg_seq = Seq 2, msg_username = lit ''Ann'', msg_body = lit ''yo'', msg_posted_at = UnixMillis 7\<rparr>])))"
    using demo_auth room_exists_eq [of "calm_env 0" "RoomId 1" demo_db]
    by (simp add: messages_list_def demo_call_def st sqlite_store_def calm_env_def i64_max_eq room_known_def demo_db_def)
  then show ?thesis
    unfolding api_page_def using demo_db_ok demo_call_ok st
    by (intro exI [of _ demo_deps] exI [of _ demo_server] exI [of _ "demo_call 0"]
        exI [of _ "Some (bearer_header (lit ''ann.5''))"] exI [of _ ?page] exI [of _ demo_db]) simp
qed

corollary feed_exactly_once_witness:
  "beyond (Seq 1) (room_log demo_db (RoomId 1)) =
     [\<lparr>msg_seq = Seq 2, msg_username = lit ''Ann'', msg_body = lit ''yo'', msg_posted_at = UnixMillis 7\<rparr>] @
     beyond (Seq 2) (room_log demo_db (RoomId 1))"
  using feed_exactly_once [OF demo_db_ok demo_page rtranclp.rtrancl_refl]
  by (simp add: feed_opened_def watch_open_def)

text \<open>A feed opened on the newest page hands over that page and then everything posted after it: the
  messages held back at the start are only those before the page.\<close>

lemma feed_from_newest:
  assumes "db_ok s" and "api_newest k s r ms"
    and "(feed_step (db_steps k) (api_page k) (page_size p) (int (pc_messages_interval p)))\<^sup>*\<^sup>*
      (feed_opened s t (watch_open (page_size p) r SinceNewest ms)) run"
  shows "\<exists>before. room_log (fr_server run) r =
      before @ fr_got run @ mf_holding (fr_feed run) @ beyond (mf_cursor (fr_feed run)) (room_log (fr_server run) r) \<and>
    room_log s r = before @ ms"
proof -
  obtain c0 before where c: "api_feed.feed_inv r c0 (feed_opened s t (watch_open (page_size p) r SinceNewest ms))"
    "room_log s r = before @ ms" "\<forall>s'. db_steps k s s' \<longrightarrow> room_log s' r = before @ beyond c0 (room_log s' r)"
    using api_feed.feed_opened_newest [OF assms(1,2)] by blast
  have "api_feed.feed_inv r c0 run" by (rule api_feed.feed_inv_steps [OF assms(3) c(1)])
  then have "beyond c0 (room_log (fr_server run) r) =
      fr_got run @ mf_holding (fr_feed run) @ beyond (mf_cursor (fr_feed run)) (room_log (fr_server run) r)"
    by (rule api_feed.feed_exact)
  moreover have "db_steps k (fr_server (feed_opened s t (watch_open (page_size p) r SinceNewest ms))) (fr_server run)"
    by (rule api_feed.feed_server_grows [OF assms(3)]) auto
  then have "room_log (fr_server run) r = before @ beyond c0 (room_log (fr_server run) r)"
    using c(3) by (simp add: feed_opened_def)
  ultimately show ?thesis using c(2) by metis
qed

lemma demo_newest: "api_newest demo_caps demo_db (RoomId 1) (room_log demo_db (RoomId 1))"
proof -
  let ?page = "\<lparr>pg_limit = None, pg_after_seq = None, pg_before_seq = None\<rparr>"
  have st: "as_store demo_server = sqlite_store demo_caps" by (simp add: demo_server_def)
  have "messages_newest (calm_env 0) (RoomId 1) (page_limit ?page) demo_db = Ok (room_log demo_db (RoomId 1))"
    using messages_newest_eq [OF demo_db_ok, of "calm_env 0"]
    by (simp add: i64_max_eq calm_env_def page_limit_def DEFAULT_LIMIT_def MAX_LIMIT_def last_n_def room_log_def demo_db_def)
  then have "messages_list demo_deps demo_server (demo_call 0) (Some (bearer_header (lit ''ann.5'')))
      (Inr (room_id_get (RoomId 1))) (Inr ?page) demo_db = (demo_db, Ok (respond 200 (MessagesBody (room_log demo_db (RoomId 1)))))"
    using demo_auth room_exists_eq [of "calm_env 0" "RoomId 1" demo_db]
    by (simp add: messages_list_def demo_call_def st sqlite_store_def calm_env_def i64_max_eq room_known_def demo_db_def)
  then show ?thesis
    unfolding api_newest_def using demo_db_ok demo_call_ok st
    by (intro exI [of _ demo_deps] exI [of _ demo_server] exI [of _ "demo_call 0"]
        exI [of _ "Some (bearer_header (lit ''ann.5''))"] exI [of _ ?page] exI [of _ demo_db]) simp
qed

corollary feed_from_newest_witness:
  "\<exists>before. room_log demo_db (RoomId 1) = before @ room_log demo_db (RoomId 1)"
  using feed_from_newest [OF demo_db_ok demo_newest rtranclp.rtrancl_refl] by blast

text \<open>A feed that is behind never stalls: when the server answers its fetch while messages lie past
  the cursor, the call returns a batch that is not empty, the deadline is cleared, and fewer
  messages remain; and an empty page makes it wait again rather than return.\<close>

lemma feed_progress:
  assumes "db_ok s" and "api_page k s (mf_room f) (mf_cursor f) ms"
    and "next_settle (page_size p) (int (pc_messages_interval p)) clk (Ok ms) f = (f', out)"
  shows "if beyond (mf_cursor f) (room_log s (mf_room f)) = []
    then out = Inr (Waiting (clk + int (pc_messages_interval p))) \<and> mf_cursor f' = mf_cursor f
    else out = Inl (Ok ms) \<and> ms \<noteq> [] \<and> mf_due f' = None \<and>
      length (beyond (mf_cursor f') (room_log s (mf_room f))) < length (beyond (mf_cursor f) (room_log s (mf_room f)))"
proof (cases "beyond (mf_cursor f) (room_log s (mf_room f)) = []")
  case True
  then have "ms = []" using api_log.page_front [OF assms(1,2)] by auto
  moreover from this obtain q where q: "out = Inr q" using assms(3) by (auto simp: next_settle_def Let_def split: prod.splits)
  ultimately show ?thesis
    using True next_settle_again(7) [OF assms(3) [unfolded q] page_size_pos] by simp
next
  case False
  have "ms \<noteq> []" by (rule api_feed.page_progress [OF assms(1,2) False])
  moreover from this have "out = Inl (Ok ms)" "mf_due f' = None" "mf_cursor f' = msg_seq (last ms)"
    using assms(3) by (auto simp: next_settle_def Let_def)
  ultimately show ?thesis using False api_feed.batch_shortens [OF assms(1,2) False] by simp
qed

corollary feed_progress_witness:
  "\<exists>f'. next_settle (page_size poll_default) (int (pc_messages_interval poll_default)) 5
      (Ok [\<lparr>msg_seq = Seq 2, msg_username = lit ''Ann'', msg_body = lit ''yo'', msg_posted_at = UnixMillis 7\<rparr>])
      (watch_open (page_size poll_default) (RoomId 1) (SinceAfter (Seq 1)) []) = (f', Inl (Ok
        [\<lparr>msg_seq = Seq 2, msg_username = lit ''Ann'', msg_body = lit ''yo'', msg_posted_at = UnixMillis 7\<rparr>]))"
proof -
  let ?f = "watch_open (page_size poll_default) (RoomId 1) (SinceAfter (Seq 1)) []"
  let ?ms = "[\<lparr>msg_seq = Seq 2, msg_username = lit ''Ann'', msg_body = lit ''yo'', msg_posted_at = UnixMillis 7\<rparr>]"
  obtain f' out where run: "next_settle (page_size poll_default) (int (pc_messages_interval poll_default)) 5 (Ok ?ms) ?f = (f', out)"
    by fastforce
  have page: "api_page demo_caps demo_db (mf_room ?f) (mf_cursor ?f) ?ms"
    using demo_page by (simp add: watch_open_def)
  have "beyond (mf_cursor ?f) (room_log demo_db (mf_room ?f)) \<noteq> []"
    by (simp add: watch_open_def beyond_def room_log_def demo_db_def message_of_def)
  then show ?thesis using feed_progress [OF demo_db_ok page run] run by auto
qed

section \<open>How often the feed asks\<close>

text \<open>A feed that has seen the end of the log waits a full interval after each answer before it asks
  again, however its calls are started and dropped; until a fetch settles its deadline never moves,
  so a caller that keeps dropping the call still gets its fetch when it is due.\<close>

lemma feed_cadence:
  assumes "(feed_step (db_steps k) (api_page k) (page_size p) (int (pc_messages_interval p)))\<^sup>*\<^sup>*
      (feed_opened s t f) run"
  shows "(fr_point run = Fetching \<longrightarrow> \<not> fr_full run \<longrightarrow>
      (\<forall>last. fr_fetched run = Some last \<longrightarrow> last + int (pc_messages_interval p) \<le> fr_clock run)) \<and>
    (\<forall>run' d. feed_step (db_steps k) (api_page k) (page_size p) (int (pc_messages_interval p)) run run' \<longrightarrow>
      mf_due (fr_feed run) = Some d \<longrightarrow>
      mf_due (fr_feed run') = Some d \<or> fr_fetched run' = Some (fr_clock run))"
  using api_feed.cadence [OF assms] due_kept_step by blast

definition demo_wait :: "db feed_run" where
  "demo_wait = (feed_opened demo_db 5 (watch_open (page_size poll_default) (RoomId 1) (SinceAfter (Seq 2)) []))
     \<lparr>fr_feed := (watch_open (page_size poll_default) (RoomId 1) (SinceAfter (Seq 2)) [])\<lparr>mf_due := Some 2000000005\<rparr>,
      fr_point := Waiting 2000000005, fr_answer := None\<rparr>"

corollary feed_cadence_witness:
  "feed_step (db_steps demo_caps) (api_page demo_caps) (page_size poll_default)
      (int (pc_messages_interval poll_default)) demo_wait (demo_wait\<lparr>fr_point := Idle, fr_answer := None\<rparr>) \<and>
    (mf_due (fr_feed (demo_wait\<lparr>fr_point := Idle, fr_answer := None\<rparr>)) = Some 2000000005 \<or>
      fr_fetched (demo_wait\<lparr>fr_point := Idle, fr_answer := None\<rparr>) = Some 5)"
proof -
  let ?f = "watch_open (page_size poll_default) (RoomId 1) (SinceAfter (Seq 2)) []"
  let ?o = "feed_opened demo_db 5 ?f"
  have "next_start (int (pc_messages_interval poll_default)) (fr_clock ?o) (fr_feed ?o) =
      (?f\<lparr>mf_due := Some 2000000005\<rparr>, Inr (Waiting 2000000005))"
    by (simp add: next_start_def next_head_def feed_opened_def watch_open_def poll_default_def page_size_def)
  from feed_step.start [OF _ this] have "feed_step (db_steps demo_caps) (api_page demo_caps) (page_size poll_default)
      (int (pc_messages_interval poll_default)) ?o demo_wait"
    by (simp add: demo_wait_def feed_opened_def)
  then have reached: "(feed_step (db_steps demo_caps) (api_page demo_caps) (page_size poll_default)
      (int (pc_messages_interval poll_default)))\<^sup>*\<^sup>* ?o demo_wait" by blast
  have "mf_due (fr_feed demo_wait) = Some 2000000005" "fr_clock demo_wait = 5"
    by (simp_all add: demo_wait_def feed_opened_def)
  with feed_cadence [OF reached] feed_step.dropped [of "db_steps demo_caps" "api_page demo_caps"
      "page_size poll_default" "int (pc_messages_interval poll_default)" demo_wait]
  show ?thesis by metis
qed

text \<open>The room list feed hands over what it holds at once; otherwise a call waits until the deadline
  of the first call since the last fetch, however many calls were dropped since, and a settled
  fetch, whatever it gave, starts the next interval afresh.\<close>

lemma rooms_feed_deadline:
  assumes "rooms_next_start i t f = (f0, Inr d)"
  shows "fold (\<lambda>t' g. fst (rooms_next_start i t' g)) ts f0 = f0 \<and>
    rooms_next_start i later f0 = (f0, Inr d) \<and>
    (rf_due f = None \<longrightarrow> d = t + i) \<and>
    (\<forall>r out f1. rooms_next_settle r f0 = (f1, out) \<longrightarrow> out = r \<and>
      rooms_next_start i later f1 = (f1\<lparr>rf_due := Some (later + i)\<rparr>, Inr (later + i)))"
proof -
  have again: "rooms_next_start i t' f0 = (f0, Inr d)" for t' by (rule rooms_wait_resumes [OF assms])
  have "fold (\<lambda>t' g. fst (rooms_next_start i t' g)) ts f0 = f0"
    by (induction ts) (simp_all add: again)
  moreover have "rf_due f = None \<longrightarrow> d = t + i" "rf_holding f0 = None"
    using assms by (auto simp: rooms_next_start_def Let_def split: option.splits)
  moreover from this have "rooms_next_start i later (f0\<lparr>rf_due := None\<rparr>) =
      (f0\<lparr>rf_due := Some (later + i)\<rparr>, Inr (later + i))"
    by (simp add: rooms_next_start_def Let_def)
  ultimately show ?thesis using again by (auto simp: rooms_next_settle_def)
qed

corollary rooms_feed_deadline_witness:
  "rooms_next_start 2 9 \<lparr>rf_holding = None, rf_due = Some 7\<rparr> = (\<lparr>rf_holding = None, rf_due = Some 7\<rparr>, Inr 7)"
proof -
  have "rooms_next_start 2 5 \<lparr>rf_holding = None, rf_due = None\<rparr> = (\<lparr>rf_holding = None, rf_due = Some 7\<rparr>, Inr 7)"
    by (simp add: rooms_next_start_def)
  from rooms_feed_deadline [OF this] show ?thesis by blast
qed

end
