(* ===== verification/Transport.thy ===== *)
theory Transport
  imports Client
begin

text \<open>
  The transports (crates/chat-client-core/src/transport.rs and transport/): how failures are
  described and sorted into one taxonomy, the cap on a reply's size, the scripted mock, the TCP
  transport over reqwest, and the SCION transport's settings. reqwest and the SCION stack are
  arguments: their replies, chunks and errors.
\<close>

section \<open>What every transport shares (transport.rs)\<close>

definition MAX_BODY_BYTES :: nat where
  "MAX_BODY_BYTES = 8 * 1024 * 1024"

text \<open>An error with its chain of causes, outermost first.\<close>

datatype error_chain = ErrorChain rstr "rstr list"

definition describe :: "error_chain \<Rightarrow> rstr" where
  "describe e = (case e of ErrorChain outer causes \<Rightarrow>
     fold (\<lambda>layer described. described @ lit '': '' @ layer) causes outer)"

text \<open>The contract of the trait that the code keeps: no reply holds more than the cap.\<close>

locale bounded_transport =
  fixes send :: "'n transport_fn"
  assumes reply_bounded: "send rq n = (n', Ok r) \<Longrightarrow> length (hr_body r) \<le> MAX_BODY_BYTES"
begin

lemma execute_bounded:
  assumes "cl_transport cl = send" and "execute cl m method path body au st = (st', Ok bytes)"
  shows "length bytes \<le> MAX_BODY_BYTES"
proof -
  obtain rq sent where p: "prepare cl method path body au (cs_session st) = Ok (rq, sent)"
    using assms(2) by (auto simp: execute_def split: result.splits)
  obtain n' reply where t: "send rq (cs_net st) = (n', reply)" by fastforce
  have "snd (settle (cl_codec cl) sent reply (m (cs_session st))) = Ok bytes"
    using assms p t by (simp add: execute_def split: prod.splits)
  then obtain r where "reply = Ok r" "bytes = hr_body r"
    by (auto simp: settle_def split: result.splits if_splits option.splits)
  then show ?thesis using reply_bounded t by blast
qed

end

section \<open>The mock (mock.rs)\<close>

datatype answer = AnswerReply nat bytes | AnswerFail transport_error

record received =
  rc_request :: http_request
  rc_at :: int

record mock_state =
  mk_script :: "rstr \<Rightarrow> answer list option"
  mk_received :: "received list"

definition mock_new :: mock_state where
  "mock_new = \<lparr>mk_script = (\<lambda>_. None), mk_received = []\<rparr>"

definition mock_script :: "rstr \<Rightarrow> answer \<Rightarrow> mock_state \<Rightarrow> mock_state" where
  "mock_script route a m = m\<lparr>mk_script := (mk_script m)(route \<mapsto>
     (case mk_script m route of None \<Rightarrow> [] | Some as \<Rightarrow> as) @ [a])\<rparr>"

definition mock_respond :: "rstr \<Rightarrow> nat \<Rightarrow> bytes \<Rightarrow> mock_state \<Rightarrow> mock_state" where
  "mock_respond route status body m = mock_script route (AnswerReply status body) m"

definition mock_fail :: "rstr \<Rightarrow> transport_error \<Rightarrow> mock_state \<Rightarrow> mock_state" where
  "mock_fail route e m = mock_script route (AnswerFail e) m"

definition mock_last_request :: "mock_state \<Rightarrow> ('e, http_request) result" where
  "mock_last_request m =
     (if mk_received m = [] then Panic ''a request to have been sent already''
      else Ok (rc_request (last (mk_received m))))"

definition mock_request_count :: "mock_state \<Rightarrow> nat" where
  "mock_request_count m = length (mk_received m)"

definition mock_arrivals :: "mock_state \<Rightarrow> int list" where
  "mock_arrivals m = map rc_at (mk_received m)"

text \<open>The key of a route; \<open>uri_path\<close> is the \<open>http\<close> crate's reading of a URI's path.\<close>

definition method_name :: "client_method \<Rightarrow> rstr" where
  "method_name m = (case m of MGet \<Rightarrow> lit ''GET'' | MPost \<Rightarrow> lit ''POST'')"

definition route_of :: "(rstr \<Rightarrow> rstr) \<Rightarrow> client_method \<Rightarrow> rstr \<Rightarrow> rstr" where
  "route_of uri_path m uri = method_name m @ lit '' '' @ uri_path uri"

definition answer_to :: "rstr \<Rightarrow> mock_state \<Rightarrow> mock_state \<times> (transport_error, answer) result" where
  "answer_to route m =
     (case mk_script m route of
        None \<Rightarrow> (m, Panic ''nothing is scripted for this route'')
      | Some answers \<Rightarrow>
          if 1 < length answers then (m\<lparr>mk_script := (mk_script m)(route \<mapsto> tl answers)\<rparr>, Ok (hd answers))
          else (m, if answers = [] then Panic ''index out of bounds'' else Ok (hd answers)))"

text \<open>A status \<open>http\<close> refuses to build a reply with is a panic.\<close>

definition answer_result :: "answer \<Rightarrow> (transport_error, http_reply) result" where
  "answer_result a =
     (case a of
        AnswerReply status body \<Rightarrow>
          if 100 \<le> status \<and> status < 1000 then Ok \<lparr>hr_status = status, hr_body = body\<rparr>
          else Panic ''a scripted status is valid''
      | AnswerFail e \<Rightarrow> Err e)"

definition mock_request :: "(rstr \<Rightarrow> rstr) \<Rightarrow> int \<Rightarrow> mock_state transport_fn" where
  "mock_request uri_path clk rq m =
     (let route = route_of uri_path (hq_method rq) (hq_uri rq);
          m1 = m\<lparr>mk_received := mk_received m @ [\<lparr>rc_request = rq, rc_at = clk\<rparr>]\<rparr>;
          (m2, a) = answer_to route m1
      in (m2, bind_res a answer_result))"

section \<open>TCP (tcp.rs)\<close>

text \<open>A reqwest error: its own account of its kinds, which overlap, and its chain.\<close>

record reqwest_error =
  re_timeout :: bool
  re_connect :: bool
  re_request :: bool
  re_builder :: bool
  re_body :: bool
  re_decode :: bool
  re_chain :: error_chain

definition tcp_failure :: "reqwest_error \<Rightarrow> transport_error" where
  "tcp_failure e =
     (let detail = describe (re_chain e) in
      if re_timeout e then TimeoutErr
      else if re_connect e then ConnectErr detail
      else if re_request e \<or> re_builder e then TransportProtocol detail
      else if re_body e \<or> re_decode e then StreamResetErr detail
      else ConnectErr detail)"

text \<open>The chunks of a reply in the order they arrive; the end of the list is the end of the body.\<close>

fun read_capped :: "bytes \<Rightarrow> (reqwest_error + bytes) list \<Rightarrow> (transport_error, bytes) result" where
  "read_capped body [] = Ok body"
| "read_capped body (Inl e # chunks) = Err (tcp_failure e)"
| "read_capped body (Inr chunk # chunks) =
     (if MAX_BODY_BYTES < length body + length chunk then Err (BodyTooLarge MAX_BODY_BYTES)
      else read_capped (body @ chunk) chunks)"

record tcp_reply =
  tr_status :: nat
  tr_chunks :: "(reqwest_error + bytes) list"

definition tcp_request :: "(http_request \<Rightarrow> 'n \<Rightarrow> 'n \<times> (reqwest_error + tcp_reply)) \<Rightarrow> 'n transport_fn" where
  "tcp_request wire rq n =
     (case wire rq n of
        (n', Inl e) \<Rightarrow> (n', Err (tcp_failure e))
      | (n', Inr reply) \<Rightarrow>
          (n', map_res (\<lambda>body. \<lparr>hr_status = tr_status reply, hr_body = body\<rparr>) (read_capped [] (tr_chunks reply))))"

lemma read_capped_bounded:
  "read_capped body chunks = Ok b \<Longrightarrow> length body \<le> MAX_BODY_BYTES \<Longrightarrow> length b \<le> MAX_BODY_BYTES"
  by (induction body chunks rule: read_capped.induct) (auto split: if_splits)

interpretation tcp: bounded_transport "tcp_request wire" for wire :: "http_request \<Rightarrow> 'n \<Rightarrow> 'n \<times> (reqwest_error + tcp_reply)"
  by unfold_locales
    (auto simp: tcp_request_def res_simps dest: read_capped_bounded split: prod.splits sum.splits)

section \<open>SCION (scion.rs)\<close>

datatype h3_error =
    H3Resolution | H3Connect | H3StackBuild | H3Tls | H3StreamReset | H3ConnectionLimit
  | H3BodyTooLarge nat | H3Timeout | H3Other

definition scion_failure :: "h3_error \<Rightarrow> error_chain \<Rightarrow> transport_error" where
  "scion_failure e chain =
     (let detail = describe chain in
      case e of
        H3Resolution \<Rightarrow> ResolutionErr detail
      | H3Connect \<Rightarrow> ConnectErr detail
      | H3StackBuild \<Rightarrow> ConnectErr detail
      | H3Tls \<Rightarrow> TlsErr detail
      | H3StreamReset \<Rightarrow> StreamResetErr detail
      | H3ConnectionLimit \<Rightarrow> StreamResetErr detail
      | H3BodyTooLarge limit \<Rightarrow> BodyTooLarge limit
      | H3Timeout \<Rightarrow> TimeoutErr
      | H3Other \<Rightarrow> TransportProtocol detail)"

text \<open>How the underlay is proved to, which certificates are accepted, and which host is overridden.\<close>

datatype scion_auth = NoAuth | StaticToken rstr | TokenSource rstr rstr rstr

record scion_settings =
  se_endhost_api :: rstr
  se_auth :: scion_auth
  se_ca_file :: "rstr option"
  se_verify_peer :: bool
  se_override :: "(rstr \<times> rstr) option"

text \<open>
  What the SCION stack and the \<open>url\<close> crate answer: whether a token source can be built, whether a
  path is UTF-8, the host of a URL, whether a target is a SCION address, and whether a resolver can
  be built.
\<close>

record scion_libs =
  sl_token_source :: "rstr \<Rightarrow> rstr \<Rightarrow> rstr \<Rightarrow> rstr option"
  sl_path_str :: "rstr \<Rightarrow> rstr option"
  sl_host :: "rstr \<Rightarrow> rstr option"
  sl_address :: "rstr \<Rightarrow> rstr + rstr"
  sl_resolver :: "rstr option"

definition scion_resolver :: "scion_libs \<Rightarrow> rstr \<Rightarrow> rstr \<Rightarrow> (chat_error, rstr \<times> rstr) result" where
  "scion_resolver L server_url target =
     (case sl_host L server_url of
        None \<Rightarrow> Err (ConfigErr (lit ''the server url has no host: '' @ server_url))
      | Some host \<Rightarrow>
          (case sl_address L target of
             Inl e \<Rightarrow> Err (ConfigErr (lit ''the target is not a scion address: '' @ e))
           | Inr address \<Rightarrow>
               (case sl_resolver L of
                  Some e \<Rightarrow> Err (ConfigErr (lit ''building a resolver failed: '' @ e))
                | None \<Rightarrow> Ok (host, address))))"

definition scion_new :: "scion_libs \<Rightarrow> scion_config \<Rightarrow> rstr \<Rightarrow> (chat_error, scion_settings) result" where
  "scion_new L c server_url =
     bind_res (case sc_credential c of
         NoCredential \<Rightarrow> Ok NoAuth
       | TokenCredential t \<Rightarrow> Ok (StaticToken (snap_token_str t))
       | ApiKeyCredential a \<Rightarrow>
           (case sl_token_source L (api_key_str (ak_key a)) (ak_aa_url a) (ak_device_id a) of
              Some e \<Rightarrow> Err (ConfigErr (lit ''the AA token source could not be built: '' @ e))
            | None \<Rightarrow> Ok (TokenSource (api_key_str (ak_key a)) (ak_aa_url a) (ak_device_id a))))
     (\<lambda>auth.
     bind_res (case sc_trust c of
         SystemRoots \<Rightarrow> Ok (None, True)
       | Pinned path \<Rightarrow>
           (case sl_path_str L path of
              None \<Rightarrow> Err (ConfigErr (lit ''the certificate path is not utf-8: '' @ path))
            | Some p \<Rightarrow> Ok (Some p, True))
       | Insecure \<Rightarrow> Ok (None, False))
     (\<lambda>(ca, verify_peer).
     bind_res (case sc_target c of
         None \<Rightarrow> Ok None
       | Some target \<Rightarrow> map_res Some (scion_resolver L server_url target))
     (\<lambda>override.
       Ok \<lparr>se_endhost_api = sc_endhost_api c, se_auth = auth, se_ca_file = ca, se_verify_peer = verify_peer,
           se_override = override\<rparr>)))"

text \<open>
  One exchange: building the request, sending it, and collecting the body under the cap; each of
  the three fails in its own way.
\<close>

definition scion_request ::
  "(http_request \<Rightarrow> error_chain option) \<Rightarrow> (http_request \<Rightarrow> 'n \<Rightarrow> 'n \<times> (h3_error \<times> error_chain + nat \<times> 'b))
     \<Rightarrow> ('b \<Rightarrow> nat \<Rightarrow> h3_error \<times> error_chain + bytes) \<Rightarrow> 'n transport_fn" where
  "scion_request build wire collect rq n =
     (case build rq of
        Some e \<Rightarrow> (n, Err (TransportProtocol (describe e)))
      | None \<Rightarrow>
          (case wire rq n of
             (n', Inl (e, chain)) \<Rightarrow> (n', Err (scion_failure e chain))
           | (n', Inr (status, body)) \<Rightarrow>
               (n', (case collect body MAX_BODY_BYTES of
                  Inl (e, chain) \<Rightarrow> Err (scion_failure e chain)
                | Inr bytes \<Rightarrow> Ok \<lparr>hr_status = status, hr_body = bytes\<rparr>))))"

section \<open>Properties\<close>

lemma read_capped_chunks:
  assumes "length body \<le> MAX_BODY_BYTES"
  shows "read_capped body (map Inr cs @ rest) =
    (if length body + length (concat cs) \<le> MAX_BODY_BYTES then read_capped (body @ concat cs) rest
     else Err (BodyTooLarge MAX_BODY_BYTES))"
  using assms by (induction cs arbitrary: body) auto

text \<open>C40: A reply over TCP is the concatenation of its chunks when they all arrive and fit the cap; one
  that exceeds the cap is refused as too large as soon as it does, whatever a header claimed and
  whatever would follow, and a failure before that is reported as that failure. So no call ever
  hands its caller more than the cap.\<close>

theorem tcp_body_capped:
  "read_capped [] (map Inr cs) =
     (if length (concat cs) \<le> MAX_BODY_BYTES then Ok (concat cs) else Err (BodyTooLarge MAX_BODY_BYTES)) \<and>
   read_capped [] (map Inr cs @ Inl e # rest) =
     (if length (concat cs) \<le> MAX_BODY_BYTES then Err (tcp_failure e) else Err (BodyTooLarge MAX_BODY_BYTES)) \<and>
   (\<forall>wire cl m method path body au st st' out. cl_transport cl = tcp_request wire \<longrightarrow>
      execute cl m method path body au st = (st', Ok out) \<longrightarrow> length out \<le> MAX_BODY_BYTES)"
  using read_capped_chunks [of "[]" cs "[]"] read_capped_chunks [of "[]" cs "Inl e # rest"] tcp.execute_bounded
  by auto

corollary tcp_body_capped_witness:
  "read_capped [] [Inr [1, 2], Inr [3]] = Ok [1, 2, 3]"
  using tcp_body_capped [of "[[1, 2], [3]]"] by (simp add: MAX_BODY_BYTES_def)

lemma answer_to_scripted:
  assumes "mk_script m route = Some as" and "as \<noteq> []"
  shows "answer_to route m = (m\<lparr>mk_script := (mk_script m)(route \<mapsto> if length as = 1 then as else tl as)\<rparr>, Ok (hd as))"
proof (cases "1 < length as")
  case False
  then have "length as = 1" using assms(2) by (cases as) auto
  moreover have "(mk_script m)(route \<mapsto> as) = mk_script m" using assms(1) by auto
  ultimately show ?thesis using assms by (simp add: answer_to_def)
qed (use assms in \<open>simp add: answer_to_def\<close>)

fun mock_requests :: "(rstr \<Rightarrow> rstr) \<Rightarrow> (int \<times> http_request) list \<Rightarrow> mock_state
    \<Rightarrow> mock_state \<times> (transport_error, http_reply) result list" where
  "mock_requests up [] m = (m, [])"
| "mock_requests up ((clk, rq) # rqs) m =
     (let (m1, r) = mock_request up clk rq m; (m2, rs) = mock_requests up rqs m1 in (m2, r # rs))"

lemma mock_request_fields:
  "mock_request up clk rq m = (m', r) \<Longrightarrow>
     mk_received m' = mk_received m @ [\<lparr>rc_request = rq, rc_at = clk\<rparr>]"
  by (auto simp: mock_request_def answer_to_def Let_def split: option.splits if_splits prod.splits)

lemma mock_request_scripted:
  assumes "mk_script m (route_of up (hq_method rq) (hq_uri rq)) = Some as" and "as \<noteq> []"
  shows "mock_request up clk rq m =
    (m\<lparr>mk_script := (mk_script m)(route_of up (hq_method rq) (hq_uri rq) \<mapsto> if length as = 1 then as else tl as),
       mk_received := mk_received m @ [\<lparr>rc_request = rq, rc_at = clk\<rparr>]\<rparr>,
     answer_result (hd as))"
  using answer_to_scripted [of "m\<lparr>mk_received := mk_received m @ [\<lparr>rc_request = rq, rc_at = clk\<rparr>]\<rparr>" _ as] assms
  by (simp add: mock_request_def Let_def)

text \<open>The mock gives the answers scripted for a route in the order they were written and repeats
  the last one for ever, other routes' requests in between changing nothing, and records every
  request in the order it came, with its time.\<close>

lemma mock_answers_in_order:
  assumes "mk_script m (route_of up (hq_method rq) (hq_uri rq)) = Some es" and "es \<noteq> []"
    and "mock_requests up (pre @ [(clk, rq)]) m = (m', rs)"
    and "n = length (filter (\<lambda>(t, q). route_of up (hq_method q) (hq_uri q) = route_of up (hq_method rq) (hq_uri rq)) pre)"
  shows "last rs = answer_result (es ! min n (length es - 1)) \<and> mock_request_count m' = mock_request_count m + length pre + 1 \<and>
    mock_arrivals m' = mock_arrivals m @ map fst pre @ [clk]"
  using assms
proof (induction pre arbitrary: m es n rs)
  case Nil
  then show ?case
    by (cases es)
      (auto simp: mock_request_scripted mock_request_count_def mock_arrivals_def split: prod.splits)
next
  case (Cons a pre)
  obtain t q where a: "a = (t, q)" by fastforce
  let ?r = "route_of up (hq_method rq) (hq_uri rq)"
  obtain m1 r1 where run1: "mock_request up t q m = (m1, r1)" by fastforce
  obtain rs2 where run2: "mock_requests up (pre @ [(clk, rq)]) m1 = (m', rs2)" and rs: "rs = r1 # rs2"
    using Cons.prems(3) a run1 by (auto split: prod.splits)
  have ne: "rs2 \<noteq> []"
    using run2 by (cases pre) (auto split: prod.splits)
  have rec: "mk_received m1 = mk_received m @ [\<lparr>rc_request = q, rc_at = t\<rparr>]" by (rule mock_request_fields [OF run1])
  show ?case
  proof (cases "route_of up (hq_method q) (hq_uri q) = ?r")
    case True
    let ?es = "if length es = 1 then es else tl es"
    have "mk_script m1 ?r = Some ?es"
      using run1 mock_request_scripted [of m up q es t] Cons.prems(1,2) True
      by (auto simp: map_tl)
    moreover have "?es \<noteq> []" using Cons.prems(2) by (cases es) auto
    ultimately have "last rs2 = answer_result (?es ! min (n - 1) (length ?es - 1)) \<and>
        mock_request_count m' = mock_request_count m1 + length pre + 1 \<and>
        mock_arrivals m' = mock_arrivals m1 @ map fst pre @ [clk]"
      using Cons.IH [of m1 ?es rs2] run2 Cons.prems(4) True a by simp
    moreover have "?es ! min (n - 1) (length ?es - 1) = es ! min n (length es - 1)"
    proof (cases "length es = 1")
      case False
      then have "2 \<le> length es" using Cons.prems(2) by (cases es) (auto simp: Suc_le_eq)
      moreover have "1 \<le> n" using Cons.prems(4) True a by simp
      ultimately have i: "Suc (min (n - 1) (length es - 2)) = min n (length es - 1)"
        and l: "min (n - 1) (length es - 2) < length (tl es)" by auto
      have "tl es ! min (n - 1) (length es - 2) = es ! min n (length es - 1)"
        using nth_tl [OF l] i by simp
      then show ?thesis using False by (simp add: numeral_2_eq_2)
    qed simp
    ultimately show ?thesis using rs ne rec by (simp add: mock_request_count_def mock_arrivals_def a)
  next
    case False
    have "mk_script m1 ?r = Some es"
      using run1 Cons.prems(1) False
      by (auto simp: mock_request_def answer_to_def Let_def split: option.splits if_splits prod.splits)
    then have "last rs2 = answer_result (es ! min n (length es - 1)) \<and>
        mock_request_count m' = mock_request_count m1 + length pre + 1 \<and>
        mock_arrivals m' = mock_arrivals m1 @ map fst pre @ [clk]"
      using Cons.IH [of m1 es rs2 n] run2 Cons.prems(2,4) False a by simp
    then show ?thesis using rs ne rec by (simp add: mock_request_count_def mock_arrivals_def a)
  qed
qed

corollary mock_answers_in_order_witness:
  "last (snd (mock_requests id [(1, \<lparr>hq_method = MGet, hq_uri = lit ''/r'', hq_content_type = None, hq_authorization = None, hq_body = []\<rparr>),
      (2, \<lparr>hq_method = MGet, hq_uri = lit ''/r'', hq_content_type = None, hq_authorization = None, hq_body = []\<rparr>)]
      (mock_respond (lit ''GET /r'') 500 [2] (mock_fail (lit ''GET /r'') TimeoutErr mock_new)))) =
    Ok \<lparr>hr_status = 500, hr_body = [2]\<rparr>"
proof -
  let ?rq = "\<lparr>hq_method = MGet, hq_uri = lit ''/r'', hq_content_type = None, hq_authorization = None, hq_body = []\<rparr>"
  let ?m = "mock_respond (lit ''GET /r'') 500 [2] (mock_fail (lit ''GET /r'') TimeoutErr mock_new)"
  obtain m' rs where run: "mock_requests id ([(1, ?rq)] @ [(2, ?rq)]) ?m = (m', rs)" by fastforce
  have "mk_script ?m (route_of id (hq_method ?rq) (hq_uri ?rq)) = Some [AnswerFail TimeoutErr, AnswerReply 500 [2]]"
    by (simp add: mock_respond_def mock_fail_def mock_script_def mock_new_def route_of_def method_name_def)
  from mock_answers_in_order [OF this _ run refl]
  show ?thesis using run by (simp add: answer_result_def)
qed

text \<open>A SCION transport checks the server's certificate in every configuration but the one that says
  not to, against exactly the pinned file when one is pinned; and it proves itself with exactly the
  credential configured.\<close>

lemma scion_settings_faithful:
  assumes "scion_new L c server_url = Ok se"
  shows "(se_verify_peer se \<longleftrightarrow> sc_trust c \<noteq> Insecure) \<and>
    se_ca_file se = (case sc_trust c of Pinned path \<Rightarrow> sl_path_str L path | _ \<Rightarrow> None) \<and>
    se_auth se = (case sc_credential c of NoCredential \<Rightarrow> NoAuth | TokenCredential t \<Rightarrow> StaticToken (snap_token_str t)
      | ApiKeyCredential a \<Rightarrow> TokenSource (api_key_str (ak_key a)) (ak_aa_url a) (ak_device_id a)) \<and>
    (sc_target c = None \<longleftrightarrow> se_override se = None) \<and>
    (\<forall>host address. se_override se = Some (host, address) \<longrightarrow> sl_host L server_url = Some host)"
  using assms
  by (auto simp: scion_new_def scion_resolver_def res_simps
      split: credential.splits trust.splits option.splits sum.splits)

corollary scion_settings_faithful_witness:
  "\<exists>se. scion_new \<lparr>sl_token_source = \<lambda>_ _ _. None, sl_path_str = Some, sl_host = Some, sl_address = Inr, sl_resolver = None\<rparr>
      \<lparr>sc_endhost_api = [], sc_credential = NoCredential, sc_target = None, sc_trust = Pinned (lit ''a.pem'')\<rparr> [] = Ok se \<and>
    se_verify_peer se"
proof -
  let ?L = "\<lparr>sl_token_source = \<lambda>_ _ _. None, sl_path_str = Some, sl_host = Some, sl_address = Inr, sl_resolver = None\<rparr>"
  let ?c = "\<lparr>sc_endhost_api = [], sc_credential = NoCredential, sc_target = None, sc_trust = Pinned (lit ''a.pem'')\<rparr>"
  obtain se where "scion_new ?L ?c [] = Ok se" by (simp add: scion_new_def)
  from this scion_settings_faithful [OF this] show ?thesis by auto
qed

end
