(* ===== verification/Error_Text.thy ===== *)
theory Error_Text
  imports Client
begin

text \<open>
  What a client error says (crates/chat-client-core/src/error.rs): the \<open>Display\<close> of the two error
  types, and the derived \<open>Debug\<close> of an error code that one of them shows. How \<open>Debug\<close> quotes a
  string is the argument \<open>dbg\<close>.
\<close>

fun error_code_debug :: "(rstr \<Rightarrow> rstr) \<Rightarrow> error_code \<Rightarrow> rstr" where
  "error_code_debug dbg InvalidBody = lit ''InvalidBody''"
| "error_code_debug dbg Internal = lit ''Internal''"
| "error_code_debug dbg Unauthorized = lit ''Unauthorized''"
| "error_code_debug dbg ExpiredToken = lit ''ExpiredToken''"
| "error_code_debug dbg InvalidCredentials = lit ''InvalidCredentials''"
| "error_code_debug dbg UsernameTaken = lit ''UsernameTaken''"
| "error_code_debug dbg InvalidUsername = lit ''InvalidUsername''"
| "error_code_debug dbg InvalidName = lit ''InvalidName''"
| "error_code_debug dbg RoomNotFound = lit ''RoomNotFound''"
| "error_code_debug dbg MessageTooLarge = lit ''MessageTooLarge''"
| "error_code_debug dbg CapExceeded = lit ''CapExceeded''"
| "error_code_debug dbg (Other s) = lit ''Other(UnknownCode('' @ dbg s @ lit ''))''"

fun transport_error_text :: "transport_error \<Rightarrow> rstr" where
  "transport_error_text (ResolutionErr e) = lit ''cannot resolve the server: '' @ e"
| "transport_error_text (ConnectErr e) = lit ''cannot reach the server: '' @ e"
| "transport_error_text (TlsErr e) = lit ''the server's identity was refused: '' @ e"
| "transport_error_text (StreamResetErr e) = lit ''the connection dropped: '' @ e"
| "transport_error_text (TransportProtocol e) = lit ''the exchange did not follow HTTP: '' @ e"
| "transport_error_text (BodyTooLarge limit) = lit ''the reply exceeds the '' @ dec limit @ lit '' byte limit''"
| "transport_error_text TimeoutErr = lit ''the server did not answer in time''"

fun chat_error_text :: "(rstr \<Rightarrow> rstr) \<Rightarrow> chat_error \<Rightarrow> rstr" where
  "chat_error_text dbg (ConfigErr e) = lit ''configuration: '' @ e"
| "chat_error_text dbg (TransportErr e) = transport_error_text e"
| "chat_error_text dbg (ApiErr status code message) =
     error_code_debug dbg code @ lit '' ('' @ dec status @ lit ''): '' @ message"
| "chat_error_text dbg (ProtocolErr e) = lit ''the server sent a reply this client cannot read: '' @ e"
| "chat_error_text dbg NotLoggedIn = lit ''no one is logged in''"
| "chat_error_text dbg SessionExpired = lit ''the session has ended; log in again''"

end
