(* ===== verification/Ui.thy ===== *)
theory Ui
  imports Rust_Str
begin

text \<open>
  What the terminal client's screens share (crates/chat-ui-ratatui/src/ui.rs and ui/): fitting a
  text into columns, the colour of a name, the text of a choice and of a masked field, and the keys
  a screen reads. How wide a character or a string is drawn is the unicode-width crate's to say and an
  argument here, as is the editable line of the tui-input crate.
\<close>

section \<open>Keys\<close>

datatype key_code =
    KEnter | KTab | KBackTab | KUp | KDown | KLeft | KRight | KPageUp | KPageDown | KEsc
  | KChar uchar | KOther nat

record key =
  k_code :: key_code
  k_control :: bool

section \<open>The libraries\<close>

text \<open>\<open>wl_char\<close> has no width for a control character.\<close>

record width_lib =
  wl_char :: "uchar \<Rightarrow> nat option"
  wl_str :: "rstr \<Rightarrow> nat"

text \<open>An editable line: made from a text, read back, and fed a key.\<close>

record 'i input_lib =
  in_new :: "rstr \<Rightarrow> 'i"
  in_value :: "'i \<Rightarrow> rstr"
  in_event :: "key \<Rightarrow> 'i \<Rightarrow> 'i"

definition input_ok :: "'i input_lib \<Rightarrow> bool" where
  "input_ok I \<longleftrightarrow> (\<forall>s. in_value I (in_new I s) = s)"

section \<open>Columns (ui.rs)\<close>

definition NAME_WIDTH :: nat where
  "NAME_WIDTH = 10"

definition BODY_COLUMN :: nat where
  "BODY_COLUMN = NAME_WIDTH + 1"

definition ELLIPSIS :: uchar where
  "ELLIPSIS = 8230"

definition char_columns :: "width_lib \<Rightarrow> uchar \<Rightarrow> nat" where
  "char_columns W c = (case wl_char W c of Some n \<Rightarrow> n | None \<Rightarrow> 0)"

text \<open>The loop of \<open>clip\<close>: characters are kept while they fit, from \<open>taken\<close> columns on.\<close>

fun clip_chars :: "width_lib \<Rightarrow> nat \<Rightarrow> nat \<Rightarrow> rstr \<Rightarrow> rstr" where
  "clip_chars W room taken [] = []"
| "clip_chars W room taken (c # s) =
     (if room < taken + char_columns W c then []
      else c # clip_chars W room (taken + char_columns W c) s)"

definition clip :: "width_lib \<Rightarrow> rstr \<Rightarrow> nat \<Rightarrow> rstr" where
  "clip W text width =
     (if wl_str W text \<le> width then text
      else (let room = width - (case wl_char W ELLIPSIS of Some n \<Rightarrow> n | None \<Rightarrow> 1)
            in clip_chars W room 0 text @ [ELLIPSIS]))"

definition right_align :: "width_lib \<Rightarrow> rstr \<Rightarrow> nat \<Rightarrow> rstr" where
  "right_align W text width =
     (let t = clip W text width in replicate (width - wl_str W t) 32 @ t)"

text \<open>The text of a complaint: the mark, then what went wrong.\<close>

definition warning :: "rstr \<Rightarrow> rstr" where
  "warning message = 9888 # 32 # message"

section \<open>Colours (theme.rs)\<close>

datatype colour = Rgb u8 u8 u8

definition OWN_NICKNAME :: colour where
  "OWN_NICKNAME = Rgb 0xf5 0xd7 0x6e"

definition NICKNAMES :: "colour list" where
  "NICKNAMES =
     [Rgb 0xf6 0xb6 0xc9, Rgb 0x9c 0xd1 0xbb, Rgb 0xb1 0xb6 0x95, Rgb 0xd7 0xbd 0xe2, Rgb 0x4a 0x90 0xe2,
      Rgb 0xd2 0x53 0xd8, Rgb 0xaf 0x8d 0x9f, Rgb 0xb4 0xa7 0xd6, Rgb 0xff 0xa0 0x7a]"

text \<open>FNV-1a over the UTF-8 bytes, in 64-bit arithmetic that wraps.\<close>

definition fnv_step :: "u64 \<Rightarrow> nat \<Rightarrow> u64" where
  "fnv_step hash byte = xor hash (of_nat byte) * 0x100000001b3"

definition fnv1a :: "nat list \<Rightarrow> u64" where
  "fnv1a bytes = foldl fnv_step 0xcbf29ce484222325 bytes"

definition nickname :: "rstr \<Rightarrow> colour" where
  "nickname name = NICKNAMES ! unat (fnv1a (as_bytes name) mod of_nat (length NICKNAMES))"

section \<open>Fields (field.rs)\<close>

datatype field_state = Focused | FieldIdle | Disabled

definition field_focused :: "bool \<Rightarrow> field_state" where
  "field_focused yes = (if yes then Focused else FieldIdle)"

definition MASK :: uchar where
  "MASK = 8226"

text \<open>What a field shows of its value: one mask per column when it is masked.\<close>

definition field_shown :: "width_lib \<Rightarrow> bool \<Rightarrow> rstr \<Rightarrow> rstr" where
  "field_shown W masked value = (if masked then replicate (wl_str W value) MASK else value)"

text \<open>The options of a choice, the chosen one in brackets.\<close>

definition choice_text :: "(rstr \<times> bool) list \<Rightarrow> rstr" where
  "choice_text options =
     concat (map (\<lambda>(label, chosen). lit '' '' @
        (if chosen then lit ''['' @ label @ lit '']'' else lit '' '' @ label @ lit '' '')) options)"

section \<open>Properties\<close>

text \<open>The columns the characters of a text take one by one.\<close>

definition columns :: "width_lib \<Rightarrow> rstr \<Rightarrow> nat" where
  "columns W s = sum_list (map (char_columns W) s)"

lemma columns_simps [simp]:
  "columns W [] = 0" "columns W (c # s) = char_columns W c + columns W s"
  "columns W (s @ t) = columns W s + columns W t"
  by (simp_all add: columns_def)

lemma clip_chars_fit: "taken \<le> room \<Longrightarrow> taken + columns W (clip_chars W room taken s) \<le> room"
  by (induction W room taken s rule: clip_chars.induct) (auto simp: algebra_simps)

lemma clip_chars_prefix: "\<exists>rest. s = clip_chars W room taken s @ rest"
  by (induction W room taken s rule: clip_chars.induct) auto

text \<open>A text is left as it is when it fits its columns; otherwise what is drawn is a beginning of it
  and the ellipsis, and its characters take at most the columns given. Right alignment pads to
  exactly the width, so a column of names lines up, for every text whose width is the sum of its
  characters' widths.\<close>

lemma clip_fits:
  assumes "wl_char W ELLIPSIS = Some 1" and "0 < width" and "wl_char W 32 = Some 1"
    and "\<And>s. wl_str W s = columns W s"
  shows "(wl_str W text \<le> width \<longrightarrow> clip W text width = text) \<and>
    (width < wl_str W text \<longrightarrow> (\<exists>kept rest. text = kept @ rest \<and> clip W text width = kept @ [ELLIPSIS])) \<and>
    wl_str W (clip W text width) \<le> width \<and> wl_str W (right_align W text width) = width"
proof -
  have ell: "char_columns W ELLIPSIS = 1" and sp: "char_columns W 32 = 1"
    using assms(1,3) by (simp_all add: char_columns_def)
  have long: "clip W text width = clip_chars W (width - 1) 0 text @ [ELLIPSIS]" if "width < wl_str W text"
    using that assms(1) by (simp add: clip_def)
  have fit: "wl_str W (clip W text width) \<le> width"
  proof (cases "wl_str W text \<le> width")
    case False
    then show ?thesis
      using long ell assms(2,4) clip_chars_fit [of 0 "width - 1" W "text"] by simp
  qed (simp add: clip_def)
  have "columns W (replicate n 32) = n" for n by (induction n) (simp_all add: sp)
  then have "wl_str W (right_align W text width) = width"
    using fit assms(4) by (simp add: right_align_def Let_def)
  moreover have "\<exists>kept rest. text = kept @ rest \<and> clip W text width = kept @ [ELLIPSIS]" if "width < wl_str W text"
    using long[OF that] clip_chars_prefix by blast
  ultimately show ?thesis using fit by (simp add: clip_def)
qed

text \<open>Every character one column wide.\<close>

definition plain_widths :: width_lib where
  "plain_widths = \<lparr>wl_char = (\<lambda>_. Some 1), wl_str = length\<rparr>"

lemma plain_columns: "columns plain_widths s = length s"
  by (induction s) (simp_all add: char_columns_def plain_widths_def)

corollary clip_fits_witness:
  "wl_str plain_widths (right_align plain_widths (lit ''a very long name'') NAME_WIDTH) = 10"
  using clip_fits [of plain_widths NAME_WIDTH "lit ''a very long name''"]
  by (simp add: plain_columns) (simp add: plain_widths_def NAME_WIDTH_def)

text \<open>
  unicode-width counts a character followed by the emoji variation selector U+FE0F as two columns,
  where the two characters on their own count one and none.
\<close>

fun emoji_width :: "rstr \<Rightarrow> nat" where
  "emoji_width (c # d # s) = (if d = 65039 then 2 + emoji_width s else 1 + emoji_width (d # s))"
| "emoji_width [c] = 1"
| "emoji_width [] = 0"

definition emoji_widths :: width_lib where
  "emoji_widths = \<lparr>wl_char = (\<lambda>c. Some (if c = 65039 then 0 else 1)), wl_str = emoji_width\<rparr>"

lemma emoji_run_width:
  "emoji_width (concat (replicate n [9786, 65039])) = 2 * n"
  "emoji_width (concat (replicate n [9786, 65039]) @ [ELLIPSIS]) = 2 * n + 1"
  by (induction n) (simp_all add: ELLIPSIS_def)

lemma emoji_run_clip:
  "clip_chars emoji_widths room taken (concat (replicate n [9786, 65039])) =
     concat (replicate (min n (room - taken)) [9786, 65039])"
proof (induction n arbitrary: taken)
  case (Suc n)
  show ?case
  proof (cases "room < taken + 1")
    case False
    then have "room - taken = Suc (room - (taken + 1))" by simp
    then show ?thesis using False Suc [of "taken + 1"] by (simp add: char_columns_def emoji_widths_def)
  qed (simp add: char_columns_def emoji_widths_def)
qed simp

text \<open>The columns are counted character by character while the text is measured whole, and the two
  disagree on such emoji: a name of them is cut to more columns than it was given, and the row it
  heads is out of line.\<close>

lemma clip_overflows_on_emoji:
  "wl_str emoji_widths (clip emoji_widths (concat (replicate n [9786, 65039])) NAME_WIDTH) =
     (if n \<le> 5 then 2 * n else if n \<le> 9 then 2 * n + 1 else 19)"
proof (cases "n \<le> 5")
  case True
  then show ?thesis by (simp add: clip_def emoji_widths_def emoji_run_width NAME_WIDTH_def)
next
  case False
  then have "clip emoji_widths (concat (replicate n [9786, 65039])) NAME_WIDTH =
      concat (replicate (min n 9) [9786, 65039]) @ [ELLIPSIS]"
    using emoji_run_clip [of 9 0 n]
    by (simp add: clip_def NAME_WIDTH_def) (simp add: emoji_widths_def emoji_run_width ELLIPSIS_def)
  then show ?thesis using False by (simp add: emoji_widths_def emoji_run_width min_def)
qed

text \<open>A name's colour is a function of its bytes alone, always one of the nine and never out of
  range, whatever the 64-bit hash wraps to.\<close>

lemma nickname_in_palette: "nickname name \<in> set NICKNAMES"
proof -
  let ?h = "fnv1a (as_bytes name)"
  have "unat (?h mod of_nat (length NICKNAMES)) = unat ?h mod 9"
    by (simp add: unat_mod_distrib NICKNAMES_def)
  then show ?thesis
    unfolding nickname_def by (intro nth_mem) (simp add: NICKNAMES_def)
qed

lemma fnv_known: "fnv1a (as_bytes (lit ''a'')) = 0xaf63dc4c8601ec8c"
  by (simp add: fnv1a_def fnv_step_def utf8_char.simps)

end
