(* ===== verification/Sign_In.thy ===== *)
theory Sign_In
  imports Ui
begin

text \<open>
  The sign-in screen (crates/chat-ui-ratatui/src/screens/sign\_in.rs): two editable lines, the one
  with the focus, and the keys that register or log in.
\<close>

section \<open>The screen\<close>

datatype sign_in_intent = SRegister | SLogIn

datatype sign_in_focus = FUsername | FPassword

record 'i sign_in =
  si_username :: 'i
  si_password :: 'i
  si_focus :: sign_in_focus
  si_error :: "rstr option"

definition sign_in_default :: "'i input_lib \<Rightarrow> 'i sign_in" where
  "sign_in_default I =
     \<lparr>si_username = in_new I [], si_password = in_new I [], si_focus = FUsername, si_error = None\<rparr>"

definition credentials :: "'i input_lib \<Rightarrow> 'i sign_in \<Rightarrow> rstr \<times> rstr" where
  "credentials I s = (in_value I (si_username s), in_value I (si_password s))"

definition name_too_long :: rstr where
  "name_too_long = lit ''username is too long - '' @ dec NAME_WIDTH @ lit '' characters max''"

definition sign_in_register :: "width_lib \<Rightarrow> 'i input_lib \<Rightarrow> 'i sign_in \<Rightarrow> 'i sign_in \<times> sign_in_intent option" where
  "sign_in_register W I s =
     (if NAME_WIDTH < wl_str W (in_value I (si_username s))
      then (s\<lparr>si_error := Some name_too_long\<rparr>, None)
      else (s\<lparr>si_error := None\<rparr>, Some SRegister))"

text \<open>The focused line, given a key.\<close>

definition sign_in_type :: "'i input_lib \<Rightarrow> key \<Rightarrow> 'i sign_in \<Rightarrow> 'i sign_in" where
  "sign_in_type I k s =
     (case si_focus s of
        FUsername \<Rightarrow> s\<lparr>si_username := in_event I k (si_username s)\<rparr>
      | FPassword \<Rightarrow> s\<lparr>si_password := in_event I k (si_password s)\<rparr>)"

definition sign_in_key ::
  "width_lib \<Rightarrow> 'i input_lib \<Rightarrow> key \<Rightarrow> bool \<Rightarrow> 'i sign_in \<Rightarrow> 'i sign_in \<times> sign_in_intent option" where
  "sign_in_key W I k pending s =
     (if k_code k = KChar 114 \<and> k_control k
      then (if pending then (s, None) else sign_in_register W I s)
      else
        (case k_code k of
           KEnter \<Rightarrow> if pending then (s, None) else (s\<lparr>si_error := None\<rparr>, Some SLogIn)
         | KTab \<Rightarrow> (s\<lparr>si_focus := FPassword\<rparr>, None)
         | KDown \<Rightarrow> (s\<lparr>si_focus := FPassword\<rparr>, None)
         | KBackTab \<Rightarrow> (s\<lparr>si_focus := FUsername\<rparr>, None)
         | KUp \<Rightarrow> (s\<lparr>si_focus := FUsername\<rparr>, None)
         | _ \<Rightarrow> (sign_in_type I k s, None)))"

lemma sign_in_pending: "snd (sign_in_key W I k True s) = None"
  by (simp add: sign_in_key_def split: key_code.split)

lemma sign_in_asks:
  "sign_in_key W I k pending s = (s', Some intent) \<Longrightarrow>
     \<not> pending \<and> credentials I s' = credentials I s \<and>
     (intent = SRegister \<longrightarrow> wl_str W (fst (credentials I s')) \<le> NAME_WIDTH)"
  by (auto simp: sign_in_key_def sign_in_register_def credentials_def split: if_splits key_code.splits)

text \<open>A form that is focused one field at a time: what is typed goes to that field only.\<close>

lemma sign_in_type_other:
  "si_focus s = FUsername \<Longrightarrow> si_password (sign_in_type I k s) = si_password s"
  "si_focus s = FPassword \<Longrightarrow> si_username (sign_in_type I k s) = si_username s"
  by (simp_all add: sign_in_type_def)

end
