(* ===== verification/Connection_Screen.thy ===== *)
theory Connection_Screen
  imports Client Ui
begin

text \<open>
  The connection screen (crates/chat-ui-ratatui/src/screens/connection.rs): the form the command
  line fills in, the three choices, the tab order, the keys, and the form that Enter hands over.
\<close>

section \<open>The form\<close>

datatype transport_choice = TScion | TTcp

definition transport_other :: "transport_choice \<Rightarrow> transport_choice" where
  "transport_other t = (case t of TScion \<Rightarrow> TTcp | TTcp \<Rightarrow> TScion)"

definition scheme :: "transport_choice \<Rightarrow> rstr" where
  "scheme t = (case t of TScion \<Rightarrow> lit ''https'' | TTcp \<Rightarrow> lit ''http'')"

definition transport_as_str :: "transport_choice \<Rightarrow> rstr" where
  "transport_as_str t = (case t of TScion \<Rightarrow> lit ''scion'' | TTcp \<Rightarrow> lit ''tcp'')"

record connection_form =
  fm_transport :: transport_choice
  fm_server_url :: rstr
  fm_endhost_api :: rstr
  fm_target :: rstr
  fm_cert_path :: rstr
  fm_insecure :: bool
  fm_auth_api_key :: api_key
  fm_snap_token :: snap_token
  fm_aa_url :: rstr

definition form_default :: connection_form where
  "form_default = \<lparr>fm_transport = TScion, fm_server_url = DEV_SERVER_URL, fm_endhost_api = [], fm_target = [],
     fm_cert_path = [], fm_insecure = False, fm_auth_api_key = ApiKey [], fm_snap_token = SnapToken [],
     fm_aa_url = ANAPAYA_AA\<rparr>"

section \<open>The choices\<close>

datatype credential_choice = CApiKey | CToken

definition credential_choice_of :: "connection_form \<Rightarrow> credential_choice" where
  "credential_choice_of f = (if snap_token_str (fm_snap_token f) = [] then CApiKey else CToken)"

definition credential_other :: "credential_choice \<Rightarrow> credential_choice" where
  "credential_other c = (case c of CApiKey \<Rightarrow> CToken | CToken \<Rightarrow> CApiKey)"

definition credential_label :: "credential_choice \<Rightarrow> rstr" where
  "credential_label c = (case c of CApiKey \<Rightarrow> lit '' Auth API key '' | CToken \<Rightarrow> lit '' SNAP token '')"

datatype trust_choice = TrSystem | TrPinned | TrInsecure

definition trust_choice_of :: "connection_form \<Rightarrow> trust_choice" where
  "trust_choice_of f =
     (if fm_insecure f then TrInsecure else if fm_cert_path f = [] then TrSystem else TrPinned)"

definition trust_next :: "trust_choice \<Rightarrow> trust_choice" where
  "trust_next t = (case t of TrSystem \<Rightarrow> TrPinned | TrPinned \<Rightarrow> TrInsecure | TrInsecure \<Rightarrow> TrSystem)"

definition trust_previous :: "trust_choice \<Rightarrow> trust_choice" where
  "trust_previous t = trust_next (trust_next t)"

section \<open>The tab order\<close>

datatype conn_focus =
  FTransport | FServerUrl | FEndhostApi | FTarget | FTrust | FCertPath | FCredential | FSecret

fun focus_shown :: "bool \<Rightarrow> bool \<Rightarrow> conn_focus list" where
  "focus_shown False _ = [FTransport, FServerUrl]"
| "focus_shown True False = [FTransport, FServerUrl, FEndhostApi, FTarget, FTrust, FCredential, FSecret]"
| "focus_shown True True =
     [FTransport, FServerUrl, FEndhostApi, FTarget, FTrust, FCertPath, FCredential, FSecret]"

text \<open>\<open>Iterator::position\<close>.\<close>

fun index_of :: "'a \<Rightarrow> 'a list \<Rightarrow> nat option" where
  "index_of x [] = None"
| "index_of x (y # ys) = (if y = x then Some 0 else map_option Suc (index_of x ys))"

definition focus_step :: "conn_focus \<Rightarrow> bool \<Rightarrow> bool \<Rightarrow> int \<Rightarrow> conn_focus" where
  "focus_step f scion pinned by' =
     (let shown = focus_shown scion pinned;
          at = (case index_of f shown of Some i \<Rightarrow> i | None \<Rightarrow> 0);
          len = int (length shown)
      in shown ! nat ((int at + by') mod len))"

definition focus_next :: "conn_focus \<Rightarrow> bool \<Rightarrow> bool \<Rightarrow> conn_focus" where
  "focus_next f scion pinned = focus_step f scion pinned 1"

definition focus_previous :: "conn_focus \<Rightarrow> bool \<Rightarrow> bool \<Rightarrow> conn_focus" where
  "focus_previous f scion pinned = focus_step f scion pinned (- 1)"

lemma focus_step_shown: "focus_step f scion pinned d \<in> set (focus_shown scion pinned)"
proof -
  have len: "0 < int (length (focus_shown scion pinned))"
    by (cases scion; cases pinned) simp_all
  then have "nat ((i + d) mod int (length (focus_shown scion pinned))) < length (focus_shown scion pinned)" for i
    by (simp add: nat_less_iff)
  then show ?thesis unfolding focus_step_def Let_def by (intro nth_mem)
qed

lemma focus_round:
  "f \<in> set (focus_shown scion pinned) \<Longrightarrow> focus_previous (focus_next f scion pinned) scion pinned = f"
  "f \<in> set (focus_shown scion pinned) \<Longrightarrow> focus_next (focus_previous f scion pinned) scion pinned = f"
  by (cases scion; cases pinned; cases f; simp add: focus_next_def focus_previous_def focus_step_def)+

section \<open>The screen\<close>

record 'i connection =
  cn_transport :: transport_choice
  cn_server_url :: 'i
  cn_endhost_api :: 'i
  cn_target :: 'i
  cn_trust :: trust_choice
  cn_cert_path :: 'i
  cn_credential :: credential_choice
  cn_auth_api_key :: 'i
  cn_snap_token :: 'i
  cn_aa_url :: rstr
  cn_focus :: conn_focus
  cn_error :: "rstr option"

definition connection_new :: "'i input_lib \<Rightarrow> connection_form \<Rightarrow> 'i connection" where
  "connection_new I f =
     \<lparr>cn_transport = fm_transport f, cn_server_url = in_new I (fm_server_url f),
      cn_endhost_api = in_new I (fm_endhost_api f), cn_target = in_new I (fm_target f),
      cn_trust = trust_choice_of f, cn_cert_path = in_new I (fm_cert_path f),
      cn_credential = credential_choice_of f, cn_auth_api_key = in_new I (api_key_str (fm_auth_api_key f)),
      cn_snap_token = in_new I (snap_token_str (fm_snap_token f)), cn_aa_url = fm_aa_url f,
      cn_focus = FTransport, cn_error = None\<rparr>"

definition cn_scion :: "'i connection \<Rightarrow> bool" where
  "cn_scion c \<longleftrightarrow> cn_transport c = TScion"

definition cn_pinned :: "'i connection \<Rightarrow> bool" where
  "cn_pinned c \<longleftrightarrow> cn_trust c = TrPinned"

definition cn_secret :: "'i connection \<Rightarrow> 'i" where
  "cn_secret c = (case cn_credential c of CApiKey \<Rightarrow> cn_auth_api_key c | CToken \<Rightarrow> cn_snap_token c)"

text \<open>\<open>form\<close>: every field as typed, trimmed; what the choices leave unused goes out empty.\<close>

definition connection_form_of :: "'i input_lib \<Rightarrow> 'i connection \<Rightarrow> connection_form" where
  "connection_form_of I c =
     \<lparr>fm_transport = cn_transport c,
      fm_server_url = trim (in_value I (cn_server_url c)),
      fm_endhost_api = trim (in_value I (cn_endhost_api c)),
      fm_target = trim (in_value I (cn_target c)),
      fm_cert_path = (if cn_pinned c then trim (in_value I (cn_cert_path c)) else []),
      fm_insecure = (cn_trust c = TrInsecure),
      fm_auth_api_key = (case cn_credential c of
         CApiKey \<Rightarrow> ApiKey (trim (in_value I (cn_auth_api_key c))) | CToken \<Rightarrow> ApiKey []),
      fm_snap_token = (case cn_credential c of
         CApiKey \<Rightarrow> SnapToken [] | CToken \<Rightarrow> SnapToken (trim (in_value I (cn_snap_token c)))),
      fm_aa_url = cn_aa_url c\<rparr>"

text \<open>\<open>focused_mut\<close> fed a key: three of the fields have nothing to type into.\<close>

definition connection_type :: "'i input_lib \<Rightarrow> key \<Rightarrow> 'i connection \<Rightarrow> 'i connection" where
  "connection_type I k c =
     (let t = in_event I k in
      case cn_focus c of
        FServerUrl \<Rightarrow> c\<lparr>cn_server_url := t (cn_server_url c)\<rparr>
      | FEndhostApi \<Rightarrow> c\<lparr>cn_endhost_api := t (cn_endhost_api c)\<rparr>
      | FTarget \<Rightarrow> c\<lparr>cn_target := t (cn_target c)\<rparr>
      | FCertPath \<Rightarrow> c\<lparr>cn_cert_path := t (cn_cert_path c)\<rparr>
      | FSecret \<Rightarrow>
          (case cn_credential c of
             CApiKey \<Rightarrow> c\<lparr>cn_auth_api_key := t (cn_auth_api_key c)\<rparr>
           | CToken \<Rightarrow> c\<lparr>cn_snap_token := t (cn_snap_token c)\<rparr>)
      | _ \<Rightarrow> c)"

definition connection_key ::
  "'i input_lib \<Rightarrow> key \<Rightarrow> bool \<Rightarrow> 'i connection \<Rightarrow> 'i connection \<times> connection_form option" where
  "connection_key I k pending c =
     (if k_code k = KEnter then
        (if pending then (c, None)
         else (let c' = c\<lparr>cn_error := None\<rparr> in (c', Some (connection_form_of I c'))))
      else
        (let flips = k_code k \<in> {KLeft, KRight, KChar 32} in
         (if k_code k \<in> {KTab, KDown}
            then c\<lparr>cn_focus := focus_next (cn_focus c) (cn_scion c) (cn_pinned c)\<rparr>
          else if k_code k \<in> {KBackTab, KUp}
            then c\<lparr>cn_focus := focus_previous (cn_focus c) (cn_scion c) (cn_pinned c)\<rparr>
          else if flips \<and> cn_focus c = FTransport
            then c\<lparr>cn_transport := transport_other (cn_transport c)\<rparr>
          else if flips \<and> cn_focus c = FCredential
            then c\<lparr>cn_credential := credential_other (cn_credential c)\<rparr>
          else if k_code k = KLeft \<and> cn_focus c = FTrust
            then c\<lparr>cn_trust := trust_previous (cn_trust c)\<rparr>
          else if k_code k \<in> {KRight, KChar 32} \<and> cn_focus c = FTrust
            then c\<lparr>cn_trust := trust_next (cn_trust c)\<rparr>
          else connection_type I k c, None)))"

section \<open>What is drawn as a field\<close>

definition conn_field_state :: "'i connection \<Rightarrow> conn_focus \<Rightarrow> field_state" where
  "conn_field_state c f =
     (if cn_focus c = f then Focused
      else if cn_scion c \<or> f = FServerUrl then FieldIdle else Disabled)"

definition conn_choices :: "'i connection \<Rightarrow> (rstr \<times> (rstr \<times> bool) list) list" where
  "conn_choices c =
     [(lit '' Transport '', [(lit ''SCION'', cn_scion c), (lit ''TCP'', \<not> cn_scion c)]),
      (lit '' Trust '', [(lit ''System roots'', cn_trust c = TrSystem), (lit ''Pinned'', cn_pinned c),
         (lit ''No check'', cn_trust c = TrInsecure)]),
      (lit '' Credential '', [(lit ''API key'', cn_credential c = CApiKey),
         (lit ''SNAP token'', cn_credential c = CToken)])]"

section \<open>Lemmas\<close>

text \<open>The focus is always on a field that is on screen, and the AA's address never changes.\<close>

definition connection_ok :: "'i connection \<Rightarrow> bool" where
  "connection_ok c \<longleftrightarrow> cn_focus c \<in> set (focus_shown (cn_scion c) (cn_pinned c))"

lemma connection_new_ok: "connection_ok (connection_new I f)"
  by (cases "cn_scion (connection_new I f)"; cases "cn_pinned (connection_new I f)")
    (auto simp: connection_ok_def connection_new_def)

lemma connection_type_keeps [simp]:
  "cn_focus (connection_type I k c) = cn_focus c" "cn_transport (connection_type I k c) = cn_transport c"
  "cn_trust (connection_type I k c) = cn_trust c" "cn_credential (connection_type I k c) = cn_credential c"
  "cn_aa_url (connection_type I k c) = cn_aa_url c" "cn_error (connection_type I k c) = cn_error c"
  by (simp_all add: connection_type_def Let_def split: conn_focus.split credential_choice.split)

lemma shown_transport: "FTransport \<in> set (focus_shown scion pinned)"
  by (cases scion; cases pinned) simp_all

lemma shown_trust: "FTrust \<in> set (focus_shown scion pinned) \<longleftrightarrow> scion"
  by (cases scion; cases pinned) simp_all

lemma connection_key_ok:
  assumes "connection_ok c"
  shows "connection_ok (fst (connection_key I k pending c))"
  using assms focus_step_shown [of "cn_focus c" "cn_scion c" "cn_pinned c"]
    shown_transport shown_trust
  by (auto simp: connection_key_def connection_ok_def Let_def focus_next_def focus_previous_def
      cn_scion_def cn_pinned_def)

lemma connection_key_pending: "snd (connection_key I k True c) = None"
  by (simp add: connection_key_def Let_def)

lemma connection_form_error [simp]: "connection_form_of I (c\<lparr>cn_error := e\<rparr>) = connection_form_of I c"
  by (cases "cn_credential c") (simp_all add: connection_form_of_def cn_pinned_def)

lemma connection_key_form:
  "connection_key I k pending c = (c', Some f) \<Longrightarrow> \<not> pending \<and> f = connection_form_of I c \<and> k_code k = KEnter"
  by (auto simp: connection_key_def Let_def split: if_splits)

text \<open>What the choices leave unused is not sent on.\<close>

lemma form_one_trust: "fm_insecure (connection_form_of I c) \<Longrightarrow> fm_cert_path (connection_form_of I c) = []"
  by (simp add: connection_form_of_def cn_pinned_def)

lemma form_one_credential:
  "api_key_str (fm_auth_api_key (connection_form_of I c)) = [] \<or>
   snap_token_str (fm_snap_token (connection_form_of I c)) = []"
  by (simp add: connection_form_of_def split: credential_choice.split)

lemma connection_key_hands:
  assumes "connection_key I k pending c = (c', Some f)"
  shows "\<not> pending \<and> k_code k = KEnter \<and> cn_error c' = None \<and>
    (fm_insecure f \<longrightarrow> fm_cert_path f = []) \<and>
    (api_key_str (fm_auth_api_key f) = [] \<or> snap_token_str (fm_snap_token f) = [])"
proof -
  have "f = connection_form_of I c" "\<not> pending" "k_code k = KEnter"
    using connection_key_form [OF assms] by simp_all
  moreover have "cn_error c' = None"
    using assms by (auto simp: connection_key_def Let_def split: if_splits)
  ultimately show ?thesis using form_one_trust form_one_credential by metis
qed

section \<open>Properties\<close>

text \<open>Keys read one after another, each with whether a call was out at the time.\<close>

definition connection_keys :: "'i input_lib \<Rightarrow> (key \<times> bool) list \<Rightarrow> 'i connection \<Rightarrow> 'i connection" where
  "connection_keys I ks c = foldl (\<lambda>c (k, pending). fst (connection_key I k pending c)) c ks"

lemma connection_keys_ok: "connection_ok c \<Longrightarrow> connection_ok (connection_keys I ks c)"
  unfolding connection_keys_def
  by (induction ks arbitrary: c) (auto intro: connection_key_ok)

text \<open>After any keys on the connection screen the focus is on a field that is on screen, so no key
  is typed into a hidden one; Tab and Shift+Tab undo each other; and Enter, refused while a call is
  out, hands over a form that never names two ways of trusting the server nor two credentials.\<close>

lemma connection_keys_safe:
  assumes "connection_key I k pending (connection_keys I ks (connection_new I launched)) = (c, handed)"
  shows "cn_focus c \<in> set (focus_shown (cn_scion c) (cn_pinned c)) \<and>
    focus_previous (focus_next (cn_focus c) (cn_scion c) (cn_pinned c)) (cn_scion c) (cn_pinned c) = cn_focus c \<and>
    (case handed of None \<Rightarrow> True
     | Some f \<Rightarrow> \<not> pending \<and> k_code k = KEnter \<and> cn_error c = None \<and>
         (fm_insecure f \<longrightarrow> fm_cert_path f = []) \<and>
         (api_key_str (fm_auth_api_key f) = [] \<or> snap_token_str (fm_snap_token f) = []))"
proof -
  have "connection_ok c"
    using connection_key_ok [OF connection_keys_ok [OF connection_new_ok]] assms by (metis fst_conv)
  moreover note connection_key_hands [of I k pending "connection_keys I ks (connection_new I launched)" c "the handed"] assms
  ultimately show ?thesis
    by (cases handed) (simp_all add: connection_ok_def focus_round)
qed

text \<open>A line that keeps what it was made of.\<close>

definition line_input :: "rstr input_lib" where
  "line_input = \<lparr>in_new = (\<lambda>s. s), in_value = (\<lambda>s. s),
     in_event = (\<lambda>k s. case k_code k of KChar c \<Rightarrow> s @ [c] | _ \<Rightarrow> s)\<rparr>"

definition plain_key :: "key_code \<Rightarrow> key" where
  "plain_key k = \<lparr>k_code = k, k_control = False\<rparr>"

definition both_trusts :: connection_form where
  "both_trusts = form_default\<lparr>fm_insecure := True, fm_cert_path := lit ''/tmp/cert.pem''\<rparr>"

corollary connection_keys_safe_witness:
  "case connection_key line_input (plain_key KEnter) False
      (connection_keys line_input [(plain_key KTab, True), (plain_key (KChar 47), True)]
        (connection_new line_input both_trusts)) of
     (c, Some f) \<Rightarrow> cn_focus c = FServerUrl \<and> fm_insecure f \<and> fm_cert_path f = [] \<and>
       fm_server_url f = lit ''http://localhost:8080/''
   | _ \<Rightarrow> False"
  using connection_keys_safe [of line_input "plain_key KEnter" False
      "[(plain_key KTab, True), (plain_key (KChar 47), True)]" both_trusts, OF surjective_pairing]
  by (auto simp: connection_keys_def connection_key_def connection_new_def line_input_def plain_key_def
      both_trusts_def form_default_def connection_form_of_def trust_choice_of_def credential_choice_of_def
      focus_next_def focus_step_def cn_scion_def cn_pinned_def connection_type_def DEV_SERVER_URL_def
      trim_def trim_by_def trim_start_by_def trim_end_by_def is_whitespace_def)

end
