(* ===== verification/Chat_Screen.thy ===== *)
theory Chat_Screen
  imports Api_Types Ui
begin

text \<open>
  The chat screen (crates/chat-ui-ratatui/src/screens/chat.rs with its commands.rs and view.rs): the
  sidebar, the open room's messages, the notices this client writes itself, the line being typed,
  the scroll offset, what is read, and the message pane kept from the last draw. How ratatui lays
  out and counts rows, and what the time crate makes of a timestamp, are the argument
  \<open>draw_lib\<close>.
\<close>

section \<open>Drawing libraries\<close>

record rect =
  rc_x :: u16
  rc_y :: u16
  rc_width :: u16
  rc_height :: u16

record date =
  dt_year :: int
  dt_month :: nat
  dt_day :: nat

record local_time =
  lt_date :: date
  lt_hour :: nat
  lt_minute :: nat

text \<open>A row of the pane before it is wrapped: a day, a message, or a line of this client's own.\<close>

datatype row = DayRow rstr | SaidRow rstr colour rstr rstr | NoticeRow rstr

text \<open>
  \<open>dl_local\<close> reads a number of nanoseconds since the epoch at an offset, \<open>dl_inner\<close> is the width
  and height inside a panel's border, \<open>dl_line_count\<close> the rows a text takes at a width once
  wrapped, and \<open>dl_select\<close> what drawing a list of so many rows leaves selected.
\<close>

record draw_lib =
  dl_local :: "int \<Rightarrow> int \<Rightarrow> local_time option"
  dl_inner :: "rect \<Rightarrow> u16 \<times> u16"
  dl_line_count :: "rstr \<Rightarrow> row list \<Rightarrow> u16 \<Rightarrow> nat"
  dl_select :: "nat \<Rightarrow> nat option \<Rightarrow> nat option"

definition draw_ok :: "draw_lib \<Rightarrow> bool" where
  "draw_ok D \<longleftrightarrow> (\<forall>n i. i < n \<longrightarrow> dl_select D n (Some i) = Some i)"

section \<open>The screen (chat.rs)\<close>

datatype chat_intent = CSend rstr | CCreate rstr | COpen

text \<open>What was drawn, which determines the cells: the buffer a \<open>Pane\<close> keeps.\<close>

record drawn =
  dw_title :: rstr
  dw_rows :: "row list"
  dw_area :: rect
  dw_offset :: u16
  dw_bottom :: u16
  dw_visible :: u16

record pane =
  pn_area :: rect
  pn_scroll :: "u16 option"
  pn_revision :: u64
  pn_buffer :: drawn
  pn_measured :: "u16 \<times> u16"

record 'i chat =
  ch_rooms :: "room list"
  ch_open :: "nat option"
  ch_messages :: "message list"
  ch_notices :: "rstr list"
  ch_last_read :: "room_id \<rightharpoonup> seq"
  ch_watched :: "room_id option"
  ch_scroll :: "u16 option"
  ch_measured :: "u16 \<times> u16"
  ch_me :: rstr
  ch_input :: 'i
  ch_error :: "rstr option"
  ch_pane :: "pane option"
  ch_revision :: u64

text \<open>Collecting into a \<open>HashMap\<close>: a later pair replaces an earlier one.\<close>

definition read_from :: "room list \<Rightarrow> (room_id \<rightharpoonup> seq)" where
  "read_from rooms = foldl (\<lambda>m r. m(rm_id r \<mapsto> rm_latest_seq r)) Map.empty rooms"

definition chat_new :: "'i input_lib \<Rightarrow> room list \<Rightarrow> rstr \<Rightarrow> 'i chat" where
  "chat_new I rooms me =
     \<lparr>ch_rooms = rooms, ch_open = Some 0, ch_messages = [], ch_notices = [],
      ch_last_read = read_from rooms, ch_watched = None, ch_scroll = None, ch_measured = (0, 0),
      ch_me = me, ch_input = in_new I [], ch_error = None, ch_pane = None, ch_revision = 0\<rparr>"

definition chat_changed :: "'i chat \<Rightarrow> 'i chat" where
  "chat_changed c = c\<lparr>ch_revision := ch_revision c + 1\<rparr>"

definition selected :: "'i chat \<Rightarrow> nat" where
  "selected c = (case ch_open c of Some i \<Rightarrow> i | None \<Rightarrow> 0)"

definition room_at :: "room list \<Rightarrow> nat \<Rightarrow> room option" where
  "room_at rooms i = (if i < length rooms then Some (rooms ! i) else None)"

definition open_room :: "'i chat \<Rightarrow> room option" where
  "open_room c = room_at (ch_rooms c) (selected c)"

fun room_position :: "room_id \<Rightarrow> room list \<Rightarrow> nat option" where
  "room_position i [] = None"
| "room_position i (r # rs) = (if rm_id r = i then Some 0 else map_option Suc (room_position i rs))"

definition show_rooms :: "room list \<Rightarrow> 'i chat \<Rightarrow> 'i chat" where
  "show_rooms rooms c =
     (let opened = map_option rm_id (open_room c);
          index = (case Option.bind opened (\<lambda>i. room_position i rooms) of Some i \<Rightarrow> i | None \<Rightarrow> 0)
      in c\<lparr>ch_rooms := rooms, ch_open := Some index\<rparr>)"

definition append_batch :: "message list \<Rightarrow> 'i chat \<Rightarrow> 'i chat" where
  "append_batch ms c =
     (let read = (case open_room c of
          Some r \<Rightarrow> if ms = [] then ch_last_read c else (ch_last_read c)(rm_id r \<mapsto> msg_seq (last ms))
        | None \<Rightarrow> ch_last_read c)
      in chat_changed (c\<lparr>ch_last_read := read, ch_messages := ch_messages c @ ms\<rparr>))"

definition chat_clear :: "'i chat \<Rightarrow> 'i chat" where
  "chat_clear c = chat_changed (c\<lparr>ch_messages := [], ch_notices := [], ch_watched := None, ch_scroll := None\<rparr>)"

definition watching :: "room_id \<Rightarrow> 'i chat \<Rightarrow> 'i chat" where
  "watching r c = c\<lparr>ch_watched := Some r\<rparr>"

definition restore :: "'i input_lib \<Rightarrow> rstr \<Rightarrow> 'i chat \<Rightarrow> 'i chat" where
  "restore I body c = c\<lparr>ch_input := in_new I body\<rparr>"

definition warn :: "rstr \<Rightarrow> 'i chat \<Rightarrow> 'i chat" where
  "warn message c = chat_changed (c\<lparr>ch_notices := [warning message], ch_scroll := None\<rparr>)"

text \<open>The offsets are 16 bits and the arithmetic 32-bit signed and saturating.\<close>

definition sat_i32 :: "int \<Rightarrow> int" where
  "sat_i32 x = max (- (2 ^ 31)) (min (2 ^ 31 - 1) x)"

definition scroll_by :: "int \<Rightarrow> 'i chat \<Rightarrow> 'i chat" where
  "scroll_by rows c =
     (let bottom = uint (fst (ch_measured c));
          start = uint (case ch_scroll c of Some s \<Rightarrow> s | None \<Rightarrow> fst (ch_measured c));
          to = max 0 (min bottom (sat_i32 (start + rows)))
      in c\<lparr>ch_scroll := (if to < bottom then Some (word_of_int to) else None)\<rparr>)"

definition page_rows :: "'i chat \<Rightarrow> int" where
  "page_rows c = uint (snd (ch_measured c))"

definition chat_open :: "nat \<Rightarrow> bool \<Rightarrow> 'i chat \<Rightarrow> 'i chat \<times> chat_intent option" where
  "chat_open index pending c =
     (let index = min index (length (ch_rooms c) - 1) in
      if index = selected c \<or> pending then (c, None)
      else (chat_changed (c\<lparr>ch_open := Some index, ch_messages := []\<rparr>), Some COpen))"

definition unread :: "'i chat \<Rightarrow> room \<Rightarrow> bool" where
  "unread c r =
     (if ch_watched c = Some (rm_id r) then False
      else (let seen = (case ch_last_read c (rm_id r) of Some s \<Rightarrow> s | None \<Rightarrow> seq_start)
            in seen < rm_latest_seq r))"

definition name_colour :: "'i chat \<Rightarrow> rstr \<Rightarrow> colour" where
  "name_colour c username = (if username = ch_me c then OWN_NICKNAME else nickname username)"

section \<open>What a typed line means (commands.rs)\<close>

definition CREATE :: rstr where
  "CREATE = lit ''/room''"

definition HELP :: rstr where
  "HELP = lit ''/help''"

definition ROOM_NAME_MAX :: nat where
  "ROOM_NAME_MAX = 10"

definition COMMAND_WIDTH :: nat where
  "COMMAND_WIDTH = 16"

definition COMMANDS :: "(rstr \<times> rstr) list" where
  "COMMANDS =
     [(HELP, lit ''list these commands''),
      (lit ''/room <name>'', lit ''create a room''),
      (lit ''<Enter>'', lit ''send what is typed''),
      (lit ''<Tab>'', lit ''next room''),
      (lit ''<Shift+Tab>'', lit ''previous room''),
      (lit ''<'' @ [8593, 8595] @ lit ''>'', lit ''scroll a line''),
      (lit ''<PgUp/PgDn>'', lit ''scroll a screenful''),
      (lit ''<Esc>/<Ctrl+C>'', lit ''quit'')]"

text \<open>The format padding, which counts characters.\<close>

definition pad_left :: "nat \<Rightarrow> rstr \<Rightarrow> rstr" where
  "pad_left n s = replicate (n - length s) 32 @ s"

definition pad_right :: "nat \<Rightarrow> rstr \<Rightarrow> rstr" where
  "pad_right n s = s @ replicate (n - length s) 32"

definition help_lines :: "rstr list" where
  "help_lines = (pad_left NAME_WIDTH HELP @ lit '' commands'') #
     map (\<lambda>(command, does). pad_right BODY_COLUMN [] @ pad_right COMMAND_WIDTH command @ does) COMMANDS"

definition one_word :: rstr where
  "one_word = lit ''a room name is one word: '' @ CREATE @ lit '' scion''"

definition room_name_too_long :: rstr where
  "room_name_too_long = lit ''room name is too long - '' @ dec ROOM_NAME_MAX @ lit '' characters max''"

definition reset_input :: "'i input_lib \<Rightarrow> 'i chat \<Rightarrow> 'i chat" where
  "reset_input I c = c\<lparr>ch_input := in_new I []\<rparr>"

definition submit :: "width_lib \<Rightarrow> 'i input_lib \<Rightarrow> bool \<Rightarrow> 'i chat \<Rightarrow> 'i chat \<times> chat_intent option" where
  "submit W I pending c =
     (let typed = trim (in_value I (ch_input c)) in
      if typed = [] then (reset_input I c, None)
      else
        (let (first, rest) = (case split_once is_whitespace typed of Some p \<Rightarrow> p | None \<Rightarrow> (typed, [])) in
         if first = HELP then
           (chat_changed ((reset_input I c)\<lparr>ch_notices := help_lines, ch_scroll := None\<rparr>), None)
         else if first \<noteq> CREATE then
           (if pending then (c, None)
            else (chat_changed ((reset_input I c)\<lparr>ch_notices := []\<rparr>), Some (CSend typed)))
         else
           (let name = trim rest in
            if name = [] \<or> list_ex is_whitespace name then (warn one_word (reset_input I c), None)
            else if ROOM_NAME_MAX < wl_str W name then (warn room_name_too_long (reset_input I c), None)
            else if pending then (c, None)
            else (chat_changed ((reset_input I c)\<lparr>ch_notices := []\<rparr>), Some (CCreate name)))))"

definition chat_key ::
  "width_lib \<Rightarrow> 'i input_lib \<Rightarrow> key \<Rightarrow> bool \<Rightarrow> 'i chat \<Rightarrow> 'i chat \<times> chat_intent option" where
  "chat_key W I k pending c =
     (case k_code k of
        KEnter \<Rightarrow> submit W I pending c
      | KBackTab \<Rightarrow> chat_open (selected c - 1) pending c
      | KTab \<Rightarrow> chat_open (selected c + 1) pending c
      | KUp \<Rightarrow> (scroll_by (- 1) c, None)
      | KDown \<Rightarrow> (scroll_by 1 c, None)
      | KPageUp \<Rightarrow> (scroll_by (- page_rows c) c, None)
      | KPageDown \<Rightarrow> (scroll_by (page_rows c) c, None)
      | _ \<Rightarrow> (c\<lparr>ch_input := in_event I k (ch_input c)\<rparr>, None))"

section \<open>How it is drawn (view.rs)\<close>

definition local_at :: "draw_lib \<Rightarrow> int \<Rightarrow> unix_millis \<Rightarrow> local_time option" where
  "local_at D here t = dl_local D here (uint (millis_get t) * 1000000)"

definition pad2 :: "nat \<Rightarrow> rstr" where
  "pad2 n = replicate (2 - length (dec n)) 48 @ dec n"

definition day_separator :: "date \<Rightarrow> rstr" where
  "day_separator d = lit ''-- '' @ pad2 (dt_day d) @ lit ''/'' @ pad2 (dt_month d) @ lit '' --''"

definition clock_text :: "local_time option \<Rightarrow> rstr" where
  "clock_text t = (case t of
     Some t \<Rightarrow> lit '' '' @ pad2 (lt_hour t) @ lit '':'' @ pad2 (lt_minute t) | None \<Rightarrow> [])"

text \<open>The loop over the messages, with the day of the last dated one.\<close>

fun message_rows ::
  "width_lib \<Rightarrow> draw_lib \<Rightarrow> int \<Rightarrow> (rstr \<Rightarrow> colour) \<Rightarrow> date option \<Rightarrow> message list \<Rightarrow> row list" where
  "message_rows W D here col day [] = []"
| "message_rows W D here col day (m # ms) =
     (let at = local_at D here (msg_posted_at m);
          said = SaidRow (right_align W (msg_username m) NAME_WIDTH @ lit '' '') (col (msg_username m))
            (msg_body m) (clock_text at)
      in case at of
           Some t \<Rightarrow>
             (if Some (lt_date t) \<noteq> day
              then DayRow (day_separator (lt_date t)) # said # message_rows W D here col (Some (lt_date t)) ms
              else said # message_rows W D here col day ms)
         | None \<Rightarrow> said # message_rows W D here col day ms)"

definition pane_title :: "'i chat \<Rightarrow> rstr" where
  "pane_title c = (case open_room c of
     Some r \<Rightarrow> lit '' #'' @ rm_name r @ lit '' '' | None \<Rightarrow> lit '' no rooms '')"

definition sat_sub :: "u16 \<Rightarrow> u16 \<Rightarrow> u16" where
  "sat_sub a b = (if a \<le> b then 0 else a - b)"

text \<open>The pane drawn from the screen's state alone: what fills the buffer, and what it measured.\<close>

definition draw_fresh ::
  "width_lib \<Rightarrow> draw_lib \<Rightarrow> int \<Rightarrow> rect \<Rightarrow> 'i chat \<Rightarrow> drawn \<times> (u16 \<times> u16)" where
  "draw_fresh W D here area c =
     (let rows = message_rows W D here (name_colour c) None (ch_messages c) @ map NoticeRow (ch_notices c);
          (width, height) = dl_inner D area;
          count = word_of_nat (dl_line_count D (pane_title c) rows width) :: u16;
          bottom = sat_sub count (rc_height area);
          offset = min (case ch_scroll c of Some s \<Rightarrow> s | None \<Rightarrow> bottom) bottom
      in (\<lparr>dw_title = pane_title c, dw_rows = rows, dw_area = area, dw_offset = offset,
           dw_bottom = bottom, dw_visible = height\<rparr>, (bottom, height)))"

definition still_stands :: "pane \<Rightarrow> rect \<Rightarrow> u16 option \<Rightarrow> u64 \<Rightarrow> bool" where
  "still_stands p area scroll revision \<longleftrightarrow>
     pn_area p = area \<and> pn_scroll p = scroll \<and> pn_revision p = revision"

text \<open>\<open>draw_messages\<close>: the kept pane while it still stands, and a fresh one, which is kept, otherwise.\<close>

definition draw_messages ::
  "width_lib \<Rightarrow> draw_lib \<Rightarrow> int \<Rightarrow> rect \<Rightarrow> 'i chat \<Rightarrow> 'i chat \<times> drawn \<times> (u16 \<times> u16)" where
  "draw_messages W D here area c =
     (case ch_pane c of
        Some p \<Rightarrow>
          if still_stands p area (ch_scroll c) (ch_revision c) then (c, pn_buffer p, pn_measured p)
          else (let (b, m) = draw_fresh W D here area c in
            (c\<lparr>ch_pane := Some \<lparr>pn_area = area, pn_scroll = ch_scroll c, pn_revision = ch_revision c,
               pn_buffer = b, pn_measured = m\<rparr>\<rparr>, b, m))
      | None \<Rightarrow>
          (let (b, m) = draw_fresh W D here area c in
            (c\<lparr>ch_pane := Some \<lparr>pn_area = area, pn_scroll = ch_scroll c, pn_revision = ch_revision c,
               pn_buffer = b, pn_measured = m\<rparr>\<rparr>, b, m)))"

text \<open>A row of the sidebar: the name, cut to fit, and whether it is marked unread.\<close>

definition sidebar_rows :: "width_lib \<Rightarrow> 'i chat \<Rightarrow> (rstr \<times> bool) list" where
  "sidebar_rows W c = map (\<lambda>r. (35 # clip W (rm_name r) ROOM_NAME_MAX, unread c r)) (ch_rooms c)"

text \<open>\<open>draw\<close>: the sidebar, whose widget owns the selection, then the pane, whose measure is kept.\<close>

definition chat_draw ::
  "width_lib \<Rightarrow> draw_lib \<Rightarrow> int \<Rightarrow> rect \<Rightarrow> 'i chat \<Rightarrow> 'i chat \<times> (rstr \<times> bool) list \<times> drawn" where
  "chat_draw W D here area c =
     (let sidebar = sidebar_rows W c;
          c1 = c\<lparr>ch_open := dl_select D (length (ch_rooms c)) (ch_open c)\<rparr>;
          (c2, b, m) = draw_messages W D here area c1
      in (c2\<lparr>ch_measured := m\<rparr>, sidebar, b))"

section \<open>Room lists\<close>

text \<open>
  What the server promises of its lists: there is a room, no id twice, and a later list holds every room
  of an earlier one under the same name.
\<close>

definition rooms_ok :: "room list \<Rightarrow> bool" where
  "rooms_ok rooms \<longleftrightarrow> rooms \<noteq> [] \<and> distinct (map rm_id rooms)"

definition keeps_rooms :: "room list \<Rightarrow> room list \<Rightarrow> bool" where
  "keeps_rooms old new \<longleftrightarrow> (\<forall>r\<in>set old. \<exists>r'\<in>set new. rm_id r' = rm_id r \<and> rm_name r' = rm_name r)"

end
