(* ===== verification/App.thy ===== *)
theory App
  imports Client_Feed Error_Text Sign_In Connection_Screen Chat_Screen
begin

text \<open>
  The terminal client's app (crates/chat-ui-ratatui/src/app.rs): which screen shows, the client once
  there is one, the two streams, and the one call that may be out. A call runs as a task and puts
  its answer on a channel; the loop reads one event at a time, each of them a step below. A client
  handle is a value of the type \<open>'c\<close>: what a call does is \<open>Client\<close>'s.
\<close>

section \<open>What the form asks for\<close>

text \<open>\<open>Url::parse\<close> with its words for a refusal, and the scheme of a parsed URL.\<close>

record url_lib =
  ul_parse :: "rstr \<Rightarrow> rstr + rstr"
  ul_scheme :: "rstr \<Rightarrow> rstr"

definition DEVICE_ID :: rstr where
  "DEVICE_ID = lit ''chat-ui-ratatui''"

definition MESSAGES_REFRESH :: nat where
  "MESSAGES_REFRESH = 1000000000"

definition blank_as_none :: "rstr \<Rightarrow> rstr option" where
  "blank_as_none s = (if s = [] then None else Some s)"

definition two_credentials :: chat_error where
  "two_credentials = ConfigErr (lit ''--auth-api-key is exchanged for tokens, and --snap-token is one already. Give one of them.'')"

definition credential_of :: "url_lib \<Rightarrow> connection_form \<Rightarrow> (chat_error, credential) result" where
  "credential_of U f =
     (case (blank_as_none (api_key_str (fm_auth_api_key f)), blank_as_none (snap_token_str (fm_snap_token f))) of
        (Some _, Some _) \<Rightarrow> Err two_credentials
      | (Some k, None) \<Rightarrow>
          (case ul_parse U (fm_aa_url f) of
             Inl e \<Rightarrow> Err (ConfigErr (lit ''--aa-url '' @ [34] @ fm_aa_url f @ [34] @ lit '' is not a URL: '' @ e))
           | Inr aa \<Rightarrow> Ok (ApiKeyCredential \<lparr>ak_key = ApiKey k, ak_aa_url = aa, ak_device_id = DEVICE_ID\<rparr>))
      | (None, Some t) \<Rightarrow> Ok (TokenCredential (SnapToken t))
      | (None, None) \<Rightarrow> Ok NoCredential)"

definition two_trusts :: "rstr \<Rightarrow> chat_error" where
  "two_trusts path = ConfigErr (lit ''--insecure accepts any certificate, and --cert-path '' @ path @
     lit '' accepts one. Give one of them.'')"

definition trust_of :: "connection_form \<Rightarrow> (chat_error, trust) result" where
  "trust_of f =
     (case (fm_insecure f, blank_as_none (fm_cert_path f)) of
        (True, Some path) \<Rightarrow> Err (two_trusts path)
      | (True, None) \<Rightarrow> Ok Insecure
      | (False, Some path) \<Rightarrow> Ok (Pinned path)
      | (False, None) \<Rightarrow> Ok SystemRoots)"

definition wrong_scheme :: "transport_choice \<Rightarrow> rstr \<Rightarrow> chat_error" where
  "wrong_scheme t found = ConfigErr (lit ''--transport '' @ transport_as_str t @ lit '' is served over '' @ scheme t @
     lit '', and this URL is '' @ found @ lit ''. Change one of them.'')"

definition insecure_tcp :: chat_error where
  "insecure_tcp = ConfigErr (lit ''--insecure has nothing to turn off under --transport tcp: it carries no TLS.'')"

definition no_endhost :: chat_error where
  "no_endhost = ConfigErr (lit ''SCION needs an endhost API: it is how the client finds the network. A local chat-dev prints one at startup.'')"

definition bad_endhost :: "rstr \<Rightarrow> rstr \<Rightarrow> chat_error" where
  "bad_endhost given e = ConfigErr (lit ''the endhost API '' @ [34] @ given @ [34] @ lit '' is not a URL: '' @ e)"

definition transport_of :: "url_lib \<Rightarrow> rstr \<Rightarrow> connection_form \<Rightarrow> (chat_error, transport_kind) result" where
  "transport_of U url f =
     (if ul_scheme U url \<noteq> scheme (fm_transport f) then Err (wrong_scheme (fm_transport f) (ul_scheme U url))
      else
        (case fm_transport f of
           TTcp \<Rightarrow> if fm_insecure f then Err insecure_tcp else Ok TcpKind
         | TScion \<Rightarrow>
             (case blank_as_none (fm_endhost_api f) of
                None \<Rightarrow> Err no_endhost
              | Some given \<Rightarrow>
                  (case ul_parse U given of
                     Inl e \<Rightarrow> Err (bad_endhost given e)
                   | Inr endhost \<Rightarrow>
                       bind_res (credential_of U f) (\<lambda>cred.
                       bind_res (trust_of f) (\<lambda>tr.
                         Ok (ScionKind \<lparr>sc_endhost_api = endhost, sc_credential = cred,
                           sc_target = blank_as_none (fm_target f), sc_trust = tr\<rparr>)))))))"

text \<open>The configuration \<open>connect\<close> builds the client from.\<close>

definition connect_config :: "url_lib \<Rightarrow> connection_form \<Rightarrow> (chat_error, client_config) result" where
  "connect_config U f =
     (case ul_parse U (fm_server_url f) of
        Inl e \<Rightarrow> Err (ConfigErr e)
      | Inr url \<Rightarrow>
          map_res (\<lambda>kind. \<lparr>cc_transport = kind, cc_server_url = url,
              cc_poll = poll_default\<lparr>pc_messages_interval := MESSAGES_REFRESH\<rparr>\<rparr>)
            (transport_of U url f))"

section \<open>Calls and answers\<close>

text \<open>The work a task was spawned with.\<close>

datatype 'c app_call =
    CallConnect connection_form | CallRegister 'c rstr rstr | CallLogIn 'c rstr rstr
  | CallOpenRoom 'c room_id | CallSend 'c room_id rstr | CallCreate 'c rstr

datatype 'c app_answer =
    Connected "chat_error + 'c" | Registered "chat_error + unit"
  | LoggedIn rstr "chat_error + rooms_feed \<times> room list"
  | RoomOpened "chat_error + messages_feed" | MessageSent rstr "chat_error + unit"
  | RoomCreated "chat_error + unit"

text \<open>\<open>bg_out\<close> are the tasks still at work and \<open>bg_answers\<close> what waits on the channel.\<close>

record 'c background =
  bg_out :: "'c app_call list"
  bg_answers :: "'c app_answer list"
  bg_pending :: bool

definition background_default :: "'c background" where
  "background_default = \<lparr>bg_out = [], bg_answers = [], bg_pending = False\<rparr>"

definition ask :: "'c app_call \<Rightarrow> 'c background \<Rightarrow> 'c background \<times> bool" where
  "ask work b =
     (if bg_pending b then (b, False)
      else (b\<lparr>bg_pending := True, bg_out := bg_out b @ [work]\<rparr>, True))"

section \<open>The app\<close>

datatype 'i app_screen = ScConnection "'i connection" | ScSignIn "'i sign_in" | ScChat "'i chat"

record ('i, 'c) app =
  ap_screen :: "'i app_screen"
  ap_client :: "'c option"
  ap_messages :: "messages_feed option"
  ap_rooms :: "rooms_feed option"
  ap_reopen :: bool
  ap_background :: "'c background"
  ap_exit :: bool

record 'i app_libs =
  al_width :: width_lib
  al_input :: "'i input_lib"
  al_debug :: "rstr \<Rightarrow> rstr"

definition app_new :: "'i app_libs \<Rightarrow> connection_form \<Rightarrow> ('i, 'c) app" where
  "app_new L form = \<lparr>ap_screen = ScConnection (connection_new (al_input L) form), ap_client = None,
     ap_messages = None, ap_rooms = None, ap_reopen = False, ap_background = background_default, ap_exit = False\<rparr>"

definition app_ask :: "'c app_call \<Rightarrow> ('i, 'c) app \<Rightarrow> ('i, 'c) app" where
  "app_ask work a = a\<lparr>ap_background := fst (ask work (ap_background a))\<rparr>"

definition app_connect :: "connection_form \<Rightarrow> ('i, 'c) app \<Rightarrow> ('i, 'c) app" where
  "app_connect form a = app_ask (CallConnect form) a"

definition app_register :: "rstr \<Rightarrow> rstr \<Rightarrow> ('i, 'c) app \<Rightarrow> ('i, 'c) app" where
  "app_register username password a =
     (case ap_client a of None \<Rightarrow> a | Some cl \<Rightarrow> app_ask (CallRegister cl username password) a)"

definition app_log_in :: "rstr \<Rightarrow> rstr \<Rightarrow> ('i, 'c) app \<Rightarrow> ('i, 'c) app" where
  "app_log_in username password a =
     (case ap_client a of None \<Rightarrow> a | Some cl \<Rightarrow> app_ask (CallLogIn cl username password) a)"

text \<open>The call is asked for before the old room is let go.\<close>

definition app_open_room :: "('i, 'c) app \<Rightarrow> ('i, 'c) app" where
  "app_open_room a =
     (case (ap_client a, ap_screen a) of
        (Some cl, ScChat screen) \<Rightarrow>
          (case open_room screen of
             None \<Rightarrow> a
           | Some r \<Rightarrow>
               (let (b, asked) = ask (CallOpenRoom cl (rm_id r)) (ap_background a);
                    a' = a\<lparr>ap_background := b\<rparr>
                in if asked then a'\<lparr>ap_screen := ScChat (chat_clear screen), ap_messages := None\<rparr> else a'))
      | _ \<Rightarrow> a)"

definition app_send :: "rstr \<Rightarrow> ('i, 'c) app \<Rightarrow> ('i, 'c) app" where
  "app_send body a =
     (case (ap_client a, ap_screen a) of
        (Some cl, ScChat screen) \<Rightarrow>
          (case open_room screen of None \<Rightarrow> a | Some r \<Rightarrow> app_ask (CallSend cl (rm_id r) body) a)
      | _ \<Rightarrow> a)"

definition app_create_room :: "rstr \<Rightarrow> ('i, 'c) app \<Rightarrow> ('i, 'c) app" where
  "app_create_room name a =
     (case ap_client a of None \<Rightarrow> a | Some cl \<Rightarrow> app_ask (CallCreate cl name) a)"

section \<open>Failures\<close>

definition signed_out :: "'i app_libs \<Rightarrow> chat_error \<Rightarrow> ('i, 'c) app \<Rightarrow> ('i, 'c) app \<times> bool" where
  "signed_out L e a =
     (if e \<notin> {SessionExpired, NotLoggedIn} \<or> (case ap_screen a of ScConnection _ \<Rightarrow> True | _ \<Rightarrow> False)
      then (a, False)
      else (a\<lparr>ap_screen := ScSignIn ((sign_in_default (al_input L))\<lparr>si_error := Some (chat_error_text (al_debug L) e)\<rparr>),
              ap_messages := None, ap_rooms := None, ap_reopen := False,
              ap_background := background_default\<rparr>, True))"

definition app_failed :: "'i app_libs \<Rightarrow> chat_error \<Rightarrow> ('i, 'c) app \<Rightarrow> ('i, 'c) app" where
  "app_failed L e a =
     (let (a, gone) = signed_out L e a; message = Some (chat_error_text (al_debug L) e) in
      if gone then a
      else a\<lparr>ap_screen := (case ap_screen a of
        ScConnection s \<Rightarrow> ScConnection (s\<lparr>cn_error := message\<rparr>)
      | ScSignIn s \<Rightarrow> ScSignIn (s\<lparr>si_error := message\<rparr>)
      | ScChat s \<Rightarrow> ScChat (s\<lparr>ch_error := message\<rparr>))\<rparr>)"

definition app_refused :: "'i app_libs \<Rightarrow> chat_error \<Rightarrow> ('i, 'c) app \<Rightarrow> ('i, 'c) app" where
  "app_refused L e a =
     (let (a, gone) = signed_out L e a; message = chat_error_text (al_debug L) e in
      if gone then a
      else a\<lparr>ap_screen := (case ap_screen a of
        ScChat s \<Rightarrow> ScChat (warn message s)
      | ScConnection s \<Rightarrow> ScConnection (s\<lparr>cn_error := Some message\<rparr>)
      | ScSignIn s \<Rightarrow> ScSignIn (s\<lparr>si_error := Some message\<rparr>))\<rparr>)"

section \<open>What woke the loop\<close>

definition app_key :: "'i app_libs \<Rightarrow> key \<Rightarrow> ('i, 'c) app \<Rightarrow> ('i, 'c) app" where
  "app_key L k a =
     (if k_code k = KEsc \<or> (k_code k = KChar 99 \<and> k_control k) then a\<lparr>ap_exit := True\<rparr>
      else
        (let pending = bg_pending (ap_background a) in
         case ap_screen a of
           ScConnection s \<Rightarrow>
             (case connection_key (al_input L) k pending s of
                (s', None) \<Rightarrow> a\<lparr>ap_screen := ScConnection s'\<rparr>
              | (s', Some form) \<Rightarrow> app_connect form (a\<lparr>ap_screen := ScConnection s'\<rparr>))
         | ScSignIn s \<Rightarrow>
             (case sign_in_key (al_width L) (al_input L) k pending s of
                (s', None) \<Rightarrow> a\<lparr>ap_screen := ScSignIn s'\<rparr>
              | (s', Some intent) \<Rightarrow>
                  (let a' = a\<lparr>ap_screen := ScSignIn s'\<rparr>;
                       (username, password) = credentials (al_input L) s'
                   in case intent of
                        SRegister \<Rightarrow> app_register username password a'
                      | SLogIn \<Rightarrow> app_log_in username password a'))
         | ScChat s \<Rightarrow>
             (case chat_key (al_width L) (al_input L) k pending s of
                (s', None) \<Rightarrow> a\<lparr>ap_screen := ScChat s'\<rparr>
              | (s', Some intent) \<Rightarrow>
                  (let a' = a\<lparr>ap_screen := ScChat s'\<rparr> in
                   case intent of
                     CSend body \<Rightarrow> app_send body a'
                   | CCreate name \<Rightarrow> app_create_room name a'
                   | COpen \<Rightarrow> app_open_room a'))))"

definition app_rooms :: "'i app_libs \<Rightarrow> chat_error + room list \<Rightarrow> ('i, 'c) app \<Rightarrow> ('i, 'c) app" where
  "app_rooms L listed a =
     (case listed of
        Inr rooms \<Rightarrow>
          (let a' = (case ap_screen a of
               ScChat s \<Rightarrow> a\<lparr>ap_screen := ScChat ((show_rooms rooms s)\<lparr>ch_error := None\<rparr>)\<rparr> | _ \<Rightarrow> a)
           in if ap_reopen a' then app_open_room a' else a')
      | Inl e \<Rightarrow> app_failed L e a)"

definition app_batch :: "'i app_libs \<Rightarrow> chat_error + message list \<Rightarrow> ('i, 'c) app \<Rightarrow> ('i, 'c) app" where
  "app_batch L batch a =
     (case batch of
        Inr ms \<Rightarrow>
          (case ap_screen a of
             ScChat s \<Rightarrow> a\<lparr>ap_screen := ScChat ((append_batch ms s)\<lparr>ch_error := None\<rparr>)\<rparr> | _ \<Rightarrow> a)
      | Inl e \<Rightarrow> app_failed L e a)"

definition app_handle_answer :: "'i app_libs \<Rightarrow> 'c app_answer \<Rightarrow> ('i, 'c) app \<Rightarrow> ('i, 'c) app" where
  "app_handle_answer L ans a0 =
     (let a = a0\<lparr>ap_background := (ap_background a0)\<lparr>bg_pending := False\<rparr>\<rparr> in
      case ans of
        Connected (Inr cl) \<Rightarrow>
          a\<lparr>ap_client := Some cl, ap_screen := ScSignIn (sign_in_default (al_input L))\<rparr>
      | Registered (Inr _) \<Rightarrow>
          (case ap_screen a of
             ScSignIn s \<Rightarrow> (let (username, password) = credentials (al_input L) s in app_log_in username password a)
           | _ \<Rightarrow> a)
      | LoggedIn username (Inr (rooms, listed)) \<Rightarrow>
          app_open_room (a\<lparr>ap_rooms := Some rooms, ap_screen := ScChat (chat_new (al_input L) listed username)\<rparr>)
      | RoomOpened (Inr feed) \<Rightarrow>
          (let a = a\<lparr>ap_reopen := False\<rparr>;
               a = (case ap_screen a of
                      ScChat s \<Rightarrow> a\<lparr>ap_screen := ScChat (watching (mf_room feed) s)\<rparr> | _ \<Rightarrow> a)
           in a\<lparr>ap_messages := Some feed\<rparr>)
      | MessageSent body (Inl e) \<Rightarrow>
          app_refused L e (case ap_screen a of
            ScChat s \<Rightarrow> a\<lparr>ap_screen := ScChat (restore (al_input L) body s)\<rparr> | _ \<Rightarrow> a)
      | RoomCreated (Inr _) \<Rightarrow> a
      | MessageSent _ (Inr _) \<Rightarrow> a
      | RoomOpened (Inl e) \<Rightarrow> app_refused L e (a\<lparr>ap_reopen := True\<rparr>)
      | Connected (Inl e) \<Rightarrow> app_refused L e a
      | Registered (Inl e) \<Rightarrow> app_refused L e a
      | LoggedIn _ (Inl e) \<Rightarrow> app_refused L e a
      | RoomCreated (Inl e) \<Rightarrow> app_refused L e a)"

section \<open>The loop\<close>

text \<open>
  A task answers the call it was spawned with: the feed it opens is on the room asked for
  (\<open>watch_room_messages\<close>), and the rooms it lists are a server's list.
\<close>

fun answers_call :: "'c app_call \<Rightarrow> 'c app_answer \<Rightarrow> bool" where
  "answers_call (CallConnect f) ans = (\<exists>r. ans = Connected r)"
| "answers_call (CallRegister cl u p) ans = (\<exists>r. ans = Registered r)"
| "answers_call (CallLogIn cl u p) ans = (\<exists>r. ans = LoggedIn u r \<and> (\<forall>f rooms. r = Inr (f, rooms) \<longrightarrow> rooms_ok rooms))"
| "answers_call (CallOpenRoom cl i) ans = (\<exists>r. ans = RoomOpened r \<and> (\<forall>f. r = Inr f \<longrightarrow> mf_room f = i))"
| "answers_call (CallSend cl i body) ans = (\<exists>r. ans = MessageSent body r)"
| "answers_call (CallCreate cl name) ans = (\<exists>r. ans = RoomCreated r)"

text \<open>
  One event of the loop, a task that finishes, or a feed that waits on or goes round again without
  anything to hand over. \<open>posted\<close> says which messages were posted to which room: a feed delivers
  those of its own.
\<close>

inductive app_step ::
  "'i app_libs \<Rightarrow> draw_lib \<Rightarrow> int \<Rightarrow> (room_id \<Rightarrow> message \<Rightarrow> bool) \<Rightarrow> ('i, 'c) app \<Rightarrow> ('i, 'c) app \<Rightarrow> bool"
  for L D here posted where
  pressed: "\<not> ap_exit a \<Longrightarrow> app_step L D here posted a (app_key L k a)"
| closed: "\<not> ap_exit a \<Longrightarrow> app_step L D here posted a (a\<lparr>ap_exit := True\<rparr>)"
| finished: "bg_out (ap_background a) = us @ call # vs \<Longrightarrow> answers_call call ans \<Longrightarrow>
    app_step L D here posted a (a\<lparr>ap_background := (ap_background a)\<lparr>bg_out := us @ vs,
      bg_answers := bg_answers (ap_background a) @ [ans]\<rparr>\<rparr>)"
| answered: "\<not> ap_exit a \<Longrightarrow> bg_answers (ap_background a) = ans # rest \<Longrightarrow>
    app_step L D here posted a
      (app_handle_answer L ans (a\<lparr>ap_background := (ap_background a)\<lparr>bg_answers := rest\<rparr>\<rparr>))"
| delivered: "\<not> ap_exit a \<Longrightarrow> ap_messages a = Some f \<Longrightarrow> mf_room f' = mf_room f \<Longrightarrow>
    (\<forall>ms. batch = Inr ms \<longrightarrow> list_all (posted (mf_room f)) ms) \<Longrightarrow>
    app_step L D here posted a (app_batch L batch (a\<lparr>ap_messages := Some f'\<rparr>))"
| listed: "\<not> ap_exit a \<Longrightarrow> ap_rooms a \<noteq> None \<Longrightarrow>
    (\<forall>rooms s. listed = Inr rooms \<longrightarrow> ap_screen a = ScChat s \<longrightarrow> rooms_ok rooms \<and> keeps_rooms (ch_rooms s) rooms) \<Longrightarrow>
    app_step L D here posted a (app_rooms L listed (a\<lparr>ap_rooms := Some f\<rparr>))"
| waited: "ap_messages a = Some f \<Longrightarrow> mf_room f' = mf_room f \<Longrightarrow>
    app_step L D here posted a (a\<lparr>ap_messages := Some f'\<rparr>)"
| idled: "ap_rooms a \<noteq> None \<Longrightarrow> app_step L D here posted a (a\<lparr>ap_rooms := Some g\<rparr>)"
| drawn: "ap_screen a = ScChat s \<Longrightarrow>
    app_step L D here posted a (a\<lparr>ap_screen := ScChat (fst (chat_draw (al_width L) D here area s))\<rparr>)"

inductive_cases app_stepE: "app_step L D here posted a a'"

end
