(* ===== verification/Chat_Properties.thy ===== *)
theory Chat_Properties
  imports Chat_Screen
begin

text \<open>
  What the chat screen keeps to: the pane kept from the last draw shows what a fresh one would, a
  typed line is never lost to a call that is out, and a room is read exactly as far as its feed has
  been shown.
\<close>

section \<open>Everything that happens to the screen\<close>

datatype chat_op =
    OpKey key bool | OpRooms "room list" | OpAppend "message list" | OpClear | OpWatching room_id
  | OpRestore rstr | OpWarn rstr | OpError "rstr option" | OpDraw rect

definition chat_step :: "width_lib \<Rightarrow> 'i input_lib \<Rightarrow> draw_lib \<Rightarrow> int \<Rightarrow> chat_op \<Rightarrow> 'i chat \<Rightarrow> 'i chat" where
  "chat_step W I D here op c =
     (case op of
        OpKey k pending \<Rightarrow> fst (chat_key W I k pending c)
      | OpRooms rooms \<Rightarrow> show_rooms rooms c
      | OpAppend ms \<Rightarrow> append_batch ms c
      | OpClear \<Rightarrow> chat_clear c
      | OpWatching r \<Rightarrow> watching r c
      | OpRestore body \<Rightarrow> restore I body c
      | OpWarn message \<Rightarrow> warn message c
      | OpError e \<Rightarrow> c\<lparr>ch_error := e\<rparr>
      | OpDraw area \<Rightarrow> fst (chat_draw W D here area c))"

definition chat_run :: "width_lib \<Rightarrow> 'i input_lib \<Rightarrow> draw_lib \<Rightarrow> int \<Rightarrow> chat_op list \<Rightarrow> 'i chat \<Rightarrow> 'i chat" where
  "chat_run W I D here ops c = foldl (\<lambda>c op. chat_step W I D here op c) c ops"

lemma chat_run_simps [simp]:
  "chat_run W I D here [] c = c"
  "chat_run W I D here (op # ops) c = chat_run W I D here ops (chat_step W I D here op c)"
  "chat_run W I D here (ops @ [op]) c = chat_step W I D here op (chat_run W I D here ops c)"
  by (simp_all add: chat_run_def)

definition op_fits :: "chat_op \<Rightarrow> 'i chat \<Rightarrow> bool" where
  "op_fits op c = (case op of OpRooms rooms \<Rightarrow> rooms_ok rooms \<and> keeps_rooms (ch_rooms c) rooms | _ \<Rightarrow> True)"

fun ops_fit :: "width_lib \<Rightarrow> 'i input_lib \<Rightarrow> draw_lib \<Rightarrow> int \<Rightarrow> chat_op list \<Rightarrow> 'i chat \<Rightarrow> bool" where
  "ops_fit W I D here [] c = True"
| "ops_fit W I D here (op # ops) c = (op_fits op c \<and> ops_fit W I D here ops (chat_step W I D here op c))"

definition chat_ok :: "'i chat \<Rightarrow> bool" where
  "chat_ok c \<longleftrightarrow> rooms_ok (ch_rooms c) \<and> selected c < length (ch_rooms c) \<and> ch_open c \<noteq> None"

lemma room_position_at:
  "room_position i rooms = Some n \<Longrightarrow> n < length rooms \<and> rm_id (rooms ! n) = i"
  by (induction rooms arbitrary: n) (auto split: if_splits)

lemma room_position_of:
  "r \<in> set rooms \<Longrightarrow> \<exists>n. room_position (rm_id r) rooms = Some n"
  by (induction rooms) auto

lemma show_rooms_keeps:
  assumes "chat_ok c" "rooms_ok rooms" "keeps_rooms (ch_rooms c) rooms"
  shows "chat_ok (show_rooms rooms c)"
    "map_option rm_id (open_room (show_rooms rooms c)) = map_option rm_id (open_room c)"
    "pane_title (show_rooms rooms c) = pane_title c"
proof -
  let ?r = "ch_rooms c ! selected c"
  have r: "open_room c = Some ?r" "?r \<in> set (ch_rooms c)"
    using assms(1) by (auto simp: chat_ok_def open_room_def room_at_def)
  then obtain r' where r': "r' \<in> set rooms" "rm_id r' = rm_id ?r" "rm_name r' = rm_name ?r"
    using assms(3) by (auto simp: keeps_rooms_def)
  then obtain n where n: "room_position (rm_id ?r) rooms = Some n"
    using room_position_of by metis
  then have at: "n < length rooms" "rm_id (rooms ! n) = rm_id ?r"
    using room_position_at by blast+
  then have same: "rooms ! n = r'"
    using assms(2) r' by (metis (no_types, lifting) distinct_map inj_onD nth_mem rooms_ok_def)
  have shown: "show_rooms rooms c = c\<lparr>ch_rooms := rooms, ch_open := Some n\<rparr>"
    using r n by (simp add: show_rooms_def)
  have opened: "open_room (show_rooms rooms c) = Some r'"
    using at same by (simp add: shown open_room_def selected_def room_at_def)
  show "chat_ok (show_rooms rooms c)"
    using assms(2) at by (simp add: shown chat_ok_def selected_def)
  show "map_option rm_id (open_room (show_rooms rooms c)) = map_option rm_id (open_room c)"
    using opened r r' by simp
  show "pane_title (show_rooms rooms c) = pane_title c"
    using opened r r' by (simp add: pane_title_def)
qed

section \<open>What each operation leaves alone\<close>

text \<open>What the pane is drawn from, the offset apart.\<close>

definition pane_view :: "'i chat \<Rightarrow> rstr \<times> message list \<times> rstr list \<times> rstr" where
  "pane_view c = (pane_title c, ch_messages c, ch_notices c, ch_me c)"

lemma draw_fresh_cong:
  "pane_view c = pane_view c' \<Longrightarrow> ch_scroll c = ch_scroll c' \<Longrightarrow>
     draw_fresh W D here area c = draw_fresh W D here area c'"
proof -
  assume "pane_view c = pane_view c'" and "ch_scroll c = ch_scroll c'"
  moreover from this have "name_colour c = name_colour c'"
    by (simp add: pane_view_def name_colour_def fun_eq_iff)
  ultimately show ?thesis by (simp add: draw_fresh_def pane_view_def)
qed

lemmas chat_ops = reset_input_def warn_def chat_changed_def chat_clear_def watching_def restore_def
  scroll_by_def append_batch_def Let_def

text \<open>Whatever changes the pane counts: an operation changes the view only along with the revision.\<close>

definition counted :: "'i chat \<Rightarrow> 'i chat \<Rightarrow> bool" where
  "counted c c' \<longleftrightarrow> ch_pane c' = ch_pane c \<and>
     (ch_revision c' = ch_revision c + 1 \<or> ch_revision c' = ch_revision c \<and> pane_view c' = pane_view c)"

lemma view_frame:
  "pane_view (c\<lparr>ch_input := i\<rparr>) = pane_view c" "pane_view (c\<lparr>ch_scroll := s\<rparr>) = pane_view c"
  "pane_view (c\<lparr>ch_watched := w\<rparr>) = pane_view c" "pane_view (c\<lparr>ch_error := e\<rparr>) = pane_view c"
  "pane_view (c\<lparr>ch_measured := m\<rparr>) = pane_view c" "pane_view (c\<lparr>ch_pane := p\<rparr>) = pane_view c"
  by (simp_all add: pane_view_def pane_title_def open_room_def selected_def)

lemma submit_counted: "counted c (fst (submit W I pending c))"
  by (simp add: submit_def counted_def chat_ops view_frame split: option.split prod.split)

lemma chat_key_counted: "counted c (fst (chat_key W I k pending c))"
  by (cases "k_code k")
    (simp_all add: chat_key_def submit_counted, simp_all add: counted_def chat_open_def chat_ops view_frame)

lemma show_rooms_counted:
  assumes "chat_ok c" "rooms_ok rooms" "keeps_rooms (ch_rooms c) rooms"
  shows "counted c (show_rooms rooms c)"
  using show_rooms_keeps(3) [OF assms] by (simp add: counted_def pane_view_def) (simp add: show_rooms_def)

lemma submit_rooms:
  "ch_rooms (fst (submit W I pending c)) = ch_rooms c \<and> ch_open (fst (submit W I pending c)) = ch_open c \<and>
   ch_messages (fst (submit W I pending c)) = ch_messages c \<and>
   ch_last_read (fst (submit W I pending c)) = ch_last_read c \<and>
   ch_watched (fst (submit W I pending c)) = ch_watched c \<and> ch_me (fst (submit W I pending c)) = ch_me c"
  by (simp add: submit_def chat_ops split: option.split prod.split)

lemma chat_key_frame:
  "ch_rooms (fst (chat_key W I k pending c)) = ch_rooms c"
  "ch_last_read (fst (chat_key W I k pending c)) = ch_last_read c"
  "ch_watched (fst (chat_key W I k pending c)) = ch_watched c"
  by (cases "k_code k"; simp add: chat_key_def submit_rooms chat_open_def chat_ops)+

lemma chat_key_pending: "snd (chat_key W I k True c) = None"
proof -
  have "snd (submit W I True c) = None"
    by (simp add: submit_def Let_def split: option.split prod.split)
  then show ?thesis by (cases "k_code k") (simp_all add: chat_key_def chat_open_def Let_def)
qed

lemma chat_key_ok:
  assumes "chat_ok c"
  shows "chat_ok (fst (chat_key W I k pending c))"
  using assms
  by (cases "k_code k")
    (auto simp: chat_key_def chat_ok_def submit_rooms selected_def chat_open_def chat_ops rooms_ok_def
      simp del: length_greater_0_conv)

lemma chat_draw_frame:
  assumes "chat_ok c" "draw_ok D"
  shows "ch_rooms (fst (chat_draw W D here area c)) = ch_rooms c"
    "ch_open (fst (chat_draw W D here area c)) = ch_open c"
    "ch_last_read (fst (chat_draw W D here area c)) = ch_last_read c"
    "ch_revision (fst (chat_draw W D here area c)) = ch_revision c"
    "pane_view (fst (chat_draw W D here area c)) = pane_view c"
proof -
  have sel: "c\<lparr>ch_open := dl_select D (length (ch_rooms c)) (ch_open c)\<rparr> = c"
    using assms by (cases "ch_open c") (auto simp: chat_ok_def selected_def draw_ok_def)
  show "ch_rooms (fst (chat_draw W D here area c)) = ch_rooms c"
    "ch_open (fst (chat_draw W D here area c)) = ch_open c"
    "ch_last_read (fst (chat_draw W D here area c)) = ch_last_read c"
    "ch_revision (fst (chat_draw W D here area c)) = ch_revision c"
    "pane_view (fst (chat_draw W D here area c)) = pane_view c"
    by (simp_all add: chat_draw_def sel draw_messages_def Let_def view_frame split: option.split prod.split)
qed

lemma chat_ok_cong: "ch_rooms c' = ch_rooms c \<Longrightarrow> ch_open c' = ch_open c \<Longrightarrow> chat_ok c' = chat_ok c"
  by (simp add: chat_ok_def selected_def)

lemma chat_step_ok:
  assumes "chat_ok c" "op_fits op c" "draw_ok D"
  shows "chat_ok (chat_step W I D here op c)"
proof (cases op)
  case (OpKey k pending)
  then show ?thesis using chat_key_ok [OF assms(1)] by (simp add: chat_step_def)
next
  case (OpRooms rooms)
  then show ?thesis using show_rooms_keeps(1) [OF assms(1)] assms(2) by (simp add: chat_step_def op_fits_def)
next
  case (OpDraw area)
  then show ?thesis
    using assms(1) chat_ok_cong [OF chat_draw_frame(1,2) [OF assms(1,3)]] by (simp add: chat_step_def)
qed (use assms(1) in \<open>simp add: chat_step_def chat_ok_def selected_def chat_ops\<close>)+

section \<open>The pane kept from the last draw\<close>

text \<open>
  Fewer changes have been counted than the counter holds, and a kept pane under the current count shows
  what the screen would be drawn as.
\<close>

definition cache_ok :: "width_lib \<Rightarrow> draw_lib \<Rightarrow> int \<Rightarrow> nat \<Rightarrow> 'i chat \<Rightarrow> bool" where
  "cache_ok W D here n c \<longleftrightarrow> unat (ch_revision c) \<le> n \<and>
     (\<forall>p. ch_pane c = Some p \<longrightarrow> unat (pn_revision p) \<le> unat (ch_revision c) \<and>
        (pn_revision p = ch_revision c \<longrightarrow>
           (pn_buffer p, pn_measured p) = draw_fresh W D here (pn_area p) (c\<lparr>ch_scroll := pn_scroll p\<rparr>)))"

lemma cache_counted:
  assumes "cache_ok W D here n c" "counted c c'" "Suc n < 2 ^ 64"
  shows "cache_ok W D here (Suc n) c'"
proof (cases "ch_revision c' = ch_revision c + 1")
  case True
  have "unat (ch_revision c) + 1 < 2 ^ 64" using assms(1,3) by (simp add: cache_ok_def)
  then have "unat (ch_revision c') = unat (ch_revision c) + 1"
    using True unat_add_lem [of "ch_revision c" 1] by simp
  then show ?thesis using assms(1,2) by (fastforce simp: cache_ok_def counted_def)
next
  case False
  then have same: "ch_revision c' = ch_revision c" "pane_view c' = pane_view c" "ch_pane c' = ch_pane c"
    using assms(2) by (auto simp: counted_def)
  have "draw_fresh W D here a (c'\<lparr>ch_scroll := s\<rparr>) = draw_fresh W D here a (c\<lparr>ch_scroll := s\<rparr>)" for a s
    using same(2) by (intro draw_fresh_cong) (simp_all add: view_frame)
  then show ?thesis using assms(1) same by (simp add: cache_ok_def)
qed

lemma draw_messages_fresh:
  assumes "cache_ok W D here n c"
  shows "snd (draw_messages W D here area c) = draw_fresh W D here area c"
    "cache_ok W D here n (fst (draw_messages W D here area c))"
proof -
  have self: "c\<lparr>ch_scroll := ch_scroll c\<rparr> = c" by simp
  have keep: "cache_ok W D here n (c\<lparr>ch_pane := Some \<lparr>pn_area = area, pn_scroll = ch_scroll c,
      pn_revision = ch_revision c, pn_buffer = b, pn_measured = m\<rparr>\<rparr>)"
    if "draw_fresh W D here area c = (b, m)" for b m
  proof -
    have "draw_fresh W D here area (c\<lparr>ch_pane := p\<rparr>) = draw_fresh W D here area c" for p
      by (rule draw_fresh_cong) (simp_all add: view_frame)
    then show ?thesis using assms that by (simp add: cache_ok_def)
  qed
  show "snd (draw_messages W D here area c) = draw_fresh W D here area c"
    using assms self by (auto simp: draw_messages_def cache_ok_def still_stands_def split: option.split prod.split)
  show "cache_ok W D here n (fst (draw_messages W D here area c))"
    using assms keep by (auto simp: draw_messages_def split: option.split prod.split)
qed

lemma chat_draw_cached:
  assumes "chat_ok c" "draw_ok D" "cache_ok W D here n c"
  shows "snd (snd (chat_draw W D here area c)) = fst (draw_fresh W D here area c)"
    "ch_measured (fst (chat_draw W D here area c)) = snd (draw_fresh W D here area c)"
    "cache_ok W D here n (fst (chat_draw W D here area c))"
proof -
  have sel: "c\<lparr>ch_open := dl_select D (length (ch_rooms c)) (ch_open c)\<rparr> = c"
    using assms(1,2) by (cases "ch_open c") (auto simp: chat_ok_def selected_def draw_ok_def)
  have upd: "cache_ok W D here n (x\<lparr>ch_measured := m\<rparr>) = cache_ok W D here n x" for x :: "'a chat" and m
  proof -
    have "draw_fresh W D here a (x\<lparr>ch_measured := m, ch_scroll := s\<rparr>) = draw_fresh W D here a (x\<lparr>ch_scroll := s\<rparr>)" for a s
      by (rule draw_fresh_cong) (simp_all add: view_frame)
    then show ?thesis by (simp add: cache_ok_def)
  qed
  obtain c2 b m where d: "draw_messages W D here area c = (c2, b, m)" by (metis surj_pair)
  then have fresh: "draw_fresh W D here area c = (b, m)" and kept: "cache_ok W D here n c2"
    using draw_messages_fresh [OF assms(3), of area] by auto
  have draw: "chat_draw W D here area c = (c2\<lparr>ch_measured := m\<rparr>, sidebar_rows W c, b)"
    by (simp add: chat_draw_def Let_def sel d)
  show "snd (snd (chat_draw W D here area c)) = fst (draw_fresh W D here area c)"
    "ch_measured (fst (chat_draw W D here area c)) = snd (draw_fresh W D here area c)"
    "cache_ok W D here n (fst (chat_draw W D here area c))"
    using upd kept by (simp_all add: draw fresh)
qed

lemma cache_more: "cache_ok W D here n c \<Longrightarrow> n \<le> m \<Longrightarrow> cache_ok W D here m c"
  by (simp add: cache_ok_def)

lemma cache_step:
  assumes "chat_ok c" "op_fits op c" "draw_ok D" "cache_ok W D here n c" "Suc n < 2 ^ 64"
  shows "cache_ok W D here (Suc n) (chat_step W I D here op c)"
proof (cases op)
  case (OpKey k pending)
  then show ?thesis using cache_counted [OF assms(4) chat_key_counted assms(5)] by (simp add: chat_step_def)
next
  case (OpRooms rooms)
  then show ?thesis
    using cache_counted [OF assms(4) show_rooms_counted [OF assms(1)] assms(5)] assms(2)
    by (simp add: chat_step_def op_fits_def)
next
  case (OpDraw area)
  then show ?thesis
    using cache_more [OF chat_draw_cached(3) [OF assms(1,3,4)]] by (simp add: chat_step_def)
qed (rule cache_counted [OF assms(4) _ assms(5)], simp add: chat_step_def counted_def chat_ops view_frame)+

lemma chat_run_ok:
  assumes "ops_fit W I D here ops c" "chat_ok c" "draw_ok D" "cache_ok W D here n c" "n + length ops < 2 ^ 64"
  shows "chat_ok (chat_run W I D here ops c) \<and> cache_ok W D here (n + length ops) (chat_run W I D here ops c)"
  using assms
proof (induction ops arbitrary: c n)
  case (Cons op ops)
  have "cache_ok W D here (Suc n) (chat_step W I D here op c)"
    using cache_step Cons.prems by fastforce
  then show ?case
    using Cons.IH [of _ "Suc n"] chat_step_ok [of c op D W I here] Cons.prems by fastforce
qed simp

lemma chat_new_ok: "rooms_ok rooms \<Longrightarrow> chat_ok (chat_new I rooms me) \<and> cache_ok W D here 0 (chat_new I rooms me)"
  by (simp add: chat_ok_def chat_new_def selected_def cache_ok_def rooms_ok_def)


text \<open>A list widget that leaves the selection alone, a pane of ten by ten, and no time zone.\<close>

definition plain_draw :: draw_lib where
  "plain_draw = \<lparr>dl_local = (\<lambda>_ _. None), dl_inner = (\<lambda>_. (10, 10)),
     dl_line_count = (\<lambda>_ rows _. length rows), dl_select = (\<lambda>_ i. i)\<rparr>"

lemma plain_draw_ok: "draw_ok plain_draw"
  by (simp add: draw_ok_def plain_draw_def)

definition typed_input :: "rstr input_lib" where
  "typed_input = \<lparr>in_new = (\<lambda>s. s), in_value = (\<lambda>s. s),
     in_event = (\<lambda>k s. case k_code k of KChar c \<Rightarrow> s @ [c] | _ \<Rightarrow> s)\<rparr>"

lemma typed_input_ok: "input_ok typed_input"
  by (simp add: input_ok_def typed_input_def)

definition demo_area :: rect where
  "demo_area = \<lparr>rc_x = 0, rc_y = 0, rc_width = 40, rc_height = 12\<rparr>"

definition lobby_at :: "u64 \<Rightarrow> room" where
  "lobby_at s = \<lparr>rm_id = RoomId 1, rm_name = lit ''lobby'', rm_latest_seq = Seq s\<rparr>"

definition games_at :: "u64 \<Rightarrow> room" where
  "games_at s = \<lparr>rm_id = RoomId 2, rm_name = lit ''games'', rm_latest_seq = Seq s\<rparr>"

definition hello_at :: "u64 \<Rightarrow> message" where
  "hello_at s = \<lparr>msg_seq = Seq s, msg_username = lit ''ann'', msg_body = lit ''hello'', msg_posted_at = UnixMillis 0\<rparr>"

lemma demo_rooms_ok: "rooms_ok [lobby_at s]" "rooms_ok [lobby_at s, games_at t]"
  by (simp_all add: rooms_ok_def lobby_at_def games_at_def)


section \<open>Typed lines\<close>

definition first_word :: "rstr \<Rightarrow> rstr" where
  "first_word s = (case split_once is_whitespace s of Some (a, b) \<Rightarrow> a | None \<Rightarrow> s)"

text \<open>A line that would reach the server is, while a call is out, left where it was typed, and
  everything else happens as it does otherwise. Any line that is not blank and does not start with
  a command is sent, trimmed; a room is asked for only under one word of at most ten columns; and
  whatever is accepted empties the line.\<close>

lemma submit_spec:
  assumes "input_ok I"
  shows "submit W I True c = (case submit W I False c of (c', None) \<Rightarrow> (c', None) | (c', Some i) \<Rightarrow> (c, None)) \<and>
    (trim (in_value I (ch_input c)) \<noteq> [] \<longrightarrow>
       first_word (trim (in_value I (ch_input c))) \<notin> {HELP, CREATE} \<longrightarrow>
       snd (submit W I False c) = Some (CSend (trim (in_value I (ch_input c))))) \<and>
    (case submit W I False c of (c', intent) \<Rightarrow>
       in_value I (ch_input c') = [] \<and> ch_messages c' = ch_messages c \<and> ch_open c' = ch_open c \<and>
       (case intent of
          Some (CSend body) \<Rightarrow> body = trim (in_value I (ch_input c)) \<and> body \<noteq> [] \<and> ch_notices c' = [] \<and>
            first_word body \<notin> {HELP, CREATE}
        | Some (CCreate name) \<Rightarrow> name \<noteq> [] \<and> list_all (\<lambda>x. \<not> is_whitespace x) name \<and>
            wl_str W name \<le> ROOM_NAME_MAX \<and> ch_notices c' = [] \<and>
            first_word (trim (in_value I (ch_input c))) = CREATE
        | Some COpen \<Rightarrow> False
        | None \<Rightarrow> ch_notices c' = ch_notices c \<or> ch_scroll c' = None))"
proof -
  have val: "in_value I (in_new I []) = []" using assms by (simp add: input_ok_def)
  have word: "list_ex is_whitespace n = (\<not> list_all (\<lambda>x. \<not> is_whitespace x) n)" for n
    by (simp add: list_ex_iff list_all_iff)
  show ?thesis
    using val
    by (auto simp: submit_def first_word_def chat_ops word split: option.split prod.split)
qed

corollary submit_spec_witness:
  "snd (submit plain_widths typed_input False
     ((chat_new typed_input [lobby_at 0] (lit ''ann''))\<lparr>ch_input := lit '' hi all ''\<rparr>)) = Some (CSend (lit ''hi all''))"
  using submit_spec [OF typed_input_ok, of plain_widths "(chat_new typed_input [lobby_at 0] (lit ''ann''))\<lparr>ch_input := lit '' hi all ''\<rparr>"]
  by (simp add: typed_input_def trim_def trim_by_def trim_start_by_def trim_end_by_def is_whitespace_def
      first_word_def HELP_def CREATE_def)

section \<open>What is read\<close>

text \<open>The batches shown while a room was the open one, one after another.\<close>

fun shown_in ::
  "width_lib \<Rightarrow> 'i input_lib \<Rightarrow> draw_lib \<Rightarrow> int \<Rightarrow> room_id \<Rightarrow> chat_op list \<Rightarrow> 'i chat \<Rightarrow> message list" where
  "shown_in W I D here i [] c = []"
| "shown_in W I D here i (op # ops) c =
     (case op of OpAppend ms \<Rightarrow> if map_option rm_id (open_room c) = Some i then ms else [] | _ \<Rightarrow> []) @
     shown_in W I D here i ops (chat_step W I D here op c)"

lemma chat_step_read:
  assumes "chat_ok c" "draw_ok D"
  shows "ch_last_read (chat_step W I D here op c) i =
    (case op of
       OpAppend ms \<Rightarrow> if map_option rm_id (open_room c) = Some i \<and> ms \<noteq> [] then Some (msg_seq (last ms)) else ch_last_read c i
     | _ \<Rightarrow> ch_last_read c i)"
  using chat_draw_frame(3) [OF assms]
  by (cases op) (auto simp: chat_step_def chat_key_frame show_rooms_def chat_ops split: option.split)

lemma chat_run_read:
  assumes "ops_fit W I D here ops c" "chat_ok c" "draw_ok D"
  shows "ch_last_read (chat_run W I D here ops c) i =
    (if shown_in W I D here i ops c = [] then ch_last_read c i
     else Some (msg_seq (last (shown_in W I D here i ops c))))"
  using assms
proof (induction ops arbitrary: c)
  case (Cons op ops)
  have "chat_ok (chat_step W I D here op c)" using chat_step_ok Cons.prems by auto
  then show ?case
    using Cons.IH [of "chat_step W I D here op c"] chat_step_read [of c D W I here op i] Cons.prems
    by (auto split: chat_op.split)
qed simp

text \<open>C38: A room is unread exactly when no feed is watching it and the server's newest message in it is
  beyond the last one the pane has shown of it, or, when it has shown none, beyond where the room
  stood at launch: nothing shown of another room ever marks it.\<close>

theorem unread_exact:
  assumes "draw_ok D" and "rooms_ok rooms" and "ops_fit W I D here ops (chat_new I rooms me)"
    and "c = chat_run W I D here ops (chat_new I rooms me)"
  shows "unread c r \<longleftrightarrow> ch_watched c \<noteq> Some (rm_id r) \<and>
    (case shown_in W I D here (rm_id r) ops (chat_new I rooms me) of
       [] \<Rightarrow> (case map_of (map (\<lambda>r. (rm_id r, rm_latest_seq r)) rooms) (rm_id r) of
          Some s \<Rightarrow> s | None \<Rightarrow> seq_start) < rm_latest_seq r
     | m # ms \<Rightarrow> msg_seq (last (m # ms)) < rm_latest_seq r)"
proof -
  have "foldl (\<lambda>m r. m(rm_id r \<mapsto> rm_latest_seq r)) m rs i =
      (case map_of (map (\<lambda>r. (rm_id r, rm_latest_seq r)) rs) i of Some s \<Rightarrow> Some s | None \<Rightarrow> m i)"
    if "distinct (map rm_id rs)" for rs m and i
    using that
  proof (induction rs arbitrary: m)
    case (Cons r rs)
    have "map_of (map (\<lambda>r. (rm_id r, rm_latest_seq r)) rs) (rm_id r) = None"
      using Cons.prems by (simp add: map_of_eq_None_iff image_image)
    then show ?case using Cons by (auto split: option.split)
  qed simp
  from this [of rooms Map.empty "rm_id r"]
  have "ch_last_read (chat_new I rooms me) (rm_id r) =
      map_of (map (\<lambda>r. (rm_id r, rm_latest_seq r)) rooms) (rm_id r)"
    using assms(2) by (auto simp: chat_new_def read_from_def rooms_ok_def split: option.split)
  moreover have "chat_ok (chat_new I rooms me)"
    using chat_new_ok [OF assms(2)] by blast
  ultimately show ?thesis
    using chat_run_read [OF assms(3) _ assms(1), of "rm_id r"]
    by (auto simp: assms(4) unread_def split: list.split)
qed

corollary unread_exact_witness:
  "unread (chat_run plain_widths typed_input plain_draw 0
      [OpAppend [hello_at 4], OpRooms [lobby_at 5, games_at 0]]
      (chat_new typed_input [lobby_at 3, games_at 0] (lit ''ann''))) (lobby_at 5)"
proof -
  have fit: "ops_fit plain_widths typed_input plain_draw 0
      [OpAppend [hello_at 4], OpRooms [lobby_at 5, games_at 0]]
      (chat_new typed_input [lobby_at 3, games_at 0] (lit ''ann''))"
    using demo_rooms_ok(2) [of 5 0]
    by (simp add: op_fits_def keeps_rooms_def chat_step_def append_batch_def chat_changed_def Let_def chat_new_def)
       (simp add: lobby_at_def games_at_def)
  show ?thesis
    using unread_exact [OF plain_draw_ok demo_rooms_ok(2) fit refl, of "lobby_at 5"]
    by (simp add: chat_step_def append_batch_def chat_changed_def show_rooms_def chat_new_def Let_def
        open_room_def selected_def room_at_def lobby_at_def games_at_def hello_at_def)
qed

end
