(* ===== verification/App_Properties.thy ===== *)
theory App_Properties
  imports App Chat_Properties
begin

text \<open>
  What the terminal client's app keeps to: one call at a time, the feed on the open room, a session
  that ends cleanly, and a configuration that is what the connection screen shows.
\<close>

section \<open>The invariant\<close>

datatype stage = Connecting | SigningIn | Chatting

fun screen_stage :: "'i app_screen \<Rightarrow> stage" where
  "screen_stage (ScConnection s) = Connecting"
| "screen_stage (ScSignIn s) = SigningIn"
| "screen_stage (ScChat s) = Chatting"

fun call_stage :: "'c app_call \<Rightarrow> stage" where
  "call_stage (CallConnect f) = Connecting"
| "call_stage (CallRegister cl u p) = SigningIn"
| "call_stage (CallLogIn cl u p) = SigningIn"
| "call_stage (CallOpenRoom cl i) = Chatting"
| "call_stage (CallSend cl i b) = Chatting"
| "call_stage (CallCreate cl n) = Chatting"

fun answer_stage :: "'c app_answer \<Rightarrow> stage" where
  "answer_stage (Connected r) = Connecting"
| "answer_stage (Registered r) = SigningIn"
| "answer_stage (LoggedIn u r) = SigningIn"
| "answer_stage (RoomOpened r) = Chatting"
| "answer_stage (MessageSent b r) = Chatting"
| "answer_stage (RoomCreated r) = Chatting"

text \<open>
  At most one call is out or answered, and exactly when the user is kept waiting; it belongs to the
  screen on show.
\<close>

definition background_ok :: "stage \<Rightarrow> 'c background \<Rightarrow> bool" where
  "background_ok st b \<longleftrightarrow>
     length (bg_out b) + length (bg_answers b) = (if bg_pending b then 1 else 0) \<and>
     list_all (\<lambda>c. call_stage c = st) (bg_out b) \<and> list_all (\<lambda>x. answer_stage x = st) (bg_answers b) \<and>
     (\<forall>u f rooms. LoggedIn u (Inr (f, rooms)) \<in> set (bg_answers b) \<longrightarrow> rooms_ok rooms)"

definition room_asked :: "'c background \<Rightarrow> bool" where
  "room_asked b \<longleftrightarrow> (\<exists>cl i. CallOpenRoom cl i \<in> set (bg_out b)) \<or> (\<exists>r. RoomOpened r \<in> set (bg_answers b))"

definition asked_for :: "room_id \<Rightarrow> 'c background \<Rightarrow> bool" where
  "asked_for i b \<longleftrightarrow> (\<forall>cl j. CallOpenRoom cl j \<in> set (bg_out b) \<longrightarrow> j = i) \<and>
     (\<forall>f. RoomOpened (Inr f) \<in> set (bg_answers b) \<longrightarrow> mf_room f = i)"

definition open_id :: "'i chat \<Rightarrow> room_id option" where
  "open_id s = map_option rm_id (open_room s)"

text \<open>
  The chat screen's part: a feed there is is the open room's, and what the pane shows was posted
  there; and where there is none, it is being asked for, or will be on the next room list.
\<close>

definition pane_ok :: "(room_id \<Rightarrow> message \<Rightarrow> bool) \<Rightarrow> 'i chat \<Rightarrow> messages_feed option \<Rightarrow> bool \<Rightarrow> 'c background \<Rightarrow> bool" where
  "pane_ok posted s feed reopen b \<longleftrightarrow>
     chat_ok s \<and> ch_watched s = map_option mf_room feed \<and>
     (\<exists>i. open_id s = Some i \<and> asked_for i b \<and> list_all (posted i) (ch_messages s) \<and>
        (case feed of
           Some f \<Rightarrow> mf_room f = i \<and> \<not> room_asked b \<and> \<not> reopen
         | None \<Rightarrow> ch_messages s = [] \<and> (room_asked b \<or> reopen)))"

definition app_inv :: "(room_id \<Rightarrow> message \<Rightarrow> bool) \<Rightarrow> ('i, 'c) app \<Rightarrow> bool" where
  "app_inv posted a \<longleftrightarrow> background_ok (screen_stage (ap_screen a)) (ap_background a) \<and>
     (case ap_screen a of
        ScConnection s \<Rightarrow> connection_ok s \<and> ap_messages a = None \<and> ap_rooms a = None \<and> \<not> ap_reopen a
      | ScSignIn s \<Rightarrow> ap_client a \<noteq> None \<and> ap_messages a = None \<and> ap_rooms a = None \<and> \<not> ap_reopen a
      | ScChat s \<Rightarrow> ap_client a \<noteq> None \<and> ap_rooms a \<noteq> None \<and>
          pane_ok posted s (ap_messages a) (ap_reopen a) (ap_background a))"

lemma default_ok [simp]: "background_ok st background_default" "\<not> room_asked background_default"
  "asked_for i background_default" "\<not> bg_pending background_default"
  by (simp_all add: background_ok_def background_default_def room_asked_def asked_for_def)

lemma idle_default: "background_ok st b \<Longrightarrow> \<not> bg_pending b \<Longrightarrow> b = background_default"
  by (simp add: background_ok_def background_default_def)

lemma answered_default:
  "background_ok st b \<Longrightarrow> bg_answers b = x # rest \<Longrightarrow>
     b\<lparr>bg_answers := rest, bg_pending := False\<rparr> = background_default"
  by (cases b) (simp add: background_ok_def background_default_def split: if_splits)

lemma ask_idle [simp]: "ask w background_default = (\<lparr>bg_out = [w], bg_answers = [], bg_pending = True\<rparr>, True)"
  by (simp add: ask_def background_default_def)

lemma asked_ok [simp]:
  "background_ok st \<lparr>bg_out = [w], bg_answers = [], bg_pending = True\<rparr> \<longleftrightarrow> call_stage w = st"
  "room_asked \<lparr>bg_out = [w], bg_answers = [], bg_pending = True\<rparr> \<longleftrightarrow> (\<exists>cl i. w = CallOpenRoom cl i)"
  "asked_for i \<lparr>bg_out = [w], bg_answers = [], bg_pending = True\<rparr> \<longleftrightarrow> (\<forall>cl j. w = CallOpenRoom cl j \<longrightarrow> j = i)"
  by (auto simp: background_ok_def room_asked_def asked_for_def)

text \<open>Asking for a call other than a room's feed, from an app with none out.\<close>

lemma app_ask_inv:
  assumes "app_inv posted a" "call_stage w = screen_stage (ap_screen a)" "\<And>cl i. w \<noteq> CallOpenRoom cl i"
  shows "app_inv posted (app_ask w a)"
proof (cases "bg_pending (ap_background a)")
  case True
  then show ?thesis using assms(1) by (simp add: app_ask_def ask_def)
next
  case False
  then have idle: "ap_background a = background_default"
    using assms(1) idle_default by (auto simp: app_inv_def)
  then show ?thesis
    using assms by (auto simp: app_inv_def app_ask_def pane_ok_def split: app_screen.splits option.splits)
qed

lemma signed_out_inv: "app_inv posted a \<Longrightarrow> app_inv posted (fst (signed_out L e a))"
  by (auto simp: signed_out_def app_inv_def split: app_screen.splits)

lemma pane_ok_error [simp]: "pane_ok posted (s\<lparr>ch_error := e\<rparr>) = pane_ok posted s"
  by (simp add: pane_ok_def fun_eq_iff chat_ok_def open_id_def open_room_def selected_def split: option.split)

lemma pane_ok_warn [simp]: "pane_ok posted (warn m s) = pane_ok posted s"
  by (simp add: pane_ok_def fun_eq_iff chat_ok_def open_id_def open_room_def selected_def warn_def chat_changed_def split: option.split)

lemma pane_ok_restore [simp]: "pane_ok posted (restore I m s) = pane_ok posted s"
  by (simp add: pane_ok_def fun_eq_iff chat_ok_def open_id_def open_room_def selected_def restore_def split: option.split)

lemma connection_ok_error [simp]: "connection_ok (s\<lparr>cn_error := e\<rparr>) = connection_ok s"
  by (simp add: connection_ok_def cn_scion_def cn_pinned_def)

lemma app_failed_inv:
  assumes "app_inv posted a"
  shows "app_inv posted (app_failed L e a)"
proof (cases "signed_out L e a")
  case (Pair a' gone)
  then have "gone \<or> a' = a" "app_inv posted a'"
    using signed_out_inv [OF assms, of L e] by (auto simp: signed_out_def split: if_splits)
  then show ?thesis
    using Pair by (cases gone; cases "ap_screen a") (auto simp: app_failed_def app_inv_def)
qed

lemma app_refused_inv:
  assumes "app_inv posted a"
  shows "app_inv posted (app_refused L e a)"
proof (cases "signed_out L e a")
  case (Pair a' gone)
  then have "gone \<or> a' = a" "app_inv posted a'"
    using signed_out_inv [OF assms, of L e] by (auto simp: signed_out_def split: if_splits)
  then show ?thesis
    using Pair by (cases gone; cases "ap_screen a") (auto simp: app_refused_def app_inv_def)
qed

text \<open>Letting the old room go once the new one is asked for.\<close>

lemma app_open_room_inv:
  assumes "ap_screen a = ScChat s" "chat_ok s" "ap_client a \<noteq> None" "ap_rooms a \<noteq> None"
    "ap_background a = background_default"
  shows "app_inv posted (app_open_room a)"
proof -
  obtain cl r where "ap_client a = Some cl" "open_room s = Some r"
    using assms(2,3) by (auto simp: chat_ok_def open_room_def room_at_def)
  then show ?thesis
    using assms
    by (auto simp: app_open_room_def app_inv_def pane_ok_def chat_clear_def chat_changed_def chat_ok_def
        open_id_def open_room_def selected_def)
qed

section \<open>Every step keeps it\<close>

lemma pane_ok_cong:
  "ch_rooms s' = ch_rooms s \<Longrightarrow> ch_open s' = ch_open s \<Longrightarrow> ch_messages s' = ch_messages s \<Longrightarrow>
     ch_watched s' = ch_watched s \<Longrightarrow> pane_ok posted s' feed reopen b = pane_ok posted s feed reopen b"
  by (simp add: pane_ok_def chat_ok_def open_id_def open_room_def selected_def split: option.split)

lemma submit_not_open: "snd (submit W I pending s) \<noteq> Some COpen"
  by (simp add: submit_def Let_def split: option.split prod.split)

lemma chat_key_selection:
  assumes "chat_key W I k pending s = (s', intent)"
  shows "intent = Some COpen \<Longrightarrow> \<not> pending"
    "intent \<noteq> Some COpen \<Longrightarrow> ch_open s' = ch_open s \<and> ch_messages s' = ch_messages s"
proof -
  have "intent = Some COpen \<longrightarrow> \<not> pending \<and> k_code k \<in> {KTab, KBackTab}"
    using assms submit_not_open [of W I pending s]
    by (cases "k_code k") (auto simp: chat_key_def chat_open_def Let_def split: if_splits)
  then show "intent = Some COpen \<Longrightarrow> \<not> pending" by simp
  show "ch_open s' = ch_open s \<and> ch_messages s' = ch_messages s" if "intent \<noteq> Some COpen"
    using assms that submit_rooms [of W I pending s]
    by (cases "k_code k") (auto simp: chat_key_def chat_open_def scroll_by_def Let_def split: if_splits)
qed

lemma app_key_inv:
  assumes inv: "app_inv posted a"
  shows "app_inv posted (app_key L k a)"
proof (cases "k_code k = KEsc \<or> k_code k = KChar 99 \<and> k_control k")
  case True
  then show ?thesis using inv by (simp add: app_key_def app_inv_def cong: app_screen.case_cong)
next
  case False
  let ?pending = "bg_pending (ap_background a)"
  show ?thesis
  proof (cases "ap_screen a")
    case (ScConnection s)
    obtain s' out where r: "connection_key (al_input L) k ?pending s = (s', out)" by force
    have "connection_ok s'"
      using connection_key_ok [of s "al_input L" k ?pending] r inv ScConnection by (simp add: app_inv_def)
    then have "app_inv posted (a\<lparr>ap_screen := ScConnection s'\<rparr>)"
      using inv ScConnection by (simp add: app_inv_def)
    then show ?thesis
      using False ScConnection r
      by (cases out) (auto simp: app_key_def app_connect_def app_ask_inv)
  next
    case (ScSignIn s)
    obtain s' out where r: "sign_in_key (al_width L) (al_input L) k ?pending s = (s', out)" by force
    have "app_inv posted (a\<lparr>ap_screen := ScSignIn s'\<rparr>)"
      using inv ScSignIn by (simp add: app_inv_def)
    then show ?thesis
      using False ScSignIn r
      by (cases out)
        (auto simp: app_key_def app_register_def app_log_in_def app_ask_inv Let_def
          split: sign_in_intent.split option.split prod.split)
  next
    case (ScChat s)
    obtain s' out where r: "chat_key (al_width L) (al_input L) k ?pending s = (s', out)" by force
    have ok: "chat_ok s'"
      using chat_key_ok [of s "al_width L" "al_input L" k ?pending] r inv ScChat by (simp add: app_inv_def pane_ok_def)
    show ?thesis
    proof (cases "out = Some COpen")
      case True
      then have "ap_background a = background_default"
        using chat_key_selection(1) [OF r] inv idle_default by (auto simp: app_inv_def)
      then have "app_inv posted (app_open_room (a\<lparr>ap_screen := ScChat s'\<rparr>))"
        using app_open_room_inv [of "a\<lparr>ap_screen := ScChat s'\<rparr>" s'] ok inv ScChat by (simp add: app_inv_def)
      then show ?thesis using False ScChat r True by (auto simp: app_key_def)
    next
      case quiet: False
      have "pane_ok posted s' (ap_messages a) (ap_reopen a) (ap_background a) =
          pane_ok posted s (ap_messages a) (ap_reopen a) (ap_background a)"
        using chat_key_frame [of "al_width L" "al_input L" k ?pending s] chat_key_selection(2) [OF r quiet] r
        by (intro pane_ok_cong) simp_all
      then have "app_inv posted (a\<lparr>ap_screen := ScChat s'\<rparr>)"
        using inv ScChat by (simp add: app_inv_def)
      then show ?thesis
        using False ScChat r quiet
        by (cases out)
          (auto simp: app_key_def app_send_def app_create_room_def app_ask_inv Let_def
            split: chat_intent.split option.split)
    qed
  qed
qed

lemma pane_ok_append:
  assumes "pane_ok posted s (Some f) reopen b" "list_all (posted (mf_room f)) ms" "mf_room f' = mf_room f"
  shows "pane_ok posted (append_batch ms s) (Some f') reopen b"
  using assms
  by (auto simp: pane_ok_def append_batch_def chat_changed_def chat_ok_def open_id_def open_room_def selected_def Let_def)

lemma app_batch_inv:
  assumes "app_inv posted a" "ap_messages a = Some f" "mf_room f' = mf_room f"
    "\<forall>ms. batch = Inr ms \<longrightarrow> list_all (posted (mf_room f)) ms"
  shows "app_inv posted (app_batch L batch (a\<lparr>ap_messages := Some f'\<rparr>))"
proof -
  obtain s where s: "ap_screen a = ScChat s"
    using assms(1,2) by (cases "ap_screen a") (auto simp: app_inv_def)
  have "app_inv posted (a\<lparr>ap_messages := Some f'\<rparr>)"
    using assms(1-3) s by (auto simp: app_inv_def pane_ok_def)
  then show ?thesis
  proof (cases batch)
    case (Inr ms)
    have "pane_ok posted s (Some f) (ap_reopen a) (ap_background a)"
      using assms(1,2) s by (simp add: app_inv_def)
    then have "pane_ok posted (append_batch ms s) (Some f') (ap_reopen a) (ap_background a)"
      using pane_ok_append assms(3,4) Inr by blast
    then show ?thesis using assms(1) s Inr by (simp add: app_batch_def app_inv_def)
  qed (simp add: app_batch_def app_failed_inv)
qed

lemma pane_ok_rooms:
  assumes "pane_ok posted s feed reopen b" "rooms_ok rooms" "keeps_rooms (ch_rooms s) rooms"
  shows "pane_ok posted (show_rooms rooms s) feed reopen b"
proof -
  have "chat_ok (show_rooms rooms s)" "open_id (show_rooms rooms s) = open_id s"
    using show_rooms_keeps [OF _ assms(2,3)] assms(1) by (simp_all add: pane_ok_def open_id_def)
  moreover have "ch_messages (show_rooms rooms s) = ch_messages s" "ch_watched (show_rooms rooms s) = ch_watched s"
    by (simp_all add: show_rooms_def Let_def)
  ultimately show ?thesis using assms(1) unfolding pane_ok_def by metis
qed

lemma app_rooms_inv:
  assumes "app_inv posted a" "ap_rooms a \<noteq> None"
    "\<forall>rooms s. listed = Inr rooms \<longrightarrow> ap_screen a = ScChat s \<longrightarrow> rooms_ok rooms \<and> keeps_rooms (ch_rooms s) rooms"
  shows "app_inv posted (app_rooms L listed (a\<lparr>ap_rooms := Some f\<rparr>))"
proof -
  obtain s where s: "ap_screen a = ScChat s"
    using assms(1,2) by (cases "ap_screen a") (auto simp: app_inv_def)
  let ?a = "a\<lparr>ap_rooms := Some f\<rparr>"
  have inv: "app_inv posted ?a" using assms(1) s by (simp add: app_inv_def)
  show ?thesis
  proof (cases listed)
    case (Inr rooms)
    let ?b = "?a\<lparr>ap_screen := ScChat ((show_rooms rooms s)\<lparr>ch_error := None\<rparr>)\<rparr>"
    have p: "pane_ok posted (show_rooms rooms s) (ap_messages a) (ap_reopen a) (ap_background a)"
      using pane_ok_rooms [of posted s "ap_messages a" "ap_reopen a" "ap_background a" rooms] assms(3) Inr s inv by (simp add: app_inv_def)
    then have b: "app_inv posted ?b" using inv s by (simp add: app_inv_def)
    moreover have "app_inv posted (app_open_room ?b)"
    proof (cases "bg_pending (ap_background a)")
      case True
      then have "app_open_room ?b = ?b"
        by (simp add: app_open_room_def ask_def split: option.split)
      then show ?thesis using b by simp
    next
      case False
      then have "ap_background ?b = background_default" using b idle_default by (auto simp: app_inv_def)
      moreover have "chat_ok ((show_rooms rooms s)\<lparr>ch_error := None\<rparr>)"
        using p by (simp add: pane_ok_def chat_ok_def selected_def)
      ultimately show ?thesis using b by (intro app_open_room_inv) (simp_all add: app_inv_def)
    qed
    ultimately show ?thesis using Inr s by (simp add: app_rooms_def Let_def)
  qed (simp add: app_rooms_def app_failed_inv inv)
qed

text \<open>A call that was not for a room's feed changes nothing for the pane by being over.\<close>

lemma pane_ok_settled:
  fixes b :: "'c background"
  assumes "pane_ok posted s feed reopen b" "\<not> room_asked b"
  shows "pane_ok posted s feed reopen (background_default :: 'c background)"
  using assms by (cases feed) (auto simp: pane_ok_def)

text \<open>An answer arrives with nothing else out or waiting.\<close>

lemma app_answer_inv:
  assumes inv: "app_inv posted a" and ans: "bg_answers (ap_background a) = ans # rest"
  shows "app_inv posted (app_handle_answer L ans (a\<lparr>ap_background := (ap_background a)\<lparr>bg_answers := rest\<rparr>\<rparr>))"
proof -
  let ?a = "a\<lparr>ap_background := background_default\<rparr>"
  let ?b = "a\<lparr>ap_background := (ap_background a)\<lparr>bg_answers := rest\<rparr>\<rparr>"
  have bg: "background_ok (screen_stage (ap_screen a)) (ap_background a)" using inv by (simp add: app_inv_def)
  have eq: "?b\<lparr>ap_background := (ap_background ?b)\<lparr>bg_pending := False\<rparr>\<rparr> = ?a"
    using answered_default [OF bg ans] by simp
  have stage: "answer_stage ans = screen_stage (ap_screen a)" using bg ans by (simp add: background_ok_def)
  show ?thesis
  proof (cases "ap_screen a")
    case (ScConnection s)
    then obtain r where r: "ans = Connected r" using stage by (cases ans) auto
    have "app_inv posted ?a" using inv ScConnection by (simp add: app_inv_def)
    then show ?thesis
      using r eq inv ScConnection
      by (cases r) (simp_all add: app_handle_answer_def app_refused_inv, simp add: app_inv_def)
  next
    case (ScSignIn s)
    have a: "app_inv posted ?a" using inv ScSignIn by (simp add: app_inv_def)
    consider (reg) r where "ans = Registered r" | (log) u r where "ans = LoggedIn u r"
      using stage ScSignIn by (cases ans) auto
    then show ?thesis
    proof cases
      case reg
      then show ?thesis
        using eq a ScSignIn
        by (cases r) (auto simp: app_handle_answer_def app_refused_inv app_log_in_def app_ask_inv Let_def
            split: option.split prod.split)
    next
      case log
      show ?thesis
      proof (cases r)
        case (Inl e)
        then show ?thesis using log eq a by (simp add: app_handle_answer_def app_refused_inv)
      next
        case (Inr fr)
        then obtain f rooms where fr: "r = Inr (f, rooms)" by (cases fr) auto
        then have "rooms_ok rooms" using bg ans log by (auto simp: background_ok_def)
        then have "chat_ok (chat_new (al_input L) rooms u)" using chat_new_ok by blast
        then have "app_inv posted (app_open_room
            (?a\<lparr>ap_rooms := Some f, ap_screen := ScChat (chat_new (al_input L) rooms u)\<rparr>))"
          using inv ScSignIn by (intro app_open_room_inv) (simp_all add: app_inv_def)
        then show ?thesis using log fr eq by (simp add: app_handle_answer_def)
      qed
    qed
  next
    case (ScChat s)
    have p: "pane_ok posted s (ap_messages a) (ap_reopen a) (ap_background a)"
      using inv ScChat by (simp add: app_inv_def)
    have out: "bg_out (ap_background a) = []" "rest = []"
      using bg ans by (auto simp: background_ok_def split: if_splits)
    consider (opened) r where "ans = RoomOpened r" | (sent) m r where "ans = MessageSent m r"
      | (made) r where "ans = RoomCreated r"
      using stage ScChat by (cases ans) auto
    then show ?thesis
    proof cases
      case opened
      then have none: "ap_messages a = None" "ch_messages s = []"
        using p ans by (cases "ap_messages a"; force simp: pane_ok_def room_asked_def)+
      show ?thesis
      proof (cases r)
        case (Inl e)
        have "pane_ok posted s None True (ap_background ?a)"
          using p none by (auto simp: pane_ok_def)
        then have "app_inv posted (?a\<lparr>ap_reopen := True\<rparr>)"
          using inv ScChat none by (simp add: app_inv_def)
        then show ?thesis using opened Inl eq by (simp add: app_handle_answer_def app_refused_inv)
      next
        case (Inr f)
        then have "open_id s = Some (mf_room f)"
          using p ans opened by (auto simp: pane_ok_def asked_for_def)
        then have "pane_ok posted (watching (mf_room f) s) (Some f) False (ap_background ?a)"
          using p none
          by (simp add: pane_ok_def watching_def chat_ok_def open_id_def open_room_def selected_def)
        then show ?thesis
          using opened Inr eq inv ScChat by (simp add: app_handle_answer_def app_inv_def)
      qed
    next
      case sent
      then have "pane_ok posted s (ap_messages a) (ap_reopen a) (ap_background ?a)"
        using pane_ok_settled [OF p] ans out by (simp add: room_asked_def)
      then have "app_inv posted ?a" "app_inv posted (?a\<lparr>ap_screen := ScChat (restore (al_input L) m s)\<rparr>)"
        using inv ScChat by (simp_all add: app_inv_def)
      then show ?thesis
        using sent eq ScChat by (cases r) (simp_all add: app_handle_answer_def app_refused_inv)
    next
      case made
      then have "pane_ok posted s (ap_messages a) (ap_reopen a) (ap_background ?a)"
        using pane_ok_settled [OF p] ans out by (simp add: room_asked_def)
      then have "app_inv posted ?a"
        using inv ScChat by (simp add: app_inv_def)
      then show ?thesis
        using made eq by (cases r) (simp_all add: app_handle_answer_def app_refused_inv)
    qed
  qed
qed

text \<open>A task that finishes leaves its answer in its place.\<close>

lemma app_finished_inv:
  assumes inv: "app_inv posted a" and out: "bg_out (ap_background a) = us @ call # vs" and ans: "answers_call call ans"
  shows "app_inv posted (a\<lparr>ap_background := (ap_background a)\<lparr>bg_out := us @ vs,
      bg_answers := bg_answers (ap_background a) @ [ans]\<rparr>\<rparr>)"
proof -
  have bg: "background_ok (screen_stage (ap_screen a)) (ap_background a)" using inv by (simp add: app_inv_def)
  then have only: "us = []" "vs = []" "bg_answers (ap_background a) = []" "bg_pending (ap_background a)"
    using out by (auto simp: background_ok_def split: if_splits)
  have stage: "call_stage call = screen_stage (ap_screen a)" using bg out by (simp add: background_ok_def)
  have "answer_stage ans = call_stage call" using ans by (cases call) auto
  then have "background_ok (screen_stage (ap_screen a)) \<lparr>bg_out = [], bg_answers = [ans], bg_pending = True\<rparr>"
    using stage ans by (cases call) (auto simp: background_ok_def)
  moreover have "pane_ok posted s feed reopen \<lparr>bg_out = [], bg_answers = [ans], bg_pending = True\<rparr>"
    if "pane_ok posted s feed reopen (ap_background a)" for s feed reopen
    using that out only ans
    by (cases call) (auto simp: pane_ok_def room_asked_def asked_for_def split: option.splits)
  moreover have "(ap_background a)\<lparr>bg_out := us @ vs, bg_answers := bg_answers (ap_background a) @ [ans]\<rparr> =
      \<lparr>bg_out = [], bg_answers = [ans], bg_pending = True\<rparr>"
    using only by (cases "ap_background a") simp
  ultimately show ?thesis using inv by (auto simp: app_inv_def split: app_screen.split)
qed

lemma app_drawn_inv:
  assumes "app_inv posted a" "ap_screen a = ScChat s" "draw_ok D"
  shows "app_inv posted (a\<lparr>ap_screen := ScChat (fst (chat_draw W D here area s))\<rparr>)"
proof -
  have ok: "chat_ok s" using assms(1,2) by (simp add: app_inv_def pane_ok_def)
  have "ch_watched (fst (chat_draw W D here area s)) = ch_watched s"
    by (simp add: chat_draw_def draw_messages_def Let_def split: option.split prod.split)
  then have "pane_ok posted (fst (chat_draw W D here area s)) (ap_messages a) (ap_reopen a) (ap_background a) =
      pane_ok posted s (ap_messages a) (ap_reopen a) (ap_background a)"
    using chat_draw_frame [OF ok assms(3), of W here area] by (intro pane_ok_cong) (simp_all add: pane_view_def)
  then show ?thesis using assms(1,2) by (simp add: app_inv_def)
qed

lemma app_step_inv:
  assumes "app_step L D here posted a a'" "app_inv posted a" "draw_ok D"
  shows "app_inv posted a'"
  using assms(1)
proof cases
  case (answered ans rest)
  then show ?thesis using app_answer_inv assms(2) by blast
next
  case (finished us call vs ans)
  then show ?thesis using app_finished_inv assms(2) by blast
next
  case (drawn s area)
  then show ?thesis using app_drawn_inv assms(2,3) by blast
next
  case closed
  then show ?thesis using assms(2) by (simp add: app_inv_def cong: app_screen.case_cong)
next
  case (waited f f')
  then show ?thesis using assms(2) by (cases "ap_screen a") (auto simp: app_inv_def pane_ok_def)
next
  case (idled g)
  then show ?thesis using assms(2) by (cases "ap_screen a") (auto simp: app_inv_def)
qed (use assms(2) app_key_inv app_batch_inv app_rooms_inv in blast)+

lemma app_new_inv: "app_inv posted (app_new L form)"
  by (simp add: app_new_def app_inv_def connection_new_ok)

lemma app_steps_inv:
  "(app_step L D here posted)\<^sup>*\<^sup>* (app_new L form) a \<Longrightarrow> draw_ok D \<Longrightarrow> app_inv posted a"
  by (induction rule: rtranclp_induct) (simp add: app_new_inv, blast intro: app_step_inv)

section \<open>A run to the chat screen\<close>

text \<open>Connecting, signing in and opening the lobby: each answer in turn from a server that is there.\<close>

definition demo_libs :: "rstr app_libs" where
  "demo_libs = \<lparr>al_width = plain_widths, al_input = typed_input, al_debug = (\<lambda>s. s)\<rparr>"

definition enter_key :: key where
  "enter_key = \<lparr>k_code = KEnter, k_control = False\<rparr>"

definition waiting :: "unit app_call \<Rightarrow> unit background" where
  "waiting w = \<lparr>bg_out = [w], bg_answers = [], bg_pending = True\<rparr>"

definition done_with :: "unit app_answer \<Rightarrow> unit background" where
  "done_with x = \<lparr>bg_out = [], bg_answers = [x], bg_pending = True\<rparr>"

definition lobby_feed :: messages_feed where
  "lobby_feed = watch_open 50 (RoomId 1) SinceNewest [hello_at 1]"

definition demo_rooms_feed :: rooms_feed where
  "demo_rooms_feed = \<lparr>rf_holding = None, rf_due = None\<rparr>"

abbreviation demo_new :: "(rstr, unit) app" where
  "demo_new \<equiv> app_new demo_libs form_default"

definition demo_sign_in :: "unit background \<Rightarrow> (rstr, unit) app" where
  "demo_sign_in b = demo_new\<lparr>ap_client := Some (), ap_screen := ScSignIn (sign_in_default typed_input), ap_background := b\<rparr>"

definition demo_lobby :: "rstr chat" where
  "demo_lobby = chat_clear (chat_new typed_input [lobby_at 0] [])"

definition demo_chat :: "unit background \<Rightarrow> (rstr, unit) app" where
  "demo_chat b = (demo_sign_in b)\<lparr>ap_rooms := Some demo_rooms_feed, ap_screen := ScChat demo_lobby\<rparr>"

definition demo_watching :: "(rstr, unit) app" where
  "demo_watching = (demo_chat background_default)\<lparr>ap_screen := ScChat (watching (RoomId 1) demo_lobby),
     ap_messages := Some lobby_feed\<rparr>"

definition demo_form :: connection_form where
  "demo_form = connection_form_of typed_input (connection_new typed_input form_default)"

lemma demo_connects: "app_key demo_libs enter_key demo_new = demo_new\<lparr>ap_background := waiting (CallConnect demo_form)\<rparr>"
  by (simp add: app_key_def enter_key_def app_new_def connection_key_def app_connect_def app_ask_def waiting_def
      demo_form_def demo_libs_def connection_new_def Let_def)

lemma demo_connected:
  "app_handle_answer demo_libs (Connected (Inr ())) (demo_new\<lparr>ap_background := (done_with (Connected (Inr ())))\<lparr>bg_answers := []\<rparr>\<rparr>) =
     demo_sign_in background_default"
  by (simp add: app_handle_answer_def done_with_def demo_sign_in_def demo_libs_def background_default_def app_new_def)

lemma demo_logs_in:
  "app_key demo_libs enter_key (demo_sign_in background_default) = demo_sign_in (waiting (CallLogIn () [] []))"
  by (simp add: app_key_def enter_key_def demo_sign_in_def sign_in_key_def sign_in_default_def credentials_def
      app_log_in_def app_ask_def waiting_def demo_libs_def typed_input_def app_new_def)

lemma demo_logged_in:
  "app_handle_answer demo_libs (LoggedIn [] (Inr (demo_rooms_feed, [lobby_at 0])))
     (demo_sign_in ((done_with (LoggedIn [] (Inr (demo_rooms_feed, [lobby_at 0]))))\<lparr>bg_answers := []\<rparr>)) =
   demo_chat (waiting (CallOpenRoom () (RoomId 1)))"
  by (simp add: app_handle_answer_def done_with_def demo_sign_in_def demo_chat_def demo_libs_def app_new_def
      app_open_room_def chat_new_def open_room_def room_at_def selected_def lobby_at_def demo_lobby_def
      chat_clear_def chat_changed_def waiting_def ask_def)

lemma demo_opened:
  "app_handle_answer demo_libs (RoomOpened (Inr lobby_feed))
     (demo_chat ((done_with (RoomOpened (Inr lobby_feed)))\<lparr>bg_answers := []\<rparr>)) = demo_watching"
  by (simp add: app_handle_answer_def done_with_def demo_chat_def demo_sign_in_def demo_watching_def
      background_default_def lobby_feed_def watch_open_def app_new_def Let_def)

text \<open>A task that finishes on an app with nothing else out, and its answer being read.\<close>

lemma finish_alone:
  "app_step L D here posted (a\<lparr>ap_background := waiting w\<rparr>) (a\<lparr>ap_background := done_with x\<rparr>)"
  if "answers_call w x" for a :: "('i, unit) app"
  using app_step.finished [of "a\<lparr>ap_background := waiting w\<rparr>" "[]" w "[]" x] that
  by (simp add: waiting_def done_with_def)

lemma read_alone:
  "app_step L D here posted (a\<lparr>ap_background := done_with x\<rparr>)
     (app_handle_answer L x (a\<lparr>ap_background := (done_with x)\<lparr>bg_answers := []\<rparr>\<rparr>))"
  if "\<not> ap_exit a" for a :: "('i, unit) app"
  using app_step.answered [of "a\<lparr>ap_background := done_with x\<rparr>" x "[]"] that by (simp add: done_with_def)

lemma demo_app_simps:
  "(demo_sign_in b)\<lparr>ap_background := b'\<rparr> = demo_sign_in b'" "(demo_chat b)\<lparr>ap_background := b'\<rparr> = demo_chat b'"
  "\<not> ap_exit (demo_sign_in b)" "\<not> ap_exit (demo_chat b)" "\<not> ap_exit demo_new"
  by (simp_all add: demo_sign_in_def demo_chat_def app_new_def)

lemma demo_reached: "(app_step demo_libs plain_draw 0 posted)\<^sup>*\<^sup>* demo_new demo_watching"
proof -
  let ?R = "app_step demo_libs plain_draw 0 posted"
  let ?in = "LoggedIn [] (Inr (demo_rooms_feed, [lobby_at 0])) :: unit app_answer"
  have "?R demo_new (demo_new\<lparr>ap_background := waiting (CallConnect demo_form)\<rparr>)"
    unfolding demo_connects [symmetric] by (rule app_step.pressed) (rule demo_app_simps)
  moreover have "?R (demo_new\<lparr>ap_background := waiting (CallConnect demo_form)\<rparr>)
      (demo_new\<lparr>ap_background := done_with (Connected (Inr ()))\<rparr>)"
    by (rule finish_alone) simp
  moreover have "?R (demo_new\<lparr>ap_background := done_with (Connected (Inr ()))\<rparr>) (demo_sign_in background_default)"
    unfolding demo_connected [symmetric] by (rule read_alone) (rule demo_app_simps)
  moreover have "?R (demo_sign_in background_default) (demo_sign_in (waiting (CallLogIn () [] [])))"
    using app_step.pressed [of "demo_sign_in background_default"] demo_logs_in by (metis demo_app_simps(3))
  moreover have "?R (demo_sign_in (waiting (CallLogIn () [] []))) (demo_sign_in (done_with ?in))"
    using finish_alone [of "CallLogIn () [] []" ?in demo_libs plain_draw 0 posted "demo_sign_in background_default"] demo_rooms_ok
    by (simp add: demo_app_simps)
  moreover have "?R (demo_sign_in (done_with ?in)) (demo_chat (waiting (CallOpenRoom () (RoomId 1))))"
    using read_alone [of "demo_sign_in background_default" demo_libs plain_draw 0 posted ?in]
    by (simp only: demo_app_simps demo_logged_in simp_thms)
  moreover have "?R (demo_chat (waiting (CallOpenRoom () (RoomId 1)))) (demo_chat (done_with (RoomOpened (Inr lobby_feed))))"
    using finish_alone [of "CallOpenRoom () (RoomId 1)" "RoomOpened (Inr lobby_feed)" demo_libs plain_draw 0 posted "demo_chat background_default"]
    by (simp add: demo_app_simps lobby_feed_def watch_open_def Let_def)
  moreover have "?R (demo_chat (done_with (RoomOpened (Inr lobby_feed)))) demo_watching"
    using read_alone [of "demo_chat background_default" demo_libs plain_draw 0 posted "RoomOpened (Inr lobby_feed)"]
    by (simp only: demo_app_simps demo_opened simp_thms)
  ultimately show ?thesis by (meson rtranclp.rtrancl_into_rtrancl rtranclp.rtrancl_refl)
qed

section \<open>Properties\<close>

text \<open>C9: Whatever is pressed, answered, delivered and listed, in any order: on the chat screen a room is
  always open; the feed there is watches that room and the pane shows only messages posted to it;
  and when there is no feed the pane is empty and one is on its way, being asked for or due again
  with the next room list.\<close>

theorem app_feed_is_open_room:
  assumes "draw_ok D" and "(app_step L D here posted)\<^sup>*\<^sup>* (app_new L form) a" and "ap_screen a = ScChat s"
  shows "\<exists>r. open_room s = Some r \<and> list_all (posted (rm_id r)) (ch_messages s) \<and>
    (case ap_messages a of
       Some f \<Rightarrow> mf_room f = rm_id r \<and> ch_watched s = Some (rm_id r)
     | None \<Rightarrow> ch_messages s = [] \<and> (room_asked (ap_background a) \<or> ap_reopen a))"
proof -
  have "pane_ok posted s (ap_messages a) (ap_reopen a) (ap_background a)"
    using app_steps_inv [OF assms(2,1)] assms(3) by (simp add: app_inv_def)
  then show ?thesis by (cases "ap_messages a") (auto simp: pane_ok_def open_id_def)
qed

corollary app_feed_is_open_room_witness:
  "\<exists>r. open_room (watching (RoomId 1) demo_lobby) = Some r \<and> rm_id r = RoomId 1"
proof -
  have scr: "ap_screen demo_watching = ScChat (watching (RoomId 1) demo_lobby)"
    "ap_messages demo_watching = Some lobby_feed"
    by (simp_all add: demo_watching_def)
  show ?thesis
    using app_feed_is_open_room [OF plain_draw_ok demo_reached scr(1), of "\<lambda>_ _. True"]
    by (auto simp: scr lobby_feed_def watch_open_def Let_def)
qed





text \<open>C32: The transport the connection screen asks for is the one it shows. The URL's scheme must be the
  chosen transport's; over SCION the endhost API must be given and be a URL; certificates go
  unchecked exactly when that choice shows, one is pinned only when named under that choice, and
  the one credential sent is the one chosen. Two flags given together are never refused here, for
  the screen has already dropped one.\<close>

theorem transport_as_shown:
  "(case transport_of U url (connection_form_of I c) of
      Ok TcpKind \<Rightarrow> cn_transport c = TTcp \<and> ul_scheme U url = lit ''http'' \<and> cn_trust c \<noteq> TrInsecure
    | Ok (ScionKind sc) \<Rightarrow> cn_transport c = TScion \<and> ul_scheme U url = lit ''https'' \<and>
        ul_parse U (trim (in_value I (cn_endhost_api c))) = Inr (sc_endhost_api sc) \<and>
        sc_target sc = blank_as_none (trim (in_value I (cn_target c))) \<and>
        (sc_trust sc = Insecure \<longleftrightarrow> cn_trust c = TrInsecure) \<and>
        (sc_trust sc = Pinned (trim (in_value I (cn_cert_path c))) \<longleftrightarrow>
           cn_trust c = TrPinned \<and> trim (in_value I (cn_cert_path c)) \<noteq> []) \<and>
        (case sc_credential sc of
           NoCredential \<Rightarrow> trim (in_value I (cn_secret c)) = []
         | TokenCredential t \<Rightarrow> cn_credential c = CToken \<and> snap_token_str t = trim (in_value I (cn_snap_token c))
         | ApiKeyCredential k \<Rightarrow> cn_credential c = CApiKey \<and> api_key_str (ak_key k) = trim (in_value I (cn_auth_api_key c)) \<and>
             ul_parse U (cn_aa_url c) = Inr (ak_aa_url k))
    | Err e \<Rightarrow> e \<noteq> two_credentials \<and> (\<exists>t. trust_of (connection_form_of I c) = Ok t)
    | Panic p \<Rightarrow> False)"
proof -
  let ?f = "connection_form_of I c"
  have fm: "fm_transport ?f = cn_transport c" "fm_endhost_api ?f = trim (in_value I (cn_endhost_api c))"
    "fm_insecure ?f = (cn_trust c = TrInsecure)" "fm_target ?f = trim (in_value I (cn_target c))"
    "fm_aa_url ?f = cn_aa_url c"
    "fm_cert_path ?f = (if cn_trust c = TrPinned then trim (in_value I (cn_cert_path c)) else [])"
    "api_key_str (fm_auth_api_key ?f) = (case cn_credential c of CApiKey \<Rightarrow> trim (in_value I (cn_secret c)) | CToken \<Rightarrow> [])"
    "snap_token_str (fm_snap_token ?f) = (case cn_credential c of CApiKey \<Rightarrow> [] | CToken \<Rightarrow> trim (in_value I (cn_secret c)))"
    by (cases "cn_credential c"; simp add: connection_form_of_def cn_pinned_def cn_secret_def)+
  have tr: "trust_of ?f = Ok (if cn_trust c = TrInsecure then Insecure
      else if cn_trust c = TrPinned \<and> trim (in_value I (cn_cert_path c)) \<noteq> []
      then Pinned (trim (in_value I (cn_cert_path c))) else SystemRoots)"
    by (simp add: trust_of_def fm blank_as_none_def)
  have cr: "credential_of U ?f =
      (if trim (in_value I (cn_secret c)) = [] then Ok NoCredential
       else case cn_credential c of
         CToken \<Rightarrow> Ok (TokenCredential (SnapToken (trim (in_value I (cn_snap_token c)))))
       | CApiKey \<Rightarrow> (case ul_parse U (cn_aa_url c) of
             Inl e \<Rightarrow> Err (ConfigErr (lit ''--aa-url '' @ [34] @ cn_aa_url c @ [34] @ lit '' is not a URL: '' @ e))
           | Inr aa \<Rightarrow> Ok (ApiKeyCredential \<lparr>ak_key = ApiKey (trim (in_value I (cn_auth_api_key c))),
               ak_aa_url = aa, ak_device_id = DEVICE_ID\<rparr>)))"
    by (cases "cn_credential c") (simp_all add: credential_of_def fm blank_as_none_def cn_secret_def split: sum.split)
  show ?thesis
    by (simp add: transport_of_def tr cr fm scheme_def blank_as_none_def wrong_scheme_def insecure_tcp_def
        no_endhost_def bad_endhost_def two_credentials_def cn_secret_def
        split: transport_choice.split sum.split credential_choice.split)
qed

end
