(* ===== verification/Server_Cert.thy ===== *)
theory Server_Cert
  imports Server_Config
begin

text \<open>
  The server's TLS identity (crates/chat-server/src/cert.rs): a certificate read from the data
  directory, or generated there, and the fingerprint clients pin. The certificate generator, the PEM
  decoder and SHA-256 are the argument \<open>tls_lib\<close>, over the library's own types of key pairs
  \<open>'k\<close>, parameters \<open>'p\<close> and certificates \<open>'c\<close>; what a key pair is drawn from is an argument
  too.
\<close>

section \<open>The libraries\<close>

record ('k, 'p, 'c) tls_lib =
  tl_key_pair :: "nat list \<Rightarrow> rstr + 'k"
  tl_params :: "rstr list \<Rightarrow> rstr + 'p"
  tl_self_signed :: "'p \<Rightarrow> 'k \<Rightarrow> rstr + 'c"
  tl_cert_pem :: "'c \<Rightarrow> rstr"
  tl_key_pem :: "'k \<Rightarrow> rstr"
  tl_pem_parse :: "nat list \<Rightarrow> rstr + nat list"
  tl_sha256 :: "nat list \<Rightarrow> nat list"

text \<open>Documented behaviour: a SHA-256 digest is 32 bytes.\<close>

definition sha256_ok :: "('k, 'p, 'c) tls_lib \<Rightarrow> bool" where
  "sha256_ok L \<longleftrightarrow> (\<forall>bs. length (tl_sha256 L bs) = 32 \<and> (\<forall>b\<in>set (tl_sha256 L bs). b < 256))"

section \<open>The certificate\<close>

definition SERVER_NAME :: rstr where
  "SERVER_NAME = lit ''localhost''"

datatype cert_error = CertIo string rstr rstr | CertGenerate rstr | CertParse rstr rstr

record server_cert =
  sv_cert_path :: rstr
  sv_key_path :: rstr
  sv_fingerprint :: rstr

definition cert_result :: "('x \<Rightarrow> cert_error) \<Rightarrow> 'x + 'a \<Rightarrow> (cert_error, 'a) result" where
  "cert_result f s = (case s of Inl x \<Rightarrow> Err (f x) | Inr a \<Rightarrow> Ok a)"

lemma cert_result_Ok [res_simps]: "cert_result f s = Ok a \<longleftrightarrow> s = Inr a"
  by (auto simp: cert_result_def split: sum.splits)

lemma cert_result_no_panic [simp]: "cert_result f s \<noteq> Panic p"
  by (auto simp: cert_result_def split: sum.splits)

definition cert_write :: "os \<Rightarrow> rstr \<Rightarrow> nat list \<Rightarrow> nat \<Rightarrow> files \<Rightarrow> files \<times> (cert_error, unit) result" where
  "cert_write s path contents mode fs =
     (let (fs', r) = fs_replace s path contents mode fs in (fs', map_err (CertIo ''write'' path) r))"

text \<open>Generating a pair: \<open>0o644\<close> for the certificate, then \<open>0o600\<close> for the key.\<close>

definition generate ::
  "os \<Rightarrow> (rstr \<Rightarrow> rstr option) \<Rightarrow> ('k, 'p, 'c) tls_lib \<Rightarrow> nat list \<Rightarrow> rstr \<Rightarrow> rstr \<Rightarrow> rstr \<Rightarrow> files
     \<Rightarrow> files \<times> (cert_error, unit) result" where
  "generate s mkdir L random data_dir cert_path key_path fs =
     (case mkdir data_dir of
        Some e \<Rightarrow> (fs, Err (CertIo ''create the data directory'' data_dir e))
      | None \<Rightarrow>
          (case bind_res (cert_result CertGenerate (tl_key_pair L random)) (\<lambda>key.
                bind_res (cert_result CertGenerate (tl_params L [SERVER_NAME])) (\<lambda>params.
                bind_res (cert_result CertGenerate (tl_self_signed L params key)) (\<lambda>cert.
                  Ok (key, cert)))) of
             Err e \<Rightarrow> (fs, Err e)
           | Panic p \<Rightarrow> (fs, Panic p)
           | Ok (key, cert) \<Rightarrow>
               (case cert_write s cert_path (as_bytes (tl_cert_pem L cert)) 420 fs of
                  (fs1, Ok _) \<Rightarrow> cert_write s key_path (as_bytes (tl_key_pem L key)) 384 fs1
                | (fs1, Err e) \<Rightarrow> (fs1, Err e)
                | (fs1, Panic p) \<Rightarrow> (fs1, Panic p))))"

text \<open>Over the DER the PEM block holds.\<close>

definition fingerprint ::
  "os \<Rightarrow> ('k, 'p, 'c) tls_lib \<Rightarrow> rstr \<Rightarrow> files \<Rightarrow> (cert_error, rstr) result" where
  "fingerprint s L cert_path fs =
     bind_res (cert_result (CertIo ''read the certificate'' cert_path) (fs_read s cert_path fs)) (\<lambda>pem_text.
     bind_res (cert_result (CertParse cert_path) (tl_pem_parse L pem_text)) (\<lambda>der.
       Ok (concat (map hex2 (tl_sha256 L der)))))"

definition cert_file :: "rstr \<Rightarrow> rstr" where
  "cert_file data_dir = path_join data_dir (lit ''cert.pem'')"

definition key_file :: "rstr \<Rightarrow> rstr" where
  "key_file data_dir = path_join data_dir (lit ''cert.key'')"

definition load_or_create ::
  "os \<Rightarrow> (rstr \<Rightarrow> rstr option) \<Rightarrow> ('k, 'p, 'c) tls_lib \<Rightarrow> nat list \<Rightarrow> rstr \<Rightarrow> files
     \<Rightarrow> files \<times> (cert_error, server_cert) result" where
  "load_or_create s mkdir L random data_dir fs =
     (let cert_path = cert_file data_dir; key_path = key_file data_dir;
          (fs1, made) = (if \<not> is_file s cert_path fs \<or> \<not> is_file s key_path fs
            then generate s mkdir L random data_dir cert_path key_path fs else (fs, Ok ()))
      in (fs1, bind_res made (\<lambda>_.
               bind_res (fingerprint s L cert_path fs1) (\<lambda>fp.
                 Ok \<lparr>sv_cert_path = cert_path, sv_key_path = key_path, sv_fingerprint = fp\<rparr>))))"

section \<open>What generating does\<close>

lemma cert_file_neq_key_file [simp]: "cert_file d \<noteq> key_file d" "key_file d \<noteq> cert_file d"
  by (auto simp: cert_file_def key_file_def path_join_def)

lemma cert_write_other: "cert_write s p b m fs = (fs', r) \<Longrightarrow> q \<noteq> p \<Longrightarrow> fs' q = fs q"
  by (auto simp: cert_write_def fs_replace_other split: prod.splits)

lemma cert_write_ok:
  "cert_write s p b m fs = (fs', Ok u) \<Longrightarrow>
     fs' = fs(p \<mapsto> \<lparr>f_bytes = b, f_mode = (case fs p of Some f \<Rightarrow> f_mode f | None \<Rightarrow> m)\<rparr>)"
  by (auto simp: cert_write_def res_simps dest: fs_replace_ok split: prod.splits)

lemma generate_other:
  assumes "generate s mkdir L random d c k fs = (fs', r)" and "q \<noteq> c" and "q \<noteq> k"
  shows "fs' q = fs q"
proof -
  have "fs' q = fs q" if "cert_write s c b1 m1 fs = (fs1, w)" and "cert_write s k b2 m2 fs1 = (fs', r)"
    for b1 m1 fs1 w b2 m2
    using cert_write_other [OF that(1) assms(2)] cert_write_other [OF that(2) assms(3)] by simp
  then show ?thesis using assms
    by (auto simp: generate_def cert_write_other split: option.splits result.splits prod.splits)
qed

lemma generate_ok:
  assumes "generate s mkdir L random d c k fs = (fs', Ok u)" and "c \<noteq> k"
  shows "\<exists>key params cert.
    tl_key_pair L random = Inr key \<and> tl_params L [SERVER_NAME] = Inr params \<and>
    tl_self_signed L params key = Inr cert \<and>
    fs' = fs(c \<mapsto> \<lparr>f_bytes = as_bytes (tl_cert_pem L cert), f_mode = (case fs c of Some f \<Rightarrow> f_mode f | None \<Rightarrow> 420)\<rparr>,
      k \<mapsto> \<lparr>f_bytes = as_bytes (tl_key_pem L key), f_mode = (case fs k of Some f \<Rightarrow> f_mode f | None \<Rightarrow> 384)\<rparr>)"
proof -
  obtain key cert params where lib: "tl_key_pair L random = Inr key" "tl_params L [SERVER_NAME] = Inr params"
      "tl_self_signed L params key = Inr cert"
    and w: "(case cert_write s c (as_bytes (tl_cert_pem L cert)) 420 fs of
              (fs1, Ok _) \<Rightarrow> cert_write s k (as_bytes (tl_key_pem L key)) 384 fs1
            | (fs1, Err e) \<Rightarrow> (fs1, Err e) | (fs1, Panic p) \<Rightarrow> (fs1, Panic p)) = (fs', Ok u)"
    using assms(1) by (auto simp: generate_def res_simps split: option.splits result.splits prod.splits)
  from w obtain fs1 v where w1: "cert_write s c (as_bytes (tl_cert_pem L cert)) 420 fs = (fs1, Ok v)"
    and w2: "cert_write s k (as_bytes (tl_key_pem L key)) 384 fs1 = (fs', Ok u)"
    by (auto split: result.splits prod.splits)
  show ?thesis using lib cert_write_ok [OF w1] cert_write_ok [OF w2] assms(2) by auto
qed

lemma load_or_create_ok:
  assumes "load_or_create s mkdir L random d fs = (fs', Ok c)"
  shows "sv_cert_path c = cert_file d" "sv_key_path c = key_file d"
    "fingerprint s L (cert_file d) fs' = Ok (sv_fingerprint c)"
    "fs' (cert_file d) \<noteq> None" "fs' (key_file d) \<noteq> None"
    "is_file s (cert_file d) fs \<Longrightarrow> is_file s (key_file d) fs \<Longrightarrow> fs' = fs"
    "\<not> is_file s (cert_file d) fs \<or> \<not> is_file s (key_file d) fs \<Longrightarrow>
       generate s mkdir L random d (cert_file d) (key_file d) fs = (fs', Ok ())"
proof -
  show "sv_cert_path c = cert_file d" "sv_key_path c = key_file d"
    "fingerprint s L (cert_file d) fs' = Ok (sv_fingerprint c)"
    "is_file s (cert_file d) fs \<Longrightarrow> is_file s (key_file d) fs \<Longrightarrow> fs' = fs"
    using assms by (auto simp: load_or_create_def Let_def res_simps split: prod.splits if_splits)
  show gen: "\<not> is_file s (cert_file d) fs \<or> \<not> is_file s (key_file d) fs \<Longrightarrow>
       generate s mkdir L random d (cert_file d) (key_file d) fs = (fs', Ok ())"
    using assms by (auto simp: load_or_create_def Let_def res_simps split: prod.splits if_splits)
  have "fs' (cert_file d) \<noteq> None \<and> fs' (key_file d) \<noteq> None"
  proof (cases "is_file s (cert_file d) fs \<and> is_file s (key_file d) fs")
    case True
    then have "fs' = fs" using assms by (auto simp: load_or_create_def Let_def split: prod.splits if_splits)
    then show ?thesis using True by (simp add: is_file_def)
  next
    case False
    then have "generate s mkdir L random d (cert_file d) (key_file d) fs = (fs', Ok ())" using gen by blast
    from generate_ok [OF this cert_file_neq_key_file(1)] show ?thesis by auto
  qed
  then show "fs' (cert_file d) \<noteq> None" "fs' (key_file d) \<noteq> None" by auto
qed

end
