(* ===== verification/Server_Startup.thy ===== *)
theory Server_Startup
  imports Server_Api Server_Cert
begin

text \<open>
  The server runtime (crates/chat-server/src/lib.rs, scion.rs and main.rs): opening the store and the
  token secret into the handlers' state, and serving it over TCP or over HTTP/3 on SCION. The host is
  the database files and the other files of the data directory, in two maps. What axum, the SCION
  SDK, the AA client and the QUIC library do is the argument \<open>net_lib\<close>, over their own types;
  a serving call is a function of what it is given to serve.
\<close>

section \<open>Errors\<close>

datatype run_error =
    RunStore store_error | RunAuth auth_error | RunServe sock_addr rstr | RunCert cert_error
  | RunConfig rstr | RunAa rstr | RunScion string rstr

section \<open>The state the handlers need\<close>

record host =
  ho_disk :: disk
  ho_files :: files

text \<open>What a start meets: faults of the system, the clock, and the bytes it draws.\<close>

record start_env =
  se_open :: open_env
  se_env :: env
  se_os :: os
  se_random :: "nat list"

definition server_state :: "start_env \<Rightarrow> config \<Rightarrow> host \<Rightarrow> host \<times> (run_error, db app_state) result" where
  "server_state e cfg h =
     (case sqlite_new (se_open e) (se_env e) (config_database cfg) (ho_disk h) of
        (dk, Err x) \<Rightarrow> (h\<lparr>ho_disk := dk\<rparr>, Err (RunStore x))
      | (dk, Panic p) \<Rightarrow> (h\<lparr>ho_disk := dk\<rparr>, Panic p)
      | (dk, Ok _) \<Rightarrow>
          (let (fs, secret) = load_or_create_secret (se_os e) (se_random e) (config_jwt_secret cfg) (ho_files h)
           in (h\<lparr>ho_disk := dk, ho_files := fs\<rparr>,
               bind_res (map_err RunAuth secret) (\<lambda>secret.
                 Ok \<lparr>as_store = sqlite_store (config_caps cfg),
                     as_tokens = tokens_new secret (token_validity cfg), as_config = cfg\<rparr>))))"

section \<open>The libraries\<close>

record 'ia scion_addr =
  sn_isd_asn :: 'ia
  sn_ip :: ip_addr
  sn_port :: u16

datatype ('url, 'src) builder_call = WithEndhostApi 'url | WithAuthToken rstr | WithAuthTokenSource 'src

record ('url, 'src, 'st, 'ia, 'so, 'q) net_lib =
  nl_tcp_bind :: "sock_addr \<Rightarrow> rstr option"
  nl_tcp_serve :: "sock_addr \<Rightarrow> db app_state \<Rightarrow> rstr option"
  nl_url_parse :: "rstr \<Rightarrow> rstr + 'url"
  nl_aa_start :: "rstr \<Rightarrow> 'url \<Rightarrow> rstr \<Rightarrow> rstr + 'src"
  nl_build :: "('url, 'src) builder_call list \<Rightarrow> rstr + 'st"
  nl_local_ases :: "'st \<Rightarrow> 'ia list"
  nl_bind :: "'st \<Rightarrow> 'ia scion_addr \<Rightarrow> rstr + 'so"
  nl_local_addr :: "'so \<Rightarrow> 'ia scion_addr"
  nl_quic :: "rstr + 'q"
  nl_load_cert :: "'q \<Rightarrow> rstr \<Rightarrow> rstr + 'q"
  nl_load_key :: "'q \<Rightarrow> rstr \<Rightarrow> rstr + 'q"
  nl_h3_serve :: "'so \<Rightarrow> db app_state \<Rightarrow> 'q \<Rightarrow> rstr option"

fun run_result :: "('x \<Rightarrow> run_error) \<Rightarrow> 'x + 'a \<Rightarrow> (run_error, 'a) result" where
  "run_result f (Inl x) = Err (f x)"
| "run_result f (Inr a) = Ok a"

lemma run_result_Ok [res_simps]: "run_result f s = Ok a \<longleftrightarrow> s = Inr a"
  by (cases s) auto

lemma run_result_no_panic [simp]: "run_result f s \<noteq> Panic p"
  by (cases s) auto

section \<open>SCION (scion.rs)\<close>

definition DEVICE_ID :: rstr where
  "DEVICE_ID = lit ''chat-server''"

definition read_secret :: "os \<Rightarrow> files \<Rightarrow> rstr \<Rightarrow> rstr \<Rightarrow> (run_error, rstr) result" where
  "read_secret s fs path flag =
     (case fs_read_to_string s path fs of
        Inl source \<Rightarrow> Err (RunConfig (lit ''could not read '' @ flag @ lit '' '' @ path @ lit '': '' @ source))
      | Inr secret \<Rightarrow> Ok (trim secret))"

definition build_stack ::
  "('url, 'src, 'st, 'ia, 'so, 'q) net_lib \<Rightarrow> os \<Rightarrow> files \<Rightarrow> config \<Rightarrow> (run_error, 'st) result" where
  "build_stack N s fs cfg =
     (case cfg_endhost_api cfg of
        None \<Rightarrow> Err (RunConfig (lit ''--endhost-api is required by --transport scion: it is how the server finds the network.''))
      | Some given \<Rightarrow>
          bind_res (run_result (\<lambda>e. RunConfig (lit ''--endhost-api \"'' @ given @ lit ''\" is not a URL: '' @ e))
              (nl_url_parse N given)) (\<lambda>endhost_api.
          bind_res (run_result (\<lambda>e. RunConfig (lit ''--aa-url \"'' @ cfg_aa_url cfg @ lit ''\" is not a URL: '' @ e))
              (nl_url_parse N (cfg_aa_url cfg))) (\<lambda>aa_url.
          bind_res (case cfg_auth_token_file cfg of
              None \<Rightarrow> Ok [WithEndhostApi endhost_api]
            | Some path \<Rightarrow> map_res (\<lambda>token. [WithEndhostApi endhost_api, WithAuthToken token])
                (read_secret s fs path (lit ''--auth-token-file''))) (\<lambda>builder.
          bind_res (case cfg_auth_api_key_file cfg of
              None \<Rightarrow> Ok builder
            | Some path \<Rightarrow>
                bind_res (read_secret s fs path (lit ''--auth-api-key-file'')) (\<lambda>api_key.
                bind_res (run_result RunAa (nl_aa_start N api_key aa_url DEVICE_ID)) (\<lambda>src.
                  Ok (builder @ [WithAuthTokenSource src])))) (\<lambda>builder.
          run_result (RunScion ''building the SCION stack'') (nl_build N builder))))))"

text \<open>The socket a \<open>ScionListener\<close> holds; the stack it holds beside it only has to live as long.\<close>

definition scion_bind ::
  "('url, 'src, 'st, 'ia, 'so, 'q) net_lib \<Rightarrow> 'st \<Rightarrow> config \<Rightarrow> (run_error, 'so) result" where
  "scion_bind N stack cfg =
     (case nl_local_ases N stack of
        [] \<Rightarrow> Err (RunScion ''reading the local AS'' (lit ''the endhost API reported no AS for this host''))
      | isd_asn # _ \<Rightarrow>
          run_result (RunScion ''binding a SCION socket'')
            (nl_bind N stack \<lparr>sn_isd_asn = isd_asn, sn_ip = sa_ip (cfg_listen cfg), sn_port = sa_port (cfg_listen cfg)\<rparr>))"

text \<open>Paths of the model are text, so the branch for a path that is not UTF-8 is not reached.\<close>

definition quic_config ::
  "('url, 'src, 'st, 'ia, 'so, 'q) net_lib \<Rightarrow> server_cert \<Rightarrow> (run_error, 'q) result" where
  "quic_config N cert =
     bind_res (run_result (RunScion ''building the QUIC configuration'') (nl_quic N)) (\<lambda>quic.
     bind_res (run_result (RunScion ''loading the certificate'') (nl_load_cert N quic (sv_cert_path cert))) (\<lambda>quic.
     run_result (RunScion ''loading the private key'') (nl_load_key N quic (sv_key_path cert))))"

definition serve_on ::
  "('url, 'src, 'st, 'ia, 'so, 'q) net_lib \<Rightarrow> ('k, 'p, 'c) tls_lib \<Rightarrow> start_env \<Rightarrow> 'so \<Rightarrow> config
     \<Rightarrow> db app_state \<Rightarrow> files \<Rightarrow> files \<times> (run_error, unit) result" where
  "serve_on N L e socket cfg st fs =
     (let (fs1, cert) = load_or_create (se_os e) (dir_fault (se_open e)) L (se_random e) (cfg_data_dir cfg) fs
      in (fs1, bind_res (map_err RunCert cert) (\<lambda>cert.
               bind_res (quic_config N cert) (\<lambda>quic.
                 case nl_h3_serve N socket st quic of
                   None \<Rightarrow> Ok ()
                 | Some e \<Rightarrow> Err (RunScion ''serving over scion'' e)))))"

definition serve_scion ::
  "('url, 'src, 'st, 'ia, 'so, 'q) net_lib \<Rightarrow> ('k, 'p, 'c) tls_lib \<Rightarrow> start_env \<Rightarrow> config
     \<Rightarrow> db app_state \<Rightarrow> files \<Rightarrow> files \<times> (run_error, unit) result" where
  "serve_scion N L e cfg st fs =
     (case bind_res (build_stack N (se_os e) fs cfg) (\<lambda>stack. scion_bind N stack cfg) of
        Ok socket \<Rightarrow> serve_on N L e socket cfg st fs
      | Err x \<Rightarrow> (fs, Err x)
      | Panic p \<Rightarrow> (fs, Panic p))"

section \<open>Running (lib.rs, main.rs)\<close>

definition serve_tcp ::
  "('url, 'src, 'st, 'ia, 'so, 'q) net_lib \<Rightarrow> config \<Rightarrow> db app_state \<Rightarrow> (run_error, unit) result" where
  "serve_tcp N cfg st =
     (case nl_tcp_bind N (cfg_listen cfg) of
        Some e \<Rightarrow> Err (RunServe (cfg_listen cfg) e)
      | None \<Rightarrow>
          (case nl_tcp_serve N (cfg_listen cfg) st of
             Some e \<Rightarrow> Err (RunServe (cfg_listen cfg) e)
           | None \<Rightarrow> Ok ()))"

definition run ::
  "('url, 'src, 'st, 'ia, 'so, 'q) net_lib \<Rightarrow> ('k, 'p, 'c) tls_lib \<Rightarrow> start_env \<Rightarrow> config \<Rightarrow> host
     \<Rightarrow> host \<times> (run_error, unit) result" where
  "run N L e cfg h =
     (case server_state e cfg h of
        (h1, Err x) \<Rightarrow> (h1, Err x)
      | (h1, Panic p) \<Rightarrow> (h1, Panic p)
      | (h1, Ok st) \<Rightarrow>
          (case cfg_transport cfg of
             Tcp \<Rightarrow> (h1, serve_tcp N cfg st)
           | Scion \<Rightarrow>
               (let (fs, r) = serve_scion N L e cfg st (ho_files h1) in (h1\<lparr>ho_files := fs\<rparr>, r))))"

text \<open>\<open>main\<close>'s exit code.\<close>

definition exit_code :: "(run_error, unit) result \<Rightarrow> nat" where
  "exit_code r = (case r of Ok _ \<Rightarrow> 0 | Err _ \<Rightarrow> 1 | Panic _ \<Rightarrow> 101)"

end
