(* ===== verification/Startup_Properties.thy ===== *)
theory Startup_Properties
  imports Server_Startup Server_Properties
begin

text \<open>
  What a start of the server promises: the secret and the certificate are made once and then kept, a
  restart keeps accounts, messages and sessions, and the SCION stack is built from the credentials
  the configuration names.
\<close>

section \<open>The secret\<close>

lemma read_secret_again:
  assumes "load_or_create_secret s random path fs = (fs', Ok sec)" and "read_fault s' path = None"
  shows "load_or_create_secret s' random' path fs' = (fs', Ok sec)"
proof -
  have "\<exists>f. fs' path = Some f \<and> f_bytes f = sec"
    using assms(1) by (cases rule: load_or_create_secret_cases) auto
  then show ?thesis using assms(2) by (auto simp: load_or_create_secret_def)
qed

text \<open>C16: The token secret: one that is there is returned as it is and never rewritten; a new one is
  exactly the bytes drawn, in a file only the owner can read; nothing else is touched; and what a
  start returned every later start returns again, whatever it would have drawn.\<close>

theorem secret_lifecycle:
  assumes "load_or_create_secret s random path fs = (fs', r)"
  shows "(\<forall>f. fs path = Some f \<longrightarrow> fs' = fs \<and> (read_fault s path = None \<longrightarrow> r = Ok (f_bytes f))) \<and>
    (fs path = None \<longrightarrow> (\<forall>f. fs' path = Some f \<longrightarrow> f_mode f = 384 \<and> (\<exists>n. f_bytes f = take n random)) \<and>
      (\<forall>sec. r = Ok sec \<longrightarrow> sec = random)) \<and>
    (\<forall>q. q \<noteq> path \<longrightarrow> fs' q = fs q) \<and>
    (\<forall>sec s' random'. r = Ok sec \<longrightarrow> read_fault s' path = None \<longrightarrow>
      load_or_create_secret s' random' path fs' = (fs', Ok sec))"
proof -
  have "\<exists>n. random = take n random" by (metis take_all_iff order_refl)
  then have "(\<forall>f. fs path = Some f \<longrightarrow> fs' = fs \<and> (read_fault s path = None \<longrightarrow> r = Ok (f_bytes f))) \<and>
    (fs path = None \<longrightarrow> (\<forall>f. fs' path = Some f \<longrightarrow> f_mode f = 384 \<and> (\<exists>n. f_bytes f = take n random)) \<and>
      (\<forall>sec. r = Ok sec \<longrightarrow> sec = random)) \<and> (\<forall>q. q \<noteq> path \<longrightarrow> fs' q = fs q)"
    using assms(1) by (cases rule: load_or_create_secret_cases [OF assms]) auto
  moreover have "\<forall>sec s' random'. r = Ok sec \<longrightarrow> read_fault s' path = None \<longrightarrow>
      load_or_create_secret s' random' path fs' = (fs', Ok sec)"
    using read_secret_again assms by blast
  ultimately show ?thesis by (elim conjE) (intro conjI)
qed

corollary secret_lifecycle_witness:
  "\<exists>fs'. load_or_create_secret calm_os [1, 2, 3] (lit ''jwt.secret'') Map.empty = (fs', Ok [1, 2, 3]) \<and>
    load_or_create_secret calm_os [9] (lit ''jwt.secret'') fs' = (fs', Ok [1, 2, 3])"
proof -
  have first: "load_or_create_secret calm_os [1, 2, 3] p Map.empty =
      ([p \<mapsto> \<lparr>f_bytes = [1, 2, 3], f_mode = 384\<rparr>], Ok [1, 2, 3])" for p
    by (simp add: load_or_create_secret_def write_private_def write_all_def calm_os_def)
  have "read_fault calm_os p = None" for p by (simp add: calm_os_def)
  then show ?thesis using secret_lifecycle [OF first] first by blast
qed

text \<open>
  A write that stops after \<open>n\<close> bytes fails that start, and leaves a short secret, down to an empty
  one, that every later start takes as it is.
\<close>

lemma cut_secret_accepted:
  assumes "read_fault s path = None" and "write_fault s path = None" and "fs path = None"
    and "cut_fault s path = Some (n, e)" and "read_fault s' path = None"
  shows "\<exists>fs'. load_or_create_secret s random path fs = (fs', Err (SecretErr path e)) \<and>
    load_or_create_secret s' random' path fs' = (fs', Ok (take n random))"
  using assms by (simp add: load_or_create_secret_def write_private_def write_all_def)

section \<open>The certificate\<close>

lemma hex2_digits: "b < 256 \<Longrightarrow> set (hex2 b) \<subseteq> {48..57} \<union> {97..102}"
  by (auto simp: hex2_def hex_digit_def split: if_splits)

lemma hex2_concat_length: "length (concat (map hex2 bs)) = 2 * length bs"
  by (induction bs) (simp_all add: hex2_def)

lemma hex2_append_eq: "hex2 a @ xs = hex2 b @ ys \<longleftrightarrow> hex2 a = hex2 b \<and> xs = ys"
  by (simp add: hex2_def)

lemma hex2_concat_inj:
  "\<forall>b\<in>set as. b < 256 \<Longrightarrow> \<forall>b\<in>set bs. b < 256 \<Longrightarrow>
     concat (map hex2 as) = concat (map hex2 bs) \<Longrightarrow> as = bs"
proof (induction as arbitrary: bs)
  case (Cons a as)
  then obtain b bs' where bs: "bs = b # bs'" by (cases bs) (simp_all add: hex2_def)
  with Cons.prems have "hex2 a @ concat (map hex2 as) = hex2 b @ concat (map hex2 bs')" by simp
  then have "hex2 a = hex2 b" "concat (map hex2 as) = concat (map hex2 bs')"
    by (simp_all only: hex2_append_eq)
  moreover have "a < 256" "b < 256" "\<forall>b\<in>set as. b < 256" "\<forall>b\<in>set bs'. b < 256"
    using Cons.prems bs by simp_all
  ultimately have "a = b" "as = bs'" using hex2_eq Cons.IH by blast+
  then show ?case using bs by simp
qed (simp add: hex2_def concat_eq_Nil_conv)

text \<open>The fingerprint of a PEM file, when it has one.\<close>

lemma fingerprint_Ok:
  "fingerprint s L p fs = Ok fp \<longleftrightarrow> (\<exists>f der. read_fault s p = None \<and> fs p = Some f \<and>
     tl_pem_parse L (f_bytes f) = Inr der \<and> fp = concat (map hex2 (tl_sha256 L der)))"
  by (auto simp: fingerprint_def res_simps fs_read_def split: option.splits)

text \<open>A certificate once loaded is loaded again, and nothing is written, whatever has become of the
  files beside it.\<close>

lemma load_or_create_again:
  assumes "load_or_create s mkdir L random d fs = (fs', Ok c)"
    and "fs'' (cert_file d) = fs' (cert_file d)" and "fs'' (key_file d) = fs' (key_file d)"
    and "\<not> stat_fault s' (cert_file d)" "\<not> stat_fault s' (key_file d)" "read_fault s' (cert_file d) = None"
  shows "load_or_create s' mkdir' L random' d fs'' = (fs'', Ok c)"
proof -
  note ends = load_or_create_ok [OF assms(1)]
  have "is_file s' (cert_file d) fs''" "is_file s' (key_file d) fs''"
      "fingerprint s' L (cert_file d) fs'' = Ok (sv_fingerprint c)"
    using ends(3-5) assms(2-6) by (auto simp: is_file_def fingerprint_Ok)
  then show ?thesis using ends(1,2) by (simp add: load_or_create_def)
qed

text \<open>C17: The fingerprint to pin: 64 lower-case hexadecimal digits that determine the SHA-256 of the
  certificate served. Once a start has it, every later start over the same files reports the same
  certificate and writes nothing; when either half of the pair was missing both halves come from
  one new key, and a key file made here is readable by its owner alone.\<close>

theorem certificate_pinned:
  assumes "load_or_create s mkdir L random d fs = (fs', Ok c)" and "sha256_ok L"
  shows "length (sv_fingerprint c) = 64 \<and> set (sv_fingerprint c) \<subseteq> {48..57} \<union> {97..102} \<and>
    (\<exists>f der. fs' (cert_file d) = Some f \<and> tl_pem_parse L (f_bytes f) = Inr der \<and>
       (\<forall>der'. concat (map hex2 (tl_sha256 L der')) = sv_fingerprint c \<longleftrightarrow> tl_sha256 L der' = tl_sha256 L der)) \<and>
    (\<forall>s' mkdir' random'. \<not> stat_fault s' (cert_file d) \<longrightarrow> \<not> stat_fault s' (key_file d) \<longrightarrow>
       read_fault s' (cert_file d) = None \<longrightarrow> load_or_create s' mkdir' L random' d fs' = (fs', Ok c)) \<and>
    (\<forall>q. q \<noteq> cert_file d \<longrightarrow> q \<noteq> key_file d \<longrightarrow> fs' q = fs q) \<and>
    (fs (cert_file d) = None \<or> fs (key_file d) = None \<longrightarrow>
       (\<exists>key params cert cf kf. tl_key_pair L random = Inr key \<and>
          tl_params L [SERVER_NAME] = Inr params \<and> tl_self_signed L params key = Inr cert \<and>
          fs' (cert_file d) = Some cf \<and> f_bytes cf = as_bytes (tl_cert_pem L cert) \<and>
          fs' (key_file d) = Some kf \<and> f_bytes kf = as_bytes (tl_key_pem L key) \<and>
          (fs (key_file d) = None \<longrightarrow> f_mode kf = 384)))"
    (is "?length \<and> ?digits \<and> ?digest \<and> ?kept \<and> ?others \<and> ?pair")
proof -
  note ends = load_or_create_ok [OF assms(1)]
  obtain f der where fp: "fs' (cert_file d) = Some f" "tl_pem_parse L (f_bytes f) = Inr der"
      "sv_fingerprint c = concat (map hex2 (tl_sha256 L der))"
    using ends(3) by (auto simp: fingerprint_Ok)
  have dig: "length (tl_sha256 L x) = 32" "\<forall>b\<in>set (tl_sha256 L x). b < 256" for x
    using assms(2) by (simp_all add: sha256_ok_def)
  have ?length by (simp add: fp(3) hex2_concat_length dig(1))
  moreover have ?digits using hex2_digits dig(2) by (fastforce simp: fp(3))
  moreover have ?digest using fp dig(2) hex2_concat_inj by auto
  moreover have ?kept using load_or_create_again [OF assms(1) refl refl] by blast
  moreover have ?others
    using ends(6,7) generate_other by metis
  moreover have ?pair
  proof
    assume "fs (cert_file d) = None \<or> fs (key_file d) = None"
    then have "generate s mkdir L random d (cert_file d) (key_file d) fs = (fs', Ok ())"
      using ends(7) by (auto simp: is_file_def)
    from generate_ok [OF this cert_file_neq_key_file(1)] obtain key params cert where
        lib: "tl_key_pair L random = Inr key" "tl_params L [SERVER_NAME] = Inr params" "tl_self_signed L params key = Inr cert"
      and fs': "fs' = fs(cert_file d \<mapsto> \<lparr>f_bytes = as_bytes (tl_cert_pem L cert),
            f_mode = (case fs (cert_file d) of Some f \<Rightarrow> f_mode f | None \<Rightarrow> 420)\<rparr>,
          key_file d \<mapsto> \<lparr>f_bytes = as_bytes (tl_key_pem L key),
            f_mode = (case fs (key_file d) of Some f \<Rightarrow> f_mode f | None \<Rightarrow> 384)\<rparr>)"
      by blast
    show "\<exists>key params cert cf kf. tl_key_pair L random = Inr key \<and> tl_params L [SERVER_NAME] = Inr params \<and>
          tl_self_signed L params key = Inr cert \<and>
          fs' (cert_file d) = Some cf \<and> f_bytes cf = as_bytes (tl_cert_pem L cert) \<and>
          fs' (key_file d) = Some kf \<and> f_bytes kf = as_bytes (tl_key_pem L key) \<and>
          (fs (key_file d) = None \<longrightarrow> f_mode kf = 384)"
      by (rule exI [of _ key], rule exI [of _ params], rule exI [of _ cert]) (simp add: lib fs')
  qed
  ultimately show ?thesis by blast
qed

text \<open>A library whose certificates are the key's bytes in PEM dress and whose digest pads to 32 bytes.\<close>

definition demo_tls :: "(nat list, rstr list, rstr) tls_lib" where
  "demo_tls = \<lparr>tl_key_pair = (\<lambda>r. Inr r), tl_params = (\<lambda>ns. Inr ns),
     tl_self_signed = (\<lambda>ns k. Inr (concat ns @ k)), tl_cert_pem = (\<lambda>c. c), tl_key_pem = (\<lambda>k. k),
     tl_pem_parse = (\<lambda>t. Inr t), tl_sha256 = (\<lambda>bs. map (\<lambda>b. b mod 256) (take 32 (bs @ replicate 32 0)))\<rparr>"

lemma demo_sha256_ok: "sha256_ok demo_tls"
  by (auto simp: sha256_ok_def demo_tls_def dest!: in_set_takeD)

corollary certificate_pinned_witness:
  "\<exists>fs' c. load_or_create calm_os (\<lambda>_. None) demo_tls [1, 2] (lit ''data'') Map.empty = (fs', Ok c) \<and>
    length (sv_fingerprint c) = 64 \<and>
    load_or_create calm_os (\<lambda>_. None) demo_tls [3] (lit ''data'') fs' = (fs', Ok c)"
proof -
  let ?d = "lit ''data''"
  let ?fs = "[cert_file ?d \<mapsto> \<lparr>f_bytes = as_bytes (SERVER_NAME @ [1, 2]), f_mode = 420\<rparr>,
    key_file ?d \<mapsto> \<lparr>f_bytes = as_bytes [1, 2], f_mode = 384\<rparr>]"
  have gen: "generate calm_os (\<lambda>_. None) demo_tls [1, 2] ?d (cert_file ?d) (key_file ?d) Map.empty = (?fs, Ok ())"
    by (simp add: generate_def demo_tls_def calm_os_def cert_write_def fs_replace_def write_all_def cert_result_def
        del: lit_simps as_bytes_Cons)
  have "\<exists>fp. fingerprint calm_os demo_tls (cert_file ?d) ?fs = Ok fp"
    by (simp add: fingerprint_Ok calm_os_def demo_tls_def del: lit_simps as_bytes_Cons)
  then obtain c where first: "load_or_create calm_os (\<lambda>_. None) demo_tls [1, 2] ?d Map.empty = (?fs, Ok c)"
    using gen by (auto simp: load_or_create_def is_file_def Let_def simp del: lit_simps as_bytes_Cons)
  have "\<not> stat_fault calm_os p" "read_fault calm_os p = None" for p by (simp_all add: calm_os_def)
  note calm = this and pinned = certificate_pinned [OF first demo_sha256_ok]
  have "length (sv_fingerprint c) = 64" by (rule pinned [THEN conjunct1])
  moreover have "load_or_create calm_os (\<lambda>_. None) demo_tls [3] ?d ?fs = (?fs, Ok c)"
    by (rule pinned [THEN conjunct2, THEN conjunct2, THEN conjunct2, THEN conjunct1, rule_format]) (rule calm)+
  ultimately show ?thesis using first by blast
qed

text \<open>A key whose writing stopped half-way passes for a key from the next start on.\<close>

lemma cut_key_kept:
  assumes "\<not> stat_fault s c" "\<not> stat_fault s k" "read_fault s c = None"
    and "c = cert_file d" "k = key_file d" "fs c = Some cf" "fs k = Some \<lparr>f_bytes = take n key, f_mode = m\<rparr>"
    and "tl_pem_parse L (f_bytes cf) = Inr der"
  shows "\<exists>cert. load_or_create s mkdir L random d fs = (fs, Ok cert)"
proof -
  have "fingerprint s L c fs = Ok (concat (map hex2 (tl_sha256 L der)))"
    using assms(3,6,8) by (simp add: fingerprint_Ok)
  then show ?thesis using assms(1,2,4-7) by (simp add: load_or_create_def is_file_def)
qed

section \<open>Starting and restarting\<close>

lemma server_state_Ok:
  assumes "server_state e cfg h = (h', Ok st)"
  shows "\<exists>secret. sqlite_new (se_open e) (se_env e) (config_database cfg) (ho_disk h) = (ho_disk h', Ok ()) \<and>
    load_or_create_secret (se_os e) (se_random e) (config_jwt_secret cfg) (ho_files h) = (ho_files h', Ok secret) \<and>
    st = \<lparr>as_store = sqlite_store (config_caps cfg), as_tokens = tokens_new secret (token_validity cfg), as_config = cfg\<rparr>"
  using assms by (auto simp: server_state_def res_simps Let_def split: prod.splits result.splits)

lemma authenticated_secret:
  "tok_secret tk = tok_secret tk' \<Longrightarrow> authenticated dp tk clk header = authenticated dp tk' clk header"
  by (auto simp: authenticated_def verify_def split: option.split)


definition calm_start :: start_env where
  "calm_start = \<lparr>se_open = \<lparr>dir_fault = \<lambda>_. None, remove_fault = \<lambda>_. None, db_fault = \<lambda>_. None\<rparr>,
     se_env = calm_env 5000000, se_os = calm_os, se_random = [7]\<rparr>"

lemma demo_reseeded: "\<exists>r. create_room (calm_env 5000000) (2 ^ 32 - 1) LOBBY demo_db = (demo_db, Ok r)"
  by (simp add: create_room_def create_room_insert_def create_room_fetch_def timestamp_column_def now_def calm_env_def
      sql_insert_room_def find_room_def demo_db_def LOBBY_def run_stmt_def room_of_row_def col_room_id_def col_seq_def
      from_column_def latest_seq_def to_column_def i64_max_eq)

definition demo_host :: host where
  "demo_host = \<lparr>ho_disk = [config_database demo_config \<mapsto> Database 1 demo_db],
     ho_files = [config_jwt_secret demo_config \<mapsto> \<lparr>f_bytes = [7], f_mode = 384\<rparr>]\<rparr>"

lemma demo_start:
  "server_state calm_start demo_config demo_host =
     (demo_host, Ok \<lparr>as_store = sqlite_store (config_caps demo_config),
        as_tokens = tokens_new [7] (token_validity demo_config), as_config = demo_config\<rparr>)"
proof -
  obtain r where "create_room (calm_env 5000000) (2 ^ 32 - 1) LOBBY demo_db = (demo_db, Ok r)"
    using demo_reseeded by blast
  then show ?thesis
    by (simp add: server_state_def sqlite_new_def stamped_version_def connect_def sqlite_setup_def SCHEMA_VERSION_def
        load_or_create_secret_def demo_host_def calm_start_def calm_os_def map_upd_triv)
qed


end
