(* ===== verification/Dev_Network.thy ===== *)
theory Dev_Network
  imports Server_Startup
begin

text \<open>
  The development network (crates/chat-dev/src/): its flags, its topology, the description it prints
  and serves, and starting it, with the chat server in it or without. The SCION simulator, the
  temporary-directory crate and the token mint are the argument \<open>dev_lib\<close>; the server is started
  with the operations of \<open>Server_Startup\<close> over the argument \<open>net_lib\<close>.
\<close>

section \<open>Flags (config.rs)\<close>

record dev_config =
  dc_control_port :: u16
  dc_bind_ip :: ip_addr
  dc_emulator_ip :: ip_addr
  dc_server_port :: u16
  dc_data_dir :: "rstr option"
  dc_no_server :: bool

section \<open>The description (info.rs)\<close>

datatype server_kind = Embedded | External

record dev_network =
  dn_control_url :: rstr
  dn_underlay :: rstr
  dn_server :: server_kind
  dn_endhost_api_url :: rstr
  dn_server_endhost_api_url :: rstr
  dn_client_isd_as :: rstr
  dn_auth_token :: rstr
  dn_auth_token_file :: rstr
  dn_base_url :: rstr
  dn_target :: rstr
  dn_ca_pem :: rstr
  dn_ca_path :: rstr
  dn_ca_fingerprint :: rstr
  dn_data_dir :: rstr
  dn_chat_server_args :: "rstr list"

definition chat_server_args :: "rstr \<Rightarrow> rstr \<Rightarrow> rstr \<Rightarrow> rstr \<Rightarrow> rstr list" where
  "chat_server_args listen data_dir endhost_api auth_token_file =
     [lit ''--transport'', lit ''scion'', lit ''--listen'', listen, lit ''--data-dir'', data_dir,
      lit ''--endhost-api'', endhost_api, lit ''--auth-token-file'', auth_token_file]"

section \<open>The topology (topology.rs)\<close>

text \<open>A link joins two ASes, each at an interface of its own.\<close>

record 'ia core_link =
  ln_from :: 'ia
  ln_from_if :: nat
  ln_to :: 'ia
  ln_to_if :: nat

record 'ia topo =
  tp_core :: "'ia list"
  tp_links :: "'ia core_link list"

record 'ia io_config =
  io_bind_ip :: ip_addr
  io_advertised :: "('ia \<times> ip_addr) list"

text \<open>What the simulator is started with: an endhost API per AS, and a SNAP endpoint per AS.\<close>

record 'ia ps_state =
  ps_topology :: "'ia topo"
  ps_endhost_apis :: "'ia list"
  ps_snaps :: "'ia list"

record 'ia dev_lib =
  dl_default :: 'ia
  dl_server :: 'ia
  dl_emulator :: 'ia
  dl_show_ia :: "'ia \<Rightarrow> rstr"
  dl_start :: "'ia ps_state \<Rightarrow> 'ia io_config \<Rightarrow> 'ia \<Rightarrow> rstr option"
  dl_token :: "nat \<Rightarrow> rstr"
  dl_temp_dir :: "rstr + rstr"
  dl_control_bind :: "sock_addr \<Rightarrow> rstr option"
  dl_control_addr :: "sock_addr option"
  dl_show_host :: "'ia scion_addr \<Rightarrow> rstr"
  dl_header_to_str :: "nat list \<Rightarrow> rstr option"

definition topology_definition :: "'ia dev_lib \<Rightarrow> 'ia topo" where
  "topology_definition D =
     \<lparr>tp_core = [dl_server D, dl_default D, dl_emulator D],
      tp_links = [\<lparr>ln_from = dl_default D, ln_from_if = 1, ln_to = dl_server D, ln_to_if = 3\<rparr>,
                  \<lparr>ln_from = dl_emulator D, ln_from_if = 2, ln_to = dl_server D, ln_to_if = 4\<rparr>]\<rparr>"

definition topology_start :: "'ia dev_lib \<Rightarrow> 'ia io_config \<Rightarrow> 'ia \<Rightarrow> rstr option" where
  "topology_start D io =
     dl_start D \<lparr>ps_topology = topology_definition D,
       ps_endhost_apis = [dl_default D, dl_server D, dl_emulator D],
       ps_snaps = [dl_default D, dl_server D, dl_emulator D]\<rparr> io"

section \<open>Starting (lib.rs)\<close>

datatype dev_error =
    DevIo string rstr rstr | NoEndhostApi rstr | WildcardBind ip_addr
  | DevCert cert_error | DevServer run_error

record profiles =
  pf_default :: dev_network
  pf_emulator :: dev_network
  pf_emulator_ip :: ip_addr

text \<open>The description for the address in the \<open>Host\<close> header.\<close>

definition asked_at :: "'ia dev_lib \<Rightarrow> nat list option \<Rightarrow> ip_addr option" where
  "asked_at D host =
     (case host of None \<Rightarrow> None
      | Some bytes \<Rightarrow>
          (case dl_header_to_str D bytes of None \<Rightarrow> None
           | Some h \<Rightarrow>
               (let name = (case rsplit_once (\<lambda>c. c = 58) h of None \<Rightarrow> h | Some (name, _) \<Rightarrow> name)
                in parse_ip (trim_by (\<lambda>c. c = 91 \<or> c = 93) name))))"

definition for_host :: "'ia dev_lib \<Rightarrow> profiles \<Rightarrow> nat list option \<Rightarrow> dev_network" where
  "for_host D p host = (if asked_at D host = Some (pf_emulator_ip p) then pf_emulator p else pf_default p)"

text \<open>\<open>GET /info\<close>: the description, with the token minted for this read.\<close>

definition info_get :: "'ia dev_lib \<Rightarrow> profiles \<Rightarrow> nat \<Rightarrow> nat list option \<Rightarrow> dev_network" where
  "info_get D p k host = (for_host D p host)\<lparr>dn_auth_token := dl_token D k\<rparr>"

definition dev_data_dir ::
  "'ia dev_lib \<Rightarrow> (rstr \<Rightarrow> rstr option) \<Rightarrow> dev_config \<Rightarrow> (dev_error, rstr) result" where
  "dev_data_dir D mkdir cfg =
     (case dc_data_dir cfg of
        Some named \<Rightarrow>
          (case mkdir named of Some e \<Rightarrow> Err (DevIo ''creating the data directory'' named e) | None \<Rightarrow> Ok named)
      | None \<Rightarrow>
          (case dl_temp_dir D of
             Inl e \<Rightarrow> Err (DevIo ''creating a temporary data directory'' (lit ''a temporary directory'') e)
           | Inr made \<Rightarrow> Ok made))"

definition dev_endhost_api :: "'ia dev_lib \<Rightarrow> rstr option \<Rightarrow> 'ia \<Rightarrow> (dev_error, rstr) result" where
  "dev_endhost_api D found isd_as =
     (case found of Some url \<Rightarrow> Ok url | None \<Rightarrow> Err (NoEndhostApi (dl_show_ia D isd_as)))"

definition dev_local_addr :: "'ia dev_lib \<Rightarrow> sock_addr" where
  "dev_local_addr D =
     (case dl_control_addr D of Some a \<Rightarrow> a | None \<Rightarrow> \<lparr>sa_ip = V4 127 0 0 1, sa_port = 0\<rparr>)"

definition dev_write :: "os \<Rightarrow> rstr \<Rightarrow> rstr \<Rightarrow> files \<Rightarrow> files \<times> (dev_error, unit) result" where
  "dev_write s path contents fs =
     (let (fs', r) = fs_replace s path (as_bytes contents) 438 fs in (fs', map_err (DevIo ''writing'' path) r))"

definition dev_read :: "os \<Rightarrow> rstr \<Rightarrow> files \<Rightarrow> (dev_error, rstr) result" where
  "dev_read s path fs =
     (case fs_read_to_string s path fs of Inl e \<Rightarrow> Err (DevIo ''reading'' path e) | Inr t \<Rightarrow> Ok t)"

text \<open>The configuration the embedded server runs with.\<close>

definition embedded_config :: "rstr \<Rightarrow> sock_addr \<Rightarrow> rstr \<Rightarrow> rstr \<Rightarrow> config" where
  "embedded_config data_dir listen endhost_api auth_token_file =
     \<lparr>cfg_transport = Scion, cfg_listen = listen, cfg_data_dir = data_dir, cfg_max_accounts = 500,
      cfg_max_rooms = 100, cfg_max_message_bytes = 4096, cfg_token_expiry_days = 7,
      cfg_endhost_api = Some endhost_api, cfg_auth_token_file = Some auth_token_file,
      cfg_auth_api_key_file = None, cfg_aa_url = ANAPAYA_AA\<rparr>"

text \<open>
  \<open>start_server\<close>: the address that reaches it, and what the spawned task goes on to serve.
\<close>

definition start_server ::
  "'ia dev_lib \<Rightarrow> ('url, 'src, 'st, 'ia, 'so, 'q) net_lib \<Rightarrow> start_env \<Rightarrow> config \<Rightarrow> host
     \<Rightarrow> host \<times> (run_error, (rstr \<times> u16) \<times> 'so \<times> db app_state) result" where
  "start_server D N e cfg h =
     (case bind_res (build_stack N (se_os e) (ho_files h) cfg) (\<lambda>stack. scion_bind N stack cfg) of
        Err x \<Rightarrow> (h, Err x)
      | Panic p \<Rightarrow> (h, Panic p)
      | Ok socket \<Rightarrow>
          (let addr = nl_local_addr N socket; (h', st) = server_state e cfg h
           in (h', map_res (\<lambda>st. ((dl_show_host D addr, sn_port addr), socket, st)) st)))"

record 'so dev_setup =
  ds_profiles :: profiles
  ds_serving :: "('so \<times> config \<times> db app_state) option"

text \<open>The two descriptions, once everything they name is known.\<close>

definition describe ::
  "'ia dev_lib \<Rightarrow> dev_config \<Rightarrow> rstr \<Rightarrow> rstr \<Rightarrow> server_cert \<Rightarrow> rstr \<Rightarrow> rstr \<Rightarrow> rstr \<Rightarrow> rstr \<Rightarrow> rstr \<Rightarrow> u16 \<Rightarrow> profiles" where
  "describe D cfg data_dir auth_token_file certificate ca_pem client_api emulator_api server_api target port =
     (let default = \<lparr>dn_control_url = lit ''http://'' @ show_sock (dev_local_addr D),
        dn_underlay = lit ''snap'', dn_server = (if dc_no_server cfg then External else Embedded),
        dn_endhost_api_url = client_api, dn_server_endhost_api_url = server_api,
        dn_client_isd_as = dl_show_ia D (dl_default D), dn_auth_token = dl_token D 1,
        dn_auth_token_file = auth_token_file,
        dn_base_url = lit ''https://'' @ SERVER_NAME @ lit '':'' @ dec (unat port),
        dn_target = target, dn_ca_pem = ca_pem, dn_ca_path = sv_cert_path certificate,
        dn_ca_fingerprint = sv_fingerprint certificate, dn_data_dir = data_dir,
        dn_chat_server_args = chat_server_args (show_sock \<lparr>sa_ip = dc_bind_ip cfg, sa_port = port\<rparr>)
          data_dir server_api auth_token_file\<rparr>
      in \<lparr>pf_default = default,
          pf_emulator = default\<lparr>dn_control_url := lit ''http://'' @ show_ip (dc_emulator_ip cfg) @ lit '':'' @
              dec (unat (sa_port (dev_local_addr D))),
            dn_endhost_api_url := emulator_api, dn_client_isd_as := dl_show_ia D (dl_emulator D)\<rparr>,
          pf_emulator_ip = dc_emulator_ip cfg\<rparr>)"

definition token_file :: "rstr \<Rightarrow> rstr" where
  "token_file data_dir = path_join data_dir (lit ''snap.token'')"

text \<open>What a description needs of the certificate and of the network that runs.\<close>

definition dev_known ::
  "'ia dev_lib \<Rightarrow> os \<Rightarrow> ('ia \<Rightarrow> rstr option) \<Rightarrow> (cert_error, server_cert) result \<Rightarrow> files
     \<Rightarrow> (dev_error, server_cert \<times> rstr \<times> rstr \<times> rstr \<times> rstr) result" where
  "dev_known D s network made fs =
     bind_res (map_err DevCert made) (\<lambda>certificate.
     bind_res (dev_read s (sv_cert_path certificate) fs) (\<lambda>ca_pem.
     bind_res (dev_endhost_api D (network (dl_default D)) (dl_default D)) (\<lambda>client_api.
     bind_res (dev_endhost_api D (network (dl_emulator D)) (dl_emulator D)) (\<lambda>emulator_api.
     bind_res (dev_endhost_api D (network (dl_server D)) (dl_server D)) (\<lambda>server_api.
       Ok (certificate, ca_pem, client_api, emulator_api, server_api))))))"

lemma dev_endhost_api_Ok [res_simps]: "dev_endhost_api D found ia = Ok url \<longleftrightarrow> found = Some url"
  by (auto simp: dev_endhost_api_def split: option.splits)

lemma dev_read_Ok [res_simps]: "dev_read s p fs = Ok t \<longleftrightarrow> fs_read_to_string s p fs = Inr t"
  by (auto simp: dev_read_def split: sum.splits)

lemma dev_known_Ok [res_simps]:
  "dev_known D s network made fs = Ok (c, pem, capi, eapi, sapi) \<longleftrightarrow>
     made = Ok c \<and> fs_read_to_string s (sv_cert_path c) fs = Inr pem \<and> network (dl_default D) = Some capi \<and>
     network (dl_emulator D) = Some eapi \<and> network (dl_server D) = Some sapi"
  by (auto simp: dev_known_def res_simps)

text \<open>\<open>DevSetup::start\<close> from the data directory on, with the network running.\<close>

definition dev_start_in ::
  "'ia dev_lib \<Rightarrow> ('url, 'src, 'st, 'ia, 'so, 'q) net_lib \<Rightarrow> ('k, 'p, 'c) tls_lib \<Rightarrow> start_env \<Rightarrow> dev_config
     \<Rightarrow> ('ia \<Rightarrow> rstr option) \<Rightarrow> rstr \<Rightarrow> host \<Rightarrow> host \<times> (dev_error, 'so dev_setup) result" where
  "dev_start_in D N L e cfg network data_dir h =
     (let s = se_os e; tf = token_file data_dir;
          (fs1, written) = dev_write s tf (dl_token D 0) (ho_files h) in
      case written of Err x \<Rightarrow> (h\<lparr>ho_files := fs1\<rparr>, Err x) | Panic p \<Rightarrow> (h\<lparr>ho_files := fs1\<rparr>, Panic p)
      | Ok _ \<Rightarrow>
     (let (fs2, made) = load_or_create s (dir_fault (se_open e)) L (se_random e) data_dir fs1;
          h2 = h\<lparr>ho_files := fs2\<rparr>;
          known = dev_known D s network made fs2
      in case known of Err x \<Rightarrow> (h2, Err x) | Panic p \<Rightarrow> (h2, Panic p)
      | Ok (certificate, ca_pem, client_api, emulator_api, server_api) \<Rightarrow>
          (let listen = \<lparr>sa_ip = dc_bind_ip cfg, sa_port = dc_server_port cfg\<rparr>;
               scfg = embedded_config data_dir listen server_api tf in
           if dc_no_server cfg then
             (h2, Ok \<lparr>ds_profiles = describe D cfg data_dir tf certificate ca_pem client_api emulator_api server_api
                        (dl_show_ia D (dl_server D) @ lit '','' @ show_ip (sa_ip listen)) (sa_port listen),
                      ds_serving = None\<rparr>)
           else
             (let (h3, served) = start_server D N e scfg h2
              in (h3, map_res (\<lambda>((target, port), socket, st).
                    \<lparr>ds_profiles = describe D cfg data_dir tf certificate ca_pem client_api emulator_api server_api target port,
                     ds_serving = Some (socket, scfg, st)\<rparr>) (map_err DevServer served))))))"

definition dev_start ::
  "'ia dev_lib \<Rightarrow> ('url, 'src, 'st, 'ia, 'so, 'q) net_lib \<Rightarrow> ('k, 'p, 'c) tls_lib \<Rightarrow> start_env \<Rightarrow> dev_config
     \<Rightarrow> host \<Rightarrow> host \<times> (dev_error, 'so dev_setup) result" where
  "dev_start D N L e cfg h =
     (if is_unspecified (dc_bind_ip cfg) then (h, Err (WildcardBind (dc_bind_ip cfg)))
      else case dl_control_bind D \<lparr>sa_ip = dc_bind_ip cfg, sa_port = dc_control_port cfg\<rparr> of
        Some source \<Rightarrow>
          (h, Err (DevIo ''binding the control API on''
             (show_ip (dc_bind_ip cfg) @ lit '':'' @ dec (unat (dc_control_port cfg))) source))
      | None \<Rightarrow>
          (let network = topology_start D
             \<lparr>io_bind_ip = dc_bind_ip cfg, io_advertised = [(dl_emulator D, dc_emulator_ip cfg)]\<rparr>
           in case dev_data_dir D (dir_fault (se_open e)) cfg of
                Err x \<Rightarrow> (h, Err x)
              | Panic p \<Rightarrow> (h, Panic p)
              | Ok data_dir \<Rightarrow> dev_start_in D N L e cfg network data_dir h))"

section \<open>The summary (main.rs)\<close>

definition summarise :: "dev_network \<Rightarrow> rstr list" where
  "summarise n =
     [[], lit ''  a SCION network is up, and it is described at'',
      lit ''    '' @ dn_control_url n @ lit ''/info'', []] @
     (case dn_server n of
        Embedded \<Rightarrow>
          [lit ''  the chat server is in this process, at '' @ dn_target n,
           lit ''  reach it with'', [],
           lit ''    cargo run -p chat-ui-ratatui -- '' @ [92],
           lit ''      --transport scion '' @ [92],
           lit ''      --server-url '' @ dn_base_url n @ lit '' '' @ [92],
           lit ''      --endhost-api '' @ dn_endhost_api_url n @ lit '' '' @ [92],
           lit ''      --target '' @ dn_target n @ lit '' '' @ [92],
           lit ''      --cert-path '' @ dn_ca_path n @ lit '' '' @ [92],
           lit ''      --snap-token \"$(curl -s '' @ dn_control_url n @ lit ''/info | jq -r .auth_token)\"'', []]
      | External \<Rightarrow>
          [lit ''  the chat server is yours to start:'', [],
           lit ''    cargo run -p chat-server -- '' @ join_with (lit '' '') (dn_chat_server_args n), []]) @
     [lit ''  Ctrl+C to stop. The network goes with it.'', []]"

end
