(* ===== verification/Dev_Properties.thy ===== *)
theory Dev_Properties
  imports Dev_Network Startup_Properties
begin

text \<open>
  What the development network promises: the description it serves is the one for the address it was
  asked at, and what it describes is what it started.
\<close>

section \<open>Which description is served\<close>

text \<open>Documented behaviour: a header value of visible ASCII reads as that text.\<close>

definition header_text_ok :: "'ia dev_lib \<Rightarrow> bool" where
  "header_text_ok D \<longleftrightarrow> (\<forall>s. list_all is_ascii_graphic s \<longrightarrow> dl_header_to_str D (as_bytes s) = Some s)"

lemma rsplit_once_append:
  "\<forall>x\<in>set b. \<not> P x \<Longrightarrow> P c \<Longrightarrow> rsplit_once P (a @ c # b) = Some (a, b)"
  using split_once_append [of "rev b" P c "rev a"] by (simp add: rsplit_once_def)

lemma rsplit_once_none: "\<forall>x\<in>set a. \<not> P x \<Longrightarrow> rsplit_once P a = None"
  by (simp add: rsplit_once_def split_once_None)

lemma show_v4_chars:
  "x \<in> set (show_v4 a b c d) \<Longrightarrow> 46 \<le> x \<and> x \<le> 57 \<and> x \<noteq> 47"
  using dec_digits by (fastforce simp: show_v4_def)

lemma show_v4_nonempty [simp]: "show_v4 a b c d \<noteq> []"
  by (simp add: show_v4_def)

lemma trim_brackets_v4:
  "trim_by (\<lambda>c. c = 91 \<or> c = 93) (show_v4 a b c d) = show_v4 a b c d"
proof (rule trim_by_id)
  have "x \<noteq> 91 \<and> x \<noteq> 93" if "x \<in> set (show_v4 a b c d)" for x using show_v4_chars [OF that] by simp
  then show "show_v4 a b c d = [] \<or>
    \<not> (hd (show_v4 a b c d) = 91 \<or> hd (show_v4 a b c d) = 93) \<and>
    \<not> (last (show_v4 a b c d) = 91 \<or> last (show_v4 a b c d) = 93)"
    using hd_in_set last_in_set show_v4_nonempty by metis
qed

lemma dec_graphic: "list_all is_ascii_graphic (dec n)"
  using dec_digits by (fastforce simp: list_all_iff is_ascii_graphic_def)

lemma show_v4_graphic: "list_all is_ascii_graphic (show_v4 a b c d)"
  using show_v4_chars by (fastforce simp: list_all_iff is_ascii_graphic_def)

lemma asked_at_v4:
  assumes "header_text_ok D" and "ip = V4 a b c d"
  shows "asked_at D (Some (as_bytes (show_ip ip))) = Some ip"
    and "asked_at D (Some (as_bytes (show_ip ip @ lit '':'' @ dec p))) = Some ip"
proof -
  have "\<forall>x\<in>set (show_v4 a b c d). x \<noteq> 58" using show_v4_chars by fastforce
  then have none: "rsplit_once (\<lambda>x. x = 58) (show_v4 a b c d) = None" by (intro rsplit_once_none) blast
  have "dl_header_to_str D (as_bytes (show_v4 a b c d)) = Some (show_v4 a b c d)"
    using assms(1) show_v4_graphic by (simp add: header_text_ok_def)
  then show "asked_at D (Some (as_bytes (show_ip ip))) = Some ip"
    using none parse_show_v4 [of a b c d] by (simp add: asked_at_def assms(2) trim_brackets_v4)
  have "\<forall>x\<in>set (dec p). x \<noteq> 58" using dec_digits by fastforce
  then have some: "rsplit_once (\<lambda>x. x = 58) (show_v4 a b c d @ 58 # dec p) = Some (show_v4 a b c d, dec p)"
    by (intro rsplit_once_append) blast+
  have "list_all is_ascii_graphic (show_v4 a b c d @ 58 # dec p)"
    using show_v4_graphic dec_graphic by (simp add: is_ascii_graphic_def)
  then have "dl_header_to_str D (as_bytes (show_v4 a b c d @ 58 # dec p)) = Some (show_v4 a b c d @ 58 # dec p)"
    using assms(1) by (simp only: header_text_ok_def)
  then show "asked_at D (Some (as_bytes (show_ip ip @ lit '':'' @ dec p))) = Some ip"
    using some parse_show_v4 [of a b c d] by (simp add: asked_at_def assms(2) trim_brackets_v4)
qed

text \<open>A client that asks at an IPv4 address, with or without a port, gets the emulator's description
  exactly when that is the emulator's address; one whose \<open>Host\<close> names no address gets the default.
  The control URL of either description leads back to it, and each read carries its own token and
  nothing else of it changes.\<close>

lemma info_for_host:
  assumes "header_text_ok D" and "dc_emulator_ip cfg = V4 a b c d" and "sa_ip (dev_local_addr D) = V4 a' b' c' d'"
    and "p = describe D cfg dir tf cert pem capi eapi sapi target port"
  shows "for_host D p (Some (as_bytes (show_ip (V4 w x y z)))) =
      (if V4 w x y z = dc_emulator_ip cfg then pf_emulator p else pf_default p) \<and>
    for_host D p (Some (as_bytes (show_ip (V4 w x y z) @ lit '':'' @ dec n))) =
      (if V4 w x y z = dc_emulator_ip cfg then pf_emulator p else pf_default p) \<and>
    for_host D p None = pf_default p \<and>
    for_host D p (Some (as_bytes (drop 7 (dn_control_url (pf_emulator p))))) = pf_emulator p \<and>
    (sa_ip (dev_local_addr D) \<noteq> dc_emulator_ip cfg \<longrightarrow>
      for_host D p (Some (as_bytes (drop 7 (dn_control_url (pf_default p))))) = pf_default p) \<and>
    info_get D p k host = (for_host D p host)\<lparr>dn_auth_token := dl_token D k\<rparr>"
proof -
  note at = asked_at_v4 [OF assms(1) refl]
  have ip: "pf_emulator_ip p = dc_emulator_ip cfg" by (simp add: assms(4) describe_def Let_def)
  have urls: "drop 7 (dn_control_url (pf_emulator p)) =
        show_ip (dc_emulator_ip cfg) @ lit '':'' @ dec (unat (sa_port (dev_local_addr D)))"
      "drop 7 (dn_control_url (pf_default p)) =
        show_ip (V4 a' b' c' d') @ lit '':'' @ dec (unat (sa_port (dev_local_addr D)))"
    by (simp_all add: assms(3,4) describe_def Let_def show_sock_def)
  show ?thesis
    unfolding for_host_def info_get_def urls ip assms(2,3) at by (simp add: asked_at_def)
qed

definition demo_dev :: "nat dev_lib" where
  "demo_dev = \<lparr>dl_default = 132, dl_server = 212, dl_emulator = 222, dl_show_ia = dec,
     dl_start = (\<lambda>_ _ ia. Some (lit ''http://api/'' @ dec ia)), dl_token = (\<lambda>k. lit ''token'' @ dec k),
     dl_temp_dir = Inr (lit ''/tmp/dev''), dl_control_bind = (\<lambda>_. None),
     dl_control_addr = Some \<lparr>sa_ip = V4 127 0 0 1, sa_port = 8099\<rparr>, dl_show_host = (\<lambda>a. dec (sn_isd_asn a)),
     dl_header_to_str = (\<lambda>h. if list_all (\<lambda>b. 32 \<le> b \<and> b \<le> 126) h then Some h else None)\<rparr>"

lemma demo_header_text_ok: "header_text_ok demo_dev"
  unfolding header_text_ok_def
proof (intro allI impI)
  fix s assume s: "list_all is_ascii_graphic s"
  then have "as_bytes s = s" by (intro as_bytes_ascii) (auto simp: list_all_iff is_ascii_graphic_def)
  then show "dl_header_to_str demo_dev (as_bytes s) = Some s"
    using s by (auto simp: demo_dev_def list_all_iff is_ascii_graphic_def)
qed

definition demo_dev_config :: dev_config where
  "demo_dev_config = \<lparr>dc_control_port = 8099, dc_bind_ip = V4 127 0 0 1, dc_emulator_ip = V4 10 0 2 2,
     dc_server_port = 8443, dc_data_dir = None, dc_no_server = True\<rparr>"

corollary info_for_host_witness:
  "for_host demo_dev (describe demo_dev demo_dev_config [] [] \<lparr>sv_cert_path = [], sv_key_path = [], sv_fingerprint = []\<rparr>
      [] [] [] [] [] 8443) (Some (as_bytes (show_ip (V4 10 0 2 2) @ lit '':'' @ dec 8099))) =
    pf_emulator (describe demo_dev demo_dev_config [] [] \<lparr>sv_cert_path = [], sv_key_path = [], sv_fingerprint = []\<rparr>
      [] [] [] [] [] 8443)"
proof -
  have "dc_emulator_ip demo_dev_config = V4 10 0 2 2" "sa_ip (dev_local_addr demo_dev) = V4 127 0 0 1"
    by (simp_all add: demo_dev_config_def dev_local_addr_def demo_dev_def)
  note cfg = this
  have "for_host demo_dev (describe demo_dev demo_dev_config [] [] \<lparr>sv_cert_path = [], sv_key_path = [], sv_fingerprint = []\<rparr>
      [] [] [] [] [] 8443) (Some (as_bytes (show_ip (V4 10 0 2 2) @ lit '':'' @ dec 8099))) =
    (if V4 10 0 2 2 = dc_emulator_ip demo_dev_config
     then pf_emulator (describe demo_dev demo_dev_config [] [] \<lparr>sv_cert_path = [], sv_key_path = [], sv_fingerprint = []\<rparr>
      [] [] [] [] [] 8443)
     else pf_default (describe demo_dev demo_dev_config [] [] \<lparr>sv_cert_path = [], sv_key_path = [], sv_fingerprint = []\<rparr>
      [] [] [] [] [] 8443))"
    by (rule info_for_host [OF demo_header_text_ok cfg refl, THEN conjunct2, THEN conjunct1])
  then show ?thesis by (simp only: cfg simp_thms if_True)
qed

text \<open>
  For an emulator at an IPv6 address the control URL lacks the brackets a URL needs, which the
  default's has; and the address in brackets without a port selects the default description.
\<close>

lemma emulator_url_v6:
  assumes "dc_emulator_ip cfg = V6 [0xfd00, 0, 0, 0, 0, 0, 0, 2]" and "sa_port (dev_local_addr D) = 8099"
  shows "dn_control_url (pf_emulator (describe D cfg dir tf cert pem capi eapi sapi target port)) =
      lit ''http://fd00::2:8099''"
    and "show_sock \<lparr>sa_ip = dc_emulator_ip cfg, sa_port = 8099\<rparr> = lit ''[fd00::2]:8099''"
  using assms by (simp_all add: describe_def Let_def show_sock_def show_groups_def hex.simps hex_digit_def dec.simps)

lemma host_v6_without_port:
  assumes "dl_header_to_str D (as_bytes (lit ''[fd00::2]'')) = Some (lit ''[fd00::2]'')"
  shows "asked_at D (Some (as_bytes (lit ''[fd00::2]''))) = None"
proof -
  have four: "read_ipv4 s = read_octets 0 (Suc (Suc (Suc (Suc 0)))) s" for s
    by (simp add: read_ipv4_def eval_nat_numeral)
  have eight: "read_groups 0 8 s = read_groups 0 (Suc (Suc (Suc (Suc (Suc (Suc (Suc (Suc 0)))))))) s" for s
    by (simp add: eval_nat_numeral)
  have num: "read_number 10 3 False 255 (lit ''fd00:'') = None" "read_number 16 4 True 65535 (lit ''fd00:'') = Some (64768, lit '':'')"
    "read_number 16 4 True 65535 [] = None" "read_number 10 3 False 255 [] = None"
    by (simp_all add: read_number_def digit_of_def digits_value_def)
  have "parse_ip (lit ''fd00:'') = None"
    using num by (simp add: parse_ip_def four read_ipv6_def eight read_separator_def)
  then show ?thesis using assms
    by (simp add: asked_at_def rsplit_once_def trim_by_def trim_start_by_def trim_end_by_def)
qed

section \<open>The topology\<close>

text \<open>Every link joins two ASes of the network, and no interface of an AS carries two links.\<close>

lemma topology_well_formed:
  "(\<forall>l\<in>set (tp_links (topology_definition D)).
      ln_from l \<in> set (tp_core (topology_definition D)) \<and> ln_to l \<in> set (tp_core (topology_definition D))) \<and>
    distinct (concat (map (\<lambda>l. [(ln_from l, ln_from_if l), (ln_to l, ln_to_if l)]) (tp_links (topology_definition D))))"
  by (simp add: topology_definition_def)

section \<open>What a start describes\<close>

lemma path_join_eq:
  "p \<noteq> [] \<Longrightarrow> q \<noteq> [] \<Longrightarrow> hd p \<noteq> 47 \<Longrightarrow> hd q \<noteq> 47 \<Longrightarrow> path_join d p = path_join d q \<longleftrightarrow> p = q"
  by (simp add: path_join_def)

lemma dev_paths [simp]:
  "token_file d \<noteq> cert_file d" "token_file d \<noteq> key_file d" "token_file d \<noteq> path_join d (lit ''jwt.secret'')"
  "cert_file d \<noteq> path_join d (lit ''jwt.secret'')" "key_file d \<noteq> path_join d (lit ''jwt.secret'')"
  by (simp_all add: token_file_def cert_file_def key_file_def path_join_eq)

lemma load_or_create_other:
  assumes "load_or_create s mkdir L random d fs = (fs', r)" and "q \<noteq> cert_file d" and "q \<noteq> key_file d"
  shows "fs' q = fs q"
  using assms generate_other [OF _ assms(2,3)]
  by (auto simp: load_or_create_def Let_def split: prod.splits if_splits)

lemma server_state_files:
  assumes "server_state e cfg h = (h', r)" and "q \<noteq> config_jwt_secret cfg"
  shows "ho_files h' q = ho_files h q"
proof -
  have "fs' q = fs q" if "load_or_create_secret s b (config_jwt_secret cfg) fs = (fs', x)" for s b fs fs' x
    using that assms(2) by (cases rule: load_or_create_secret_cases) auto
  then show ?thesis using assms(1)
    by (auto simp: server_state_def Let_def split: prod.splits result.splits)
qed

lemma start_server_cases:
  assumes "start_server D N e cfg h = (h', Ok ((target, port), socket, st))"
  shows "\<exists>stack. build_stack N (se_os e) (ho_files h) cfg = Ok stack \<and> scion_bind N stack cfg = Ok socket \<and>
    target = dl_show_host D (nl_local_addr N socket) \<and> port = sn_port (nl_local_addr N socket) \<and>
    server_state e cfg h = (h', Ok st)"
  using assms by (auto simp: start_server_def res_simps Let_def split: result.splits prod.splits)

lemma dev_start_in_cases:
  assumes "dev_start_in D N L e cfg network d h = (h', Ok s)"
  obtains fs1 fs2 certificate ca_pem capi eapi sapi target port where
    "dev_write (se_os e) (token_file d) (dl_token D 0) (ho_files h) = (fs1, Ok ())"
    "load_or_create (se_os e) (dir_fault (se_open e)) L (se_random e) d fs1 = (fs2, Ok certificate)"
    "fs_read_to_string (se_os e) (sv_cert_path certificate) fs2 = Inr ca_pem"
    "network (dl_default D) = Some capi" "network (dl_emulator D) = Some eapi" "network (dl_server D) = Some sapi"
    "ds_profiles s = describe D cfg d (token_file d) certificate ca_pem capi eapi sapi target port"
    "dc_no_server cfg \<Longrightarrow> h' = h\<lparr>ho_files := fs2\<rparr> \<and> ds_serving s = None"
    "\<not> dc_no_server cfg \<Longrightarrow> \<exists>socket st scfg.
       scfg = embedded_config d \<lparr>sa_ip = dc_bind_ip cfg, sa_port = dc_server_port cfg\<rparr> sapi (token_file d) \<and>
       start_server D N e scfg (h\<lparr>ho_files := fs2\<rparr>) = (h', Ok ((target, port), socket, st)) \<and>
       ds_serving s = Some (socket, scfg, st)"
proof -
  obtain fs1 w where w: "dev_write (se_os e) (token_file d) (dl_token D 0) (ho_files h) = (fs1, w)" by fastforce
  obtain fs2 m where m: "load_or_create (se_os e) (dir_fault (se_open e)) L (se_random e) d fs1 = (fs2, m)" by fastforce
  have w_ok: "w = Ok ()" using assms w by (auto simp: dev_start_in_def Let_def split: result.splits)
  obtain certificate ca_pem capi eapi sapi where
      known: "dev_known D (se_os e) network m fs2 = Ok (certificate, ca_pem, capi, eapi, sapi)"
    using assms w m w_ok by (auto simp: dev_start_in_def Let_def split: result.splits)
  then have k: "m = Ok certificate"
      "fs_read_to_string (se_os e) (sv_cert_path certificate) fs2 = Inr ca_pem"
      "network (dl_default D) = Some capi" "network (dl_emulator D) = Some eapi" "network (dl_server D) = Some sapi"
    by (simp_all add: dev_known_Ok)
  note steps = w [unfolded w_ok] m [unfolded k(1)] known [unfolded k(1)]
  show ?thesis
  proof (cases "dc_no_server cfg")
    case True
    with assms show ?thesis
      using that [OF steps(1,2) k(2-5)] by (auto simp: dev_start_in_def Let_def steps)
  next
    case False
    let ?listen = "\<lparr>sa_ip = dc_bind_ip cfg, sa_port = dc_server_port cfg\<rparr>"
    let ?scfg = "embedded_config d ?listen sapi (token_file d)"
    obtain h3 served where st: "start_server D N e ?scfg (h\<lparr>ho_files := fs2\<rparr>) = (h3, served)" by fastforce
    with assms False have "\<exists>target port socket st. served = Ok ((target, port), socket, st) \<and> h3 = h' \<and>
        s = \<lparr>ds_profiles = describe D cfg d (token_file d) certificate ca_pem capi eapi sapi target port,
          ds_serving = Some (socket, ?scfg, st)\<rparr>"
      by (auto simp: dev_start_in_def Let_def steps res_simps)
    then show ?thesis using that [OF steps(1,2) k(2-5)] st False by fastforce
  qed
qed

text \<open>The embedded server, once started: its state is for the configuration it was given, and its
  start writes no file but the token secret.\<close>

lemma start_server_ends:
  assumes "start_server D N e scfg h = (h', Ok ((target, port), socket, st))"
  shows "target = dl_show_host D (nl_local_addr N socket)" "port = sn_port (nl_local_addr N socket)"
    "as_config st = scfg" "q \<noteq> config_jwt_secret scfg \<Longrightarrow> ho_files h' q = ho_files h q"
proof -
  from start_server_cases [OF assms] have run: "server_state e scfg h = (h', Ok st)"
    and ends: "target = dl_show_host D (nl_local_addr N socket)" "port = sn_port (nl_local_addr N socket)" by blast+
  show "target = dl_show_host D (nl_local_addr N socket)" "port = sn_port (nl_local_addr N socket)" by (rule ends)+
  show "as_config st = scfg" using server_state_Ok [OF run] by auto
  show "q \<noteq> config_jwt_secret scfg \<Longrightarrow> ho_files h' q = ho_files h q" by (rule server_state_files [OF run])
qed

lemma dev_start_in_files:
  assumes "dev_start_in D N L e cfg network d h = (h', Ok s)"
  shows "\<exists>fs1 fs2 cert pem. load_or_create (se_os e) (dir_fault (se_open e)) L (se_random e) d fs1 = (fs2, Ok cert) \<and>
    ho_files h' (cert_file d) = fs2 (cert_file d) \<and> ho_files h' (key_file d) = fs2 (key_file d) \<and>
    (\<exists>f. ho_files h' (cert_file d) = Some f \<and> from_utf8 (f_bytes f) = Some pem) \<and>
    (\<exists>f. ho_files h' (token_file d) = Some f \<and> f_bytes f = as_bytes (dl_token D 0)) \<and>
    (\<exists>capi eapi sapi target port.
      ds_profiles s = describe D cfg d (token_file d) cert pem capi eapi sapi target port \<and>
      (dc_no_server cfg \<longleftrightarrow> ds_serving s = None) \<and>
      (\<forall>socket scfg st. ds_serving s = Some (socket, scfg, st) \<longrightarrow>
        scfg = embedded_config d \<lparr>sa_ip = dc_bind_ip cfg, sa_port = dc_server_port cfg\<rparr> sapi (token_file d) \<and>
        as_config st = scfg \<and> target = dl_show_host D (nl_local_addr N socket) \<and>
        port = sn_port (nl_local_addr N socket)))"
  using assms
proof (cases rule: dev_start_in_cases)
  case (1 fs1 fs2 cert pem capi eapi sapi target port)
  let ?scfg = "embedded_config d \<lparr>sa_ip = dc_bind_ip cfg, sa_port = dc_server_port cfg\<rparr> sapi (token_file d)"
  have files: "ho_files h' q = fs2 q" if "q \<noteq> config_jwt_secret ?scfg" for q
  proof (cases "dc_no_server cfg")
    case False
    then obtain socket st where "start_server D N e ?scfg (h\<lparr>ho_files := fs2\<rparr>) = (h', Ok ((target, port), socket, st))"
      using 1(9) by blast
    from start_server_ends(4) [OF this that] show ?thesis by simp
  qed (use 1(8) in simp)
  have "cert_file d \<noteq> config_jwt_secret ?scfg" "key_file d \<noteq> config_jwt_secret ?scfg"
      "token_file d \<noteq> config_jwt_secret ?scfg"
    by (simp_all add: config_jwt_secret_def embedded_config_def del: lit_simps)
  then have same: "ho_files h' (cert_file d) = fs2 (cert_file d)" "ho_files h' (key_file d) = fs2 (key_file d)"
      "ho_files h' (token_file d) = fs1 (token_file d)"
    using files load_or_create_other [OF 1(2), of "token_file d"] by auto
  moreover have "\<exists>f. fs1 (token_file d) = Some f \<and> f_bytes f = as_bytes (dl_token D 0)"
    using 1(1) by (auto simp: dev_write_def res_simps dest: fs_replace_ok split: prod.splits)
  moreover have "\<exists>f. fs2 (cert_file d) = Some f \<and> from_utf8 (f_bytes f) = Some pem"
    using 1(3) by (auto simp: fs_read_to_string_def fs_read_def load_or_create_ok(1) [OF 1(2)] split: option.splits sum.splits)
  moreover have "dc_no_server cfg \<longleftrightarrow> ds_serving s = None"
    by (cases "dc_no_server cfg") (use 1(8,9) in auto)
  moreover have "scfg = ?scfg \<and> as_config st = scfg \<and> target = dl_show_host D (nl_local_addr N socket) \<and>
      port = sn_port (nl_local_addr N socket)" if "ds_serving s = Some (socket, scfg, st)" for socket scfg st
  proof -
    have "\<not> dc_no_server cfg" using 1(8) that by auto
    with 1(9) that have "scfg = ?scfg"
      and st: "start_server D N e ?scfg (h\<lparr>ho_files := fs2\<rparr>) = (h', Ok ((target, port), socket, st))" by auto
    then show ?thesis using start_server_ends(1-3) [OF st] by simp
  qed
  ultimately show ?thesis using 1(2,7) by metis
qed

text \<open>C33: What a start describes is what it started: the certificate file holds the PEM text the
  description carries, and whoever serves from its data directory presents the certificate of the
  fingerprint it names; the token file holds the server's own token; the embedded server runs with
  the data directory, endhost API and token the description gives to a server started separately,
  at the address it gives to clients; and the two descriptions differ only in the way in.\<close>

theorem dev_description_true:
  assumes "dev_start D N L e cfg h = (h', Ok s)"
    and "n = pf_default (ds_profiles s)" and "m = pf_emulator (ds_profiles s)"
  shows "\<not> is_unspecified (dc_bind_ip cfg) \<and>
    m = n\<lparr>dn_control_url := dn_control_url m, dn_endhost_api_url := dn_endhost_api_url m,
      dn_client_isd_as := dn_client_isd_as m\<rparr> \<and>
    (\<exists>f. ho_files h' (dn_auth_token_file n) = Some f \<and> f_bytes f = as_bytes (dl_token D 0)) \<and>
    (\<exists>f. ho_files h' (dn_ca_path n) = Some f \<and> from_utf8 (f_bytes f) = Some (dn_ca_pem n)) \<and>
    (\<forall>s' mkdir' random'. (\<forall>q. \<not> stat_fault s' q \<and> read_fault s' q = None) \<longrightarrow>
      (\<exists>c. load_or_create s' mkdir' L random' (dn_data_dir n) (ho_files h') = (ho_files h', Ok c) \<and>
        sv_fingerprint c = dn_ca_fingerprint n \<and> sv_cert_path c = dn_ca_path n)) \<and>
    (dn_server n = External \<longleftrightarrow> dc_no_server cfg) \<and> (ds_serving s = None \<longleftrightarrow> dc_no_server cfg) \<and>
    (\<forall>socket scfg st. ds_serving s = Some (socket, scfg, st) \<longrightarrow>
      cfg_data_dir scfg = dn_data_dir n \<and> cfg_endhost_api scfg = Some (dn_server_endhost_api_url n) \<and>
      cfg_auth_token_file scfg = Some (dn_auth_token_file n) \<and> as_config st = scfg \<and>
      dn_target n = dl_show_host D (nl_local_addr N socket) \<and>
      dn_base_url n = lit ''https://localhost:'' @ dec (unat (sn_port (nl_local_addr N socket))))"
proof -
  obtain network d where run: "dev_start_in D N L e cfg network d h = (h', Ok s)"
    and bound: "\<not> is_unspecified (dc_bind_ip cfg)"
    using assms(1) by (auto simp: dev_start_def Let_def split: if_splits option.splits result.splits)
  from dev_start_in_files [OF run] obtain fs1 fs2 cert pem capi eapi sapi target port where
      cert: "load_or_create (se_os e) (dir_fault (se_open e)) L (se_random e) d fs1 = (fs2, Ok cert)"
    and pair: "ho_files h' (cert_file d) = fs2 (cert_file d)" "ho_files h' (key_file d) = fs2 (key_file d)"
    and pem: "\<exists>f. ho_files h' (cert_file d) = Some f \<and> from_utf8 (f_bytes f) = Some pem"
    and tok: "\<exists>f. ho_files h' (token_file d) = Some f \<and> f_bytes f = as_bytes (dl_token D 0)"
    and prof: "ds_profiles s = describe D cfg d (token_file d) cert pem capi eapi sapi target port"
    and alone: "dc_no_server cfg \<longleftrightarrow> ds_serving s = None"
    and emb: "\<forall>socket scfg st. ds_serving s = Some (socket, scfg, st) \<longrightarrow>
        scfg = embedded_config d \<lparr>sa_ip = dc_bind_ip cfg, sa_port = dc_server_port cfg\<rparr> sapi (token_file d) \<and>
        as_config st = scfg \<and> target = dl_show_host D (nl_local_addr N socket) \<and>
        port = sn_port (nl_local_addr N socket)"
    by metis
  note path = load_or_create_ok(1) [OF cert]
  have n: "dn_auth_token_file n = token_file d" "dn_ca_path n = cert_file d" "dn_ca_pem n = pem"
      "dn_data_dir n = d" "dn_ca_fingerprint n = sv_fingerprint cert" "dn_server_endhost_api_url n = sapi"
      "dn_target n = target" "dn_base_url n = lit ''https://localhost:'' @ dec (unat port)"
      "dn_server n = (if dc_no_server cfg then External else Embedded)"
    by (simp_all add: assms(2) prof describe_def Let_def path SERVER_NAME_def)
  have m: "m = n\<lparr>dn_control_url := dn_control_url m, dn_endhost_api_url := dn_endhost_api_url m,
         dn_client_isd_as := dn_client_isd_as m\<rparr>"
    by (simp add: assms(2,3) prof describe_def Let_def)
  have again: "\<forall>s' mkdir' random'. (\<forall>q. \<not> stat_fault s' q \<and> read_fault s' q = None) \<longrightarrow>
      (\<exists>c. load_or_create s' mkdir' L random' d (ho_files h') = (ho_files h', Ok c) \<and>
        sv_fingerprint c = sv_fingerprint cert \<and> sv_cert_path c = cert_file d)"
    using load_or_create_again [OF cert pair] path by blast
  have serving: "\<forall>socket scfg st. ds_serving s = Some (socket, scfg, st) \<longrightarrow>
      cfg_data_dir scfg = d \<and> cfg_endhost_api scfg = Some sapi \<and> cfg_auth_token_file scfg = Some (token_file d) \<and>
      as_config st = scfg \<and> target = dl_show_host D (nl_local_addr N socket) \<and>
      lit ''https://localhost:'' @ dec (unat port) = lit ''https://localhost:'' @ dec (unat (sn_port (nl_local_addr N socket)))"
    using emb by (auto simp: embedded_config_def)
  have kind: "(if dc_no_server cfg then External else Embedded) = External \<longleftrightarrow> dc_no_server cfg" by simp
  show ?thesis unfolding n by (intro conjI bound m tok pem again kind serving) (use alone in blast)
qed

definition demo_net :: "(rstr, rstr, unit, nat, nat scion_addr, rstr list) net_lib" where
  "demo_net = \<lparr>nl_tcp_bind = (\<lambda>_. None), nl_tcp_serve = (\<lambda>_ _. None), nl_url_parse = Inr,
     nl_aa_start = (\<lambda>key _ _. Inr key), nl_build = (\<lambda>_. Inr ()), nl_local_ases = (\<lambda>_. [212]),
     nl_bind = (\<lambda>_ a. Inr a), nl_local_addr = (\<lambda>a. a), nl_quic = Inr [],
     nl_load_cert = (\<lambda>q p. Inr (p # q)), nl_load_key = (\<lambda>q p. Inr (p # q)), nl_h3_serve = (\<lambda>_ _ _. None)\<rparr>"

lemma demo_dev_run:
  "\<exists>h' s. dev_start demo_dev demo_net demo_tls calm_start demo_dev_config \<lparr>ho_disk = Map.empty, ho_files = Map.empty\<rparr> =
    (h', Ok s)"
proof -
  let ?d = "lit ''/tmp/dev''" and ?pem = "SERVER_NAME @ [7]"
  let ?fs1 = "[token_file ?d \<mapsto> \<lparr>f_bytes = as_bytes (lit ''token'' @ dec 0), f_mode = 438\<rparr>]"
  let ?fs2 = "?fs1(cert_file ?d \<mapsto> \<lparr>f_bytes = as_bytes ?pem, f_mode = 420\<rparr>, key_file ?d \<mapsto> \<lparr>f_bytes = as_bytes [7], f_mode = 384\<rparr>)"
  have w: "dev_write calm_os (token_file ?d) (lit ''token'' @ dec 0) Map.empty = (?fs1, Ok ())"
    by (simp add: dev_write_def fs_replace_def write_all_def calm_os_def del: lit_simps)
  have gen: "generate calm_os (\<lambda>_. None) demo_tls [7] ?d (cert_file ?d) (key_file ?d) ?fs1 = (?fs2, Ok ())"
    by (simp add: generate_def demo_tls_def calm_os_def cert_write_def fs_replace_def write_all_def cert_result_def
        dev_paths [symmetric] del: lit_simps as_bytes_Cons)
  have "\<exists>fp. fingerprint calm_os demo_tls (cert_file ?d) ?fs2 = Ok fp"
    by (simp add: fingerprint_Ok calm_os_def demo_tls_def del: lit_simps as_bytes_Cons)
  then obtain c where c: "load_or_create calm_os (\<lambda>_. None) demo_tls [7] ?d ?fs1 = (?fs2, Ok c)"
    and path: "sv_cert_path c = cert_file ?d"
    using gen by (auto simp: load_or_create_def is_file_def Let_def dev_paths [symmetric] simp del: lit_simps as_bytes_Cons)
  have "list_all is_scalar ?pem" by (simp add: SERVER_NAME_def is_scalar_def)
  then have "fs_read_to_string calm_os (cert_file ?d) ?fs2 = Inr ?pem"
    by (simp add: fs_read_to_string_def fs_read_def calm_os_def from_utf8_as_bytes del: lit_simps as_bytes_Cons)
  then show ?thesis using w c path
    by (simp add: dev_start_def demo_dev_config_def demo_dev_def dev_data_dir_def dev_start_in_def calm_start_def
        dev_known_def dev_read_def dev_endhost_api_def topology_start_def Let_def del: lit_simps as_bytes_Cons)
qed

corollary dev_description_true_witness:
  "\<exists>h' s. dev_start demo_dev demo_net demo_tls calm_start demo_dev_config \<lparr>ho_disk = Map.empty, ho_files = Map.empty\<rparr> =
    (h', Ok s) \<and> dn_server (pf_default (ds_profiles s)) = External \<and>
    (\<exists>f. ho_files h' (dn_ca_path (pf_default (ds_profiles s))) = Some f \<and>
      from_utf8 (f_bytes f) = Some (dn_ca_pem (pf_default (ds_profiles s))))"
proof -
  obtain h' s where run: "dev_start demo_dev demo_net demo_tls calm_start demo_dev_config
      \<lparr>ho_disk = Map.empty, ho_files = Map.empty\<rparr> = (h', Ok s)"
    using demo_dev_run by blast
  have "dc_no_server demo_dev_config" by (simp add: demo_dev_config_def)
  then show ?thesis using dev_description_true [OF run refl refl] run by blast
qed

end
