(* ===== verification/Wire.thy ===== *)
theory Wire
  imports Client_Feed Server_Properties
begin

text \<open>
  The client on the server: the request the client builds (crates/chat-client-core/src/client.rs) as
  the router reads it (crates/chat-server/src/api.rs), and the response as the client reads it. What
  serde\_json, hyper and axum do between the two is the argument \<open>wire\<close>: a transport that carries
  a request to the server, with the target split at its query and its slashes, and its reply back.
\<close>

section \<open>The wire\<close>

text \<open>\<open>wr_dropped\<close> is what the client sees when the handler's task panics.\<close>

record wire =
  wr_codec :: codec
  wr_axum :: axum
  wr_encode :: "resp_body \<Rightarrow> bytes"
  wr_dropped :: transport_error

fun split_all :: "uchar \<Rightarrow> rstr \<Rightarrow> rstr list" where
  "split_all x [] = [[]]"
| "split_all x (c # s) =
     (if c = x then [] # split_all x s
      else case split_all x s of [] \<Rightarrow> [[c]] | w # ws \<Rightarrow> (c # w) # ws)"

definition request_of :: "rstr \<Rightarrow> http_request \<Rightarrow> request" where
  "request_of origin q =
     (let target = drop (length origin) (hq_uri q);
          (path, query) = (case split_once (\<lambda>c. c = 63) target of None \<Rightarrow> (target, []) | Some pq \<Rightarrow> pq)
      in \<lparr>rq_method = (case hq_method q of MGet \<Rightarrow> GET | MPost \<Rightarrow> POST),
          rq_path = split_all 47 (tl path), rq_query = query,
          rq_authorization = map_option as_bytes (hq_authorization q), rq_body = hq_body q\<rparr>)"

definition reply_of :: "wire \<Rightarrow> (http_error, response) result \<Rightarrow> (transport_error, http_reply) result" where
  "reply_of W r =
     (case r of
        Ok p \<Rightarrow> Ok \<lparr>hr_status = rs_status p, hr_body = wr_encode W (rs_body p)\<rparr>
      | _ \<Rightarrow> Err (wr_dropped W))"

text \<open>A client of the server at \<open>origin\<close>, for a call that meets \<open>c\<close> there.\<close>

definition at_server ::
  "wire \<Rightarrow> deps \<Rightarrow> rstr \<Rightarrow> 's app_state \<Rightarrow> rstr \<Rightarrow> poll_config \<Rightarrow> 's call \<Rightarrow> 's chat_client" where
  "at_server W dp version st origin poll c =
     \<lparr>cl_transport = (\<lambda>q s. let (s', r) = router dp (wr_axum W) version st c (request_of origin q) s in (s', reply_of W r)),
      cl_server_url = origin @ lit ''/'', cl_poll = poll, cl_codec = wr_codec W\<rparr>"

text \<open>
  Documented behaviour: JSON that one side writes the other reads back, a path segment and a query
  of decimal digits are those numbers, and a request head of visible ASCII is accepted.
\<close>

definition cursor_text :: "cursor \<Rightarrow> rstr" where
  "cursor_text c = (case c of NewestC \<Rightarrow> [] | AfterC s \<Rightarrow> lit ''&after_seq='' @ seq_display s
     | BeforeC s \<Rightarrow> lit ''&before_seq='' @ seq_display s)"

definition page_of :: "u64 \<Rightarrow> cursor \<Rightarrow> page" where
  "page_of limit c = \<lparr>pg_limit = Some (ucast limit),
     pg_after_seq = (case c of AfterC s \<Rightarrow> Some (seq_get s) | _ \<Rightarrow> None),
     pg_before_seq = (case c of BeforeC s \<Rightarrow> Some (seq_get s) | _ \<Rightarrow> None)\<rparr>"

definition json_ok :: "wire \<Rightarrow> bool" where
  "json_ok W \<longleftrightarrow>
     (\<forall>q b rq. enc_register (wr_codec W) q = Inr b \<longrightarrow> rq_body rq = b \<longrightarrow> ax_json_register (wr_axum W) rq = Inr q) \<and>
     (\<forall>q b rq. enc_login (wr_codec W) q = Inr b \<longrightarrow> rq_body rq = b \<longrightarrow> ax_json_login (wr_axum W) rq = Inr q) \<and>
     (\<forall>q b rq. enc_create_room (wr_codec W) q = Inr b \<longrightarrow> rq_body rq = b \<longrightarrow> ax_json_create_room (wr_axum W) rq = Inr q) \<and>
     (\<forall>q b rq. enc_post (wr_codec W) q = Inr b \<longrightarrow> rq_body rq = b \<longrightarrow> ax_json_post (wr_axum W) rq = Inr q) \<and>
     (\<forall>lr. decode (dec_login (wr_codec W)) (wr_encode W (LoginBody lr)) = Ok lr) \<and>
     (\<forall>rs. decode (dec_rooms (wr_codec W)) (wr_encode W (RoomsBody rs)) = Ok rs) \<and>
     (\<forall>r. decode (dec_room (wr_codec W)) (wr_encode W (RoomBody r)) = Ok r) \<and>
     (\<forall>ms. decode (dec_messages (wr_codec W)) (wr_encode W (MessagesBody ms)) = Ok ms) \<and>
     (\<forall>p. decode (dec_posted (wr_codec W)) (wr_encode W (PostedBody p)) = Ok p) \<and>
     (\<forall>e. (\<forall>t. ae_code (er_error e) \<noteq> Other t) \<longrightarrow> dec_error (wr_codec W) (wr_encode W (ErrorBody e)) = Inr e)"

definition extracts_ok :: "wire \<Rightarrow> bool" where
  "extracts_ok W \<longleftrightarrow>
     (\<forall>i. ax_path_u64 (wr_axum W) (dec (unat i)) = Inr i) \<and>
     (\<forall>limit c. unat limit < 2 ^ 32 \<longrightarrow>
        ax_query_page (wr_axum W) (lit ''limit='' @ dec (unat limit) @ cursor_text c) = Inr (page_of limit c))"

definition heads_ok :: "wire \<Rightarrow> bool" where
  "heads_ok W \<longleftrightarrow>
     (\<forall>q. list_all is_ascii_graphic (hq_uri q) \<longrightarrow>
        (\<forall>a. hq_authorization q = Some a \<longrightarrow> list_all (\<lambda>c. is_ascii_graphic c \<or> c = 32) a) \<longrightarrow>
        head_fault (wr_codec W) q = None)"

definition wire_ok :: "wire \<Rightarrow> bool" where
  "wire_ok W \<longleftrightarrow> json_ok W \<and> extracts_ok W \<and> heads_ok W"

definition origin_ok :: "rstr \<Rightarrow> bool" where
  "origin_ok origin \<longleftrightarrow> origin \<noteq> [] \<and> last origin \<noteq> 47 \<and> list_all is_ascii_graphic origin"

section \<open>One request, there and back\<close>

lemma split_all_append: "x \<notin> set w \<Longrightarrow> split_all x (w @ x # s) = w # split_all x s"
  by (induction w) auto

lemma split_all_last: "x \<notin> set w \<Longrightarrow> split_all x w = [w]"
  by (induction w) auto

lemma trim_origin: "origin_ok origin \<Longrightarrow> trim_end_slash (origin @ lit ''/'') = origin"
  by (cases origin rule: rev_cases) (auto simp: origin_ok_def trim_end_slash_def trim_end_by_def)

text \<open>The request a call hands to the transport.\<close>

definition built :: "rstr \<Rightarrow> client_method \<Rightarrow> rstr \<Rightarrow> bytes option \<Rightarrow> rstr option \<Rightarrow> http_request" where
  "built origin method path body token =
     \<lparr>hq_method = method, hq_uri = origin @ path,
      hq_content_type = (if body \<noteq> None then Some (lit ''application/json'') else None),
      hq_authorization = map_option (\<lambda>t. lit ''Bearer '' @ t) token,
      hq_body = (case body of Some b \<Rightarrow> b | None \<Rightarrow> [])\<rparr>"

lemma prepare_at_server:
  assumes "heads_ok W" and "origin_ok origin" and "list_all is_ascii_graphic path"
    and "token = (case au of AuthRequired \<Rightarrow> token_of ses | AuthNone \<Rightarrow> None)"
    and "au = AuthRequired \<longrightarrow> token \<noteq> None" and "\<forall>t. token = Some t \<longrightarrow> list_all is_ascii_graphic t"
  shows "prepare (at_server W dp version st origin poll c) method path body au ses =
    Ok (built origin method path body token, token)"
proof -
  have free: "head_fault (wr_codec W) (built origin method path body token) = None"
  proof -
    have "list_all is_ascii_graphic (hq_uri (built origin method path body token))"
      using assms(2,3) by (simp add: built_def origin_ok_def)
    moreover have "list_all (\<lambda>c. is_ascii_graphic c \<or> c = 32) a"
      if "hq_authorization (built origin method path body token) = Some a" for a
      using that assms(6) by (auto simp: built_def list_all_iff is_ascii_graphic_def)
    ultimately show ?thesis using assms(1) by (simp only: heads_ok_def) blast
  qed
  then show ?thesis using assms(4,5) trim_origin [OF assms(2)]
    by (cases au) (auto simp: prepare_def at_server_def built_def Let_def simp del: lit_simps)
qed

lemma execute_at_server:
  assumes "prepare (at_server W dp version st origin poll c) method path body au ses = Ok (q, token)"
    and "router dp (wr_axum W) version st c (request_of origin q) s = (s', r)"
  shows "execute (at_server W dp version st origin poll c) m method path body au \<lparr>cs_session = ses, cs_net = s\<rparr> =
    (\<lparr>cs_session = fst (settle (wr_codec W) token (reply_of W r) (m ses)), cs_net = s'\<rparr>,
     snd (settle (wr_codec W) token (reply_of W r) (m ses)))"
  using assms by (simp add: execute_def at_server_def split: prod.split)

lemma settle_success:
  "200 \<le> rs_status p \<Longrightarrow> rs_status p < 300 \<Longrightarrow>
     settle cd token (reply_of W (Ok p)) ses = (ses, Ok (wr_encode W (rs_body p)))"
  by (simp add: settle_def reply_of_def)

text \<open>A failure of a handler, as the caller sees it.\<close>

definition seen :: "rstr option \<Rightarrow> http_error \<Rightarrow> chat_error" where
  "seen token e = (if token \<noteq> None \<and> he_status e = 401 then SessionExpired
     else ApiErr (he_status e) (he_code e) (he_message e))"

lemma settle_failure:
  assumes "json_ok W" and "\<not> (200 \<le> he_status e \<and> he_status e < 300)" and "\<forall>t. he_code e \<noteq> Other t"
  shows "settle (wr_codec W) token (reply_of W (Ok (into_response e))) ses =
    ((case token of Some t \<Rightarrow> if he_status e = 401 then forget_if_current t ses else ses | None \<Rightarrow> ses),
     Err (seen token e))"
  using assms
  by (auto simp: settle_def reply_of_def into_response_def respond_def refusal_def json_ok_def seen_def
      error_response_new_def split: option.split)

section \<open>The targets of the calls\<close>

lemma api_paths:
  "split_all 47 (tl (lit ''/api/v1/register'')) = [lit ''api'', lit ''v1'', lit ''register'']"
  "split_all 47 (tl (lit ''/api/v1/login'')) = [lit ''api'', lit ''v1'', lit ''login'']"
  "split_all 47 (tl (lit ''/api/v1/rooms'')) = [lit ''api'', lit ''v1'', lit ''rooms'']"
  by simp_all

lemma no_query:
  "split_once (\<lambda>c. c = 63) (lit ''/api/v1/register'') = None"
  "split_once (\<lambda>c. c = 63) (lit ''/api/v1/login'') = None"
  "split_once (\<lambda>c. c = 63) (lit ''/api/v1/rooms'') = None"
  by simp_all

lemma dec_chars: "c < 48 \<or> 57 < c \<Longrightarrow> c \<notin> set (dec n)"
  using dec_digits by fastforce

lemma messages_path_split:
  "split_all 47 (tl (messages_path room)) =
     [lit ''api'', lit ''v1'', lit ''rooms'', dec (unat (room_id_get room)), lit ''messages'']"
proof -
  have "split_all 47 (dec n @ 47 # lit ''messages'') = [dec n, lit ''messages'']" for n
    by (subst split_all_append) (simp_all add: dec_chars)
  then show ?thesis by (simp add: messages_path_def room_id_display_def)
qed

lemma messages_path_no_query: "63 \<notin> set (messages_path room)"
  by (simp add: messages_path_def room_id_display_def dec_chars)

lemma messages_uri_split:
  "split_once (\<lambda>c. c = 63) (messages_uri room limit c) =
     Some (messages_path room, lit ''limit='' @ dec (unat limit) @ cursor_text c)"
proof -
  have "messages_uri room limit c = messages_path room @ 63 # (lit ''limit='' @ dec (unat limit) @ cursor_text c)"
    by (cases c) (simp_all add: messages_uri_def cursor_text_def Let_def)
  then show ?thesis using split_once_append [of "messages_path room" "\<lambda>c. c = 63" 63] messages_path_no_query by metis
qed

lemma messages_path_graphic: "list_all is_ascii_graphic (messages_path room)"
  using dec_digits by (fastforce simp: messages_path_def room_id_display_def list_all_iff is_ascii_graphic_def)

lemma messages_uri_graphic: "list_all is_ascii_graphic (messages_uri room limit c)"
proof -
  have d: "list_all is_ascii_graphic (dec n)" for n
    using dec_digits by (fastforce simp: list_all_iff is_ascii_graphic_def)
  then show ?thesis using messages_path_graphic
    by (cases c) (simp_all add: messages_uri_def seq_display_def Let_def is_ascii_graphic_def)
qed

lemma endpoints:
  "endpoint_of [lit ''api'', lit ''v1'', lit ''register''] = Some RegisterE"
  "endpoint_of [lit ''api'', lit ''v1'', lit ''login''] = Some LoginE"
  "endpoint_of [lit ''api'', lit ''v1'', lit ''rooms''] = Some RoomsE"
  "endpoint_of [lit ''api'', lit ''v1'', lit ''rooms'', dec n, lit ''messages''] = Some (MessagesE (dec n))"
  by (simp_all add: endpoint_of_def)

text \<open>What the router makes of each call's request.\<close>

lemma router_login:
  assumes "rq = request_of origin (built origin MPost (lit ''/api/v1/login'') (Some b) None)"
  shows "router dp ax version st c rq s = finish (login dp st c (ax_json_login ax rq) s)"
proof -
  have "rq_path rq = [lit ''api'', lit ''v1'', lit ''login'']" "rq_method rq = POST"
    unfolding assms by (simp_all add: request_of_def built_def no_query api_paths Let_def del: lit_simps)
  then show ?thesis by (simp add: router_def endpoints dispatch_def del: lit_simps)
qed

lemma router_rooms:
  assumes "rq = request_of origin (built origin MGet (lit ''/api/v1/rooms'') None token)"
  shows "router dp ax version st c rq s = finish (rooms_list dp st c (rq_authorization rq) s)"
proof -
  have "rq_path rq = [lit ''api'', lit ''v1'', lit ''rooms'']" "rq_method rq = GET"
    unfolding assms by (simp_all add: request_of_def built_def no_query api_paths Let_def del: lit_simps)
  then show ?thesis by (simp add: router_def endpoints dispatch_def del: lit_simps)
qed

lemma router_messages:
  assumes "extracts_ok W" and "unat limit < 2 ^ 32"
    and "rq = request_of origin (built origin MGet (messages_uri room limit cur) None token)"
  shows "router dp (wr_axum W) version st c rq s =
    finish (messages_list dp st c (rq_authorization rq) (Inr (room_id_get room)) (Inr (page_of limit cur)) s)"
proof -
  have path: "rq_path rq = [lit ''api'', lit ''v1'', lit ''rooms'', dec (unat (room_id_get room)), lit ''messages'']"
    and query: "rq_query rq = lit ''limit='' @ dec (unat limit) @ cursor_text cur" and get: "rq_method rq = GET"
    unfolding assms(3) by (simp_all add: request_of_def built_def messages_uri_split messages_path_split Let_def del: lit_simps)
  have ex: "ax_path_u64 (wr_axum W) (dec (unat (room_id_get room))) = Inr (room_id_get room)"
    "ax_query_page (wr_axum W) (lit ''limit='' @ dec (unat limit) @ cursor_text cur) = Inr (page_of limit cur)"
    using assms(1,2) unfolding extracts_ok_def by blast+
  show ?thesis
    by (simp only: router_def path endpoints get dispatch_def query ex Let_def option.case endpoint.case http_method.case prod.case)
qed

lemma router_send:
  assumes "extracts_ok W" and "rq = request_of origin (built origin MPost (messages_path room) (Some b) token)"
  shows "router dp (wr_axum W) version st c rq s =
    finish (messages_post dp st c (rq_authorization rq) (Inr (room_id_get room)) (ax_json_post (wr_axum W) rq) s)"
proof -
  have "split_once (\<lambda>c. c = 63) (messages_path room) = None"
    using messages_path_no_query [of room] by (simp add: split_once_None) blast
  then have path: "rq_path rq = [lit ''api'', lit ''v1'', lit ''rooms'', dec (unat (room_id_get room)), lit ''messages'']"
    and post: "rq_method rq = POST"
    unfolding assms(2) by (simp_all add: request_of_def built_def messages_path_split Let_def del: lit_simps)
  have "ax_path_u64 (wr_axum W) (dec (unat (room_id_get room))) = Inr (room_id_get room)"
    using assms(1) unfolding extracts_ok_def by blast
  then show ?thesis unfolding router_def path endpoints post dispatch_def by (simp del: lit_simps)
qed

lemma request_authorization:
  "rq_authorization (request_of origin (built origin method path body token)) =
     map_option bearer_header token"
  by (cases token) (simp_all add: request_of_def built_def bearer_header_def Let_def split: prod.split)

lemma request_body: "rq_body (request_of origin (built origin method path (Some b) token)) = b"
  by (simp add: request_of_def built_def Let_def split: prod.split)

end
