(* ===== verification/Wire_Properties.thy ===== *)
theory Wire_Properties
  imports Wire Client_Properties "HOL-Library.Countable"
begin

text \<open>
  What a user gets from the client and the server together: a login is a session the server honours
  until the time it announced, a call's result is its handler's, what is sent is read back, and the
  lists and pages the app and the feed rest on are the server's.
\<close>

section \<open>Failures that are answered\<close>

text \<open>A failure a handler answers with: an error status and a code every client knows.\<close>

definition proper :: "http_error \<Rightarrow> bool" where
  "proper e \<longleftrightarrow> 400 \<le> he_status e \<and> (\<forall>t. he_code e \<noteq> Other t)"

lemmas error_defs = unauthorized_def expired_token_def internal_def room_not_found_def http_error_new_def
  of_json_rejection_def of_auth_error_def username_parse_def room_name_parse_def

lemma of_store_error_proper [simp]: "proper (of_store_error e)"
  by (cases e) (simp_all add: proper_def error_defs)

lemma fixed_errors_proper [simp]:
  "proper unauthorized" "proper expired_token" "proper internal" "proper room_not_found"
  "proper (of_auth_error x)" "proper (of_json_rejection y)"
  by (simp_all add: proper_def error_defs)

lemma proper_new [simp]: "proper (http_error_new status c m) \<longleftrightarrow> 400 \<le> status \<and> (\<forall>t. c \<noteq> Other t)"
  by (simp add: proper_def http_error_new_def)

lemma map_err_eq_Err: "map_err f r = Err e \<longleftrightarrow> (\<exists>x. r = Err x \<and> e = f x)"
  by (cases r) auto

lemma of_sum_eq_Err: "of_sum f z = Err e \<longleftrightarrow> (\<exists>x. z = Inl x \<and> e = f x)"
  by (cases z) auto

lemma authenticated_proper: "authenticated dp tk t h = Err e \<Longrightarrow> proper e"
  by (auto simp: authenticated_cases split: option.splits sum.splits if_splits)

text \<open>A handler that fails properly, put together from steps that do.\<close>

definition fails_properly :: "'s \<times> (http_error, 'a) result \<Rightarrow> bool" where
  "fails_properly x \<longleftrightarrow> (\<forall>e. snd x = Err e \<longrightarrow> proper e)"

lemma fails_properly_simps [simp]:
  "fails_properly (s, Ok a)" "fails_properly (s, Panic p)" "fails_properly (s, Err e) \<longleftrightarrow> proper e"
  by (simp_all add: fails_properly_def)

lemma fails_properly_try:
  "(\<And>e. r = Err e \<Longrightarrow> proper e) \<Longrightarrow> (\<And>a. fails_properly (f a s)) \<Longrightarrow> fails_properly (try_res r f s)"
  by (cases r) simp_all

lemma handlers_fail_properly:
  "fails_properly (login dp st c body s)"
  "fails_properly (rooms_list dp st c auth s)"
  "fails_properly (messages_list dp st c auth path query s)"
  "fails_properly (messages_post dp st c auth path body' s)"
proof -
  show "fails_properly (login dp st c body s)"
    unfolding login_def by (auto simp: map_err_eq_Err of_sum_eq_Err intro!: fails_properly_try)
  show "fails_properly (rooms_list dp st c auth s)"
    unfolding rooms_list_def
    by (rule fails_properly_try, erule authenticated_proper) (auto simp: map_err_eq_Err intro!: fails_properly_try)
  show "fails_properly (messages_list dp st c auth path query s)"
    unfolding messages_list_def Let_def
    by (rule fails_properly_try, erule authenticated_proper)
      (auto simp: map_err_eq_Err intro!: fails_properly_try split: sum.split option.splits if_splits)
  show "fails_properly (messages_post dp st c auth path body' s)"
    unfolding messages_post_def Let_def
    by (rule fails_properly_try, erule authenticated_proper)
      (auto simp: of_sum_eq_Err intro!: fails_properly_try split: sum.split result.split prod.split)
qed

section \<open>A call's result is its handler's\<close>

text \<open>What the caller gets, and what becomes of the session that carried \<open>t\<close>.\<close>

definition settled :: "wire \<Rightarrow> (resp_body \<Rightarrow> 'a) \<Rightarrow> rstr option \<Rightarrow> (http_error, response) result \<Rightarrow> (chat_error, 'a) result" where
  "settled W pick token r =
     (case r of Ok p \<Rightarrow> Ok (pick (rs_body p)) | Err e \<Rightarrow> Err (seen token e)
      | Panic _ \<Rightarrow> Err (TransportErr (wr_dropped W)))"

definition session_after :: "rstr option \<Rightarrow> (http_error, response) result \<Rightarrow> session option \<Rightarrow> session option" where
  "session_after token r ses =
     (case (token, r) of (Some t, Err e) \<Rightarrow> if he_status e = 401 then forget_if_current t ses else ses | _ \<Rightarrow> ses)"

definition messages_in :: "resp_body \<Rightarrow> message list" where
  "messages_in b = (case b of MessagesBody ms \<Rightarrow> ms | _ \<Rightarrow> [])"

definition rooms_in :: "resp_body \<Rightarrow> room list" where
  "rooms_in b = (case b of RoomsBody rs \<Rightarrow> rs | _ \<Rightarrow> [])"

definition posted_in :: "resp_body \<Rightarrow> post_message_response" where
  "posted_in b = (case b of PostedBody p \<Rightarrow> p | _ \<Rightarrow> \<lparr>pr_seq = seq_start, pr_posted_at = UnixMillis 0\<rparr>)"

lemma settle_finish:
  assumes "json_ok W" and "finish (s', r) = (s', q)"
    and "\<And>e. r = Err e \<Longrightarrow> proper e"
    and "\<And>p. r = Ok p \<Longrightarrow> 200 \<le> rs_status p \<and> rs_status p < 300 \<and> decode d (wr_encode W (rs_body p)) = Ok (pick (rs_body p))"
  shows "fst (settle (wr_codec W) token (reply_of W q) ses) = session_after token r ses"
    and "bind_res (snd (settle (wr_codec W) token (reply_of W q) ses)) (decode d) = settled W pick token r"
proof -
  have "fst (settle (wr_codec W) token (reply_of W q) ses) = session_after token r ses \<and>
    bind_res (snd (settle (wr_codec W) token (reply_of W q) ses)) (decode d) = settled W pick token r"
  proof (cases r)
    case (Ok p)
    then have "q = Ok p" using assms(2) by (simp add: finish_def)
    then show ?thesis using Ok assms(4) [OF Ok]
      by (auto simp: settle_success session_after_def settled_def split: option.split)
  next
    case (Err e)
    then have q: "q = Ok (into_response e)" using assms(2) by (simp add: finish_def)
    have "\<not> (200 \<le> he_status e \<and> he_status e < 300)" "\<forall>t. he_code e \<noteq> Other t"
      using assms(3) [OF Err] by (auto simp: proper_def)
    then show ?thesis unfolding q using settle_failure [OF assms(1), of e token ses] Err
      by (simp add: session_after_def settled_def split: option.split)
  next
    case (Panic p)
    then have "q = Panic p" using assms(2) by (simp add: finish_def)
    then show ?thesis using Panic by (simp add: reply_of_def settle_def session_after_def settled_def split: option.split)
  qed
  then show "fst (settle (wr_codec W) token (reply_of W q) ses) = session_after token r ses"
    "bind_res (snd (settle (wr_codec W) token (reply_of W q) ses)) (decode d) = settled W pick token r" by blast+
qed

lemma finish_store: "finish (s', r) = (s', snd (finish (s', r)))"
  by (simp add: finish_def split: result.split)

lemma call_at_server:
  assumes "wire_ok W" and "origin_ok origin" and "list_all is_ascii_graphic path"
    and "token = (case au of AuthRequired \<Rightarrow> token_of ses | AuthNone \<Rightarrow> None)"
    and "au = AuthRequired \<longrightarrow> token \<noteq> None" and "\<forall>t. token = Some t \<longrightarrow> list_all is_ascii_graphic t"
    and "\<And>rq. rq = request_of origin (built origin method path body token) \<Longrightarrow>
      router dp (wr_axum W) version st c rq s = finish (s', r)"
    and "fails_properly (s', r)"
    and "\<And>p. r = Ok p \<Longrightarrow> 200 \<le> rs_status p \<and> rs_status p < 300 \<and> decode d (wr_encode W (rs_body p)) = Ok (pick (rs_body p))"
  shows "(let (st', out) = execute (at_server W dp version st origin poll c) m method path body au \<lparr>cs_session = ses, cs_net = s\<rparr>
      in (st', bind_res out (decode d))) =
    (\<lparr>cs_session = session_after token r (m ses), cs_net = s'\<rparr>, settled W pick token r)"
proof -
  have ok: "json_ok W" "heads_ok W" using assms(1) by (simp_all add: wire_ok_def)
  note prep = prepare_at_server [OF ok(2) assms(2-6)]
  have route: "router dp (wr_axum W) version st c (request_of origin (built origin method path body token)) s =
      (s', snd (finish (s', r)))"
    using assms(7) [OF refl] finish_store by metis
  have "fst (settle (wr_codec W) token (reply_of W (snd (finish (s', r)))) (m ses)) = session_after token r (m ses)"
    by (rule settle_finish(1) [OF ok(1) finish_store, where d = d and pick = pick]) (use assms(8,9) in auto)
  moreover have "bind_res (snd (settle (wr_codec W) token (reply_of W (snd (finish (s', r)))) (m ses))) (decode d) =
      settled W pick token r"
    by (rule settle_finish(2) [OF ok(1) finish_store]) (use assms(8,9) in auto)
  ultimately show ?thesis using execute_at_server [OF prep route, where m = m] by simp
qed

text \<open>The statuses and bodies of the successes.\<close>

lemma rooms_list_Ok: "rooms_list dp st c auth s = (s', Ok p) \<Longrightarrow> \<exists>rs. p = respond 200 (RoomsBody rs)"
  by (auto simp: rooms_list_def try_res_def split: result.splits)

lemma messages_list_Ok:
  "messages_list dp st c auth (Inr room) (Inr page) s = (s', Ok p) \<Longrightarrow> \<exists>ms. p = respond 200 (MessagesBody ms)"
  by (auto simp: messages_list_def try_res_def Let_def split: result.splits if_splits)

lemma messages_post_Ok:
  "messages_post dp st c auth (Inr room) body s = (s', Ok p) \<Longrightarrow> \<exists>q. p = respond 201 (PostedBody q)"
  by (auto simp: messages_post_def try_res_def Let_def split: result.splits if_splits prod.splits)

lemma at_server_codec [simp]: "cl_codec (at_server W dp version st origin poll c) = wr_codec W"
  by (simp add: at_server_def)

definition bearing :: "session \<Rightarrow> nat list option" where
  "bearing ses = Some (bearer_header (ss_token ses))"

definition token_text :: "session \<Rightarrow> bool" where
  "token_text ses \<longleftrightarrow> list_all is_ascii_graphic (ss_token ses)"

lemma client_rooms_at:
  assumes "wire_ok W" and "origin_ok origin" and "token_text ses"
    and "rooms_list dp st c (bearing ses) s = (s', r)"
  shows "client_rooms (at_server W dp version st origin poll c) m \<lparr>cs_session = Some ses, cs_net = s\<rparr> =
    (\<lparr>cs_session = session_after (Some (ss_token ses)) r (m (Some ses)), cs_net = s'\<rparr>,
     settled W rooms_in (Some (ss_token ses)) r)"
proof -
  have dec: "decode (dec_rooms (wr_codec W)) (wr_encode W (RoomsBody rs)) = Ok rs" for rs
    using assms(1) by (simp add: wire_ok_def json_ok_def)
  show ?thesis unfolding client_rooms_def client_get_def at_server_codec
  proof (rule call_at_server [OF assms(1,2)])
    show "list_all is_ascii_graphic (lit ''/api/v1/rooms'')" by (simp add: is_ascii_graphic_def)
    show "router dp (wr_axum W) version st c rq s = finish (s', r)"
      if "rq = request_of origin (built origin MGet (lit ''/api/v1/rooms'') None (Some (ss_token ses)))" for rq
      using router_rooms [OF that, where st = st and c = c and s = s] assms(4) that by (simp add: request_authorization bearing_def)
    show "fails_properly (s', r)" using handlers_fail_properly(2) assms(4) by metis
    show "200 \<le> rs_status p \<and> rs_status p < 300 \<and>
        decode (dec_rooms (wr_codec W)) (wr_encode W (rs_body p)) = Ok (rooms_in (rs_body p))" if "r = Ok p" for p
      using rooms_list_Ok [OF assms(4) [unfolded that]] dec by (auto simp: respond_def rooms_in_def)
  qed (use assms(3) in \<open>simp_all add: token_of_def token_text_def\<close>)
qed

lemma client_messages_at:
  assumes "wire_ok W" and "origin_ok origin" and "token_text ses" and "unat limit < 2 ^ 32"
    and "messages_list dp st c (bearing ses) (Inr (room_id_get room)) (Inr (page_of limit cur)) s = (s', r)"
  shows "client_messages (at_server W dp version st origin poll c) m room limit cur \<lparr>cs_session = Some ses, cs_net = s\<rparr> =
    (\<lparr>cs_session = session_after (Some (ss_token ses)) r (m (Some ses)), cs_net = s'\<rparr>,
     settled W messages_in (Some (ss_token ses)) r)"
proof -
  have dec: "decode (dec_messages (wr_codec W)) (wr_encode W (MessagesBody ms)) = Ok ms" for ms
    using assms(1) by (simp add: wire_ok_def json_ok_def)
  have ex: "extracts_ok W" using assms(1) by (simp add: wire_ok_def)
  show ?thesis unfolding client_messages_def client_get_def at_server_codec
  proof (rule call_at_server [OF assms(1,2) messages_uri_graphic])
    show "router dp (wr_axum W) version st c rq s = finish (s', r)"
      if "rq = request_of origin (built origin MGet (messages_uri room limit cur) None (Some (ss_token ses)))" for rq
      using router_messages [OF ex assms(4) that, where st = st and c = c and s = s] assms(5) that by (simp add: request_authorization bearing_def)
    show "fails_properly (s', r)" using handlers_fail_properly(3) assms(5) by metis
    show "200 \<le> rs_status p \<and> rs_status p < 300 \<and>
        decode (dec_messages (wr_codec W)) (wr_encode W (rs_body p)) = Ok (messages_in (rs_body p))" if "r = Ok p" for p
      using messages_list_Ok [OF assms(5) [unfolded that]] dec by (auto simp: respond_def messages_in_def)
  qed (use assms(3) in \<open>simp_all add: token_of_def token_text_def\<close>)
qed

lemma client_send_at:
  assumes "wire_ok W" and "origin_ok origin" and "token_text ses" and "enc_post (wr_codec W) \<lparr>pm_body = body\<rparr> = Inr b"
    and "messages_post dp st c (bearing ses) (Inr (room_id_get room)) (Inr \<lparr>pm_body = body\<rparr>) s = (s', r)"
  shows "client_send (at_server W dp version st origin poll c) m room body \<lparr>cs_session = Some ses, cs_net = s\<rparr> =
    (\<lparr>cs_session = session_after (Some (ss_token ses)) r (m (Some ses)), cs_net = s'\<rparr>,
     settled W posted_in (Some (ss_token ses)) r)"
proof -
  have dec: "decode (dec_posted (wr_codec W)) (wr_encode W (PostedBody q)) = Ok q" for q
    using assms(1) by (simp add: wire_ok_def json_ok_def)
  have ex: "extracts_ok W" using assms(1) by (simp add: wire_ok_def)
  have json: "rq_body rq = b \<Longrightarrow> ax_json_post (wr_axum W) rq = Inr \<lparr>pm_body = body\<rparr>" for rq
    using assms(1,4) by (simp add: wire_ok_def json_ok_def)
  have "(let (st', out) = execute (at_server W dp version st origin poll c) m MPost (messages_path room) (Some b) AuthRequired
        \<lparr>cs_session = Some ses, cs_net = s\<rparr> in (st', bind_res out (decode (dec_posted (wr_codec W))))) =
    (\<lparr>cs_session = session_after (Some (ss_token ses)) r (m (Some ses)), cs_net = s'\<rparr>,
     settled W posted_in (Some (ss_token ses)) r)"
  proof (rule call_at_server [OF assms(1,2) messages_path_graphic])
    show "router dp (wr_axum W) version st c rq s = finish (s', r)"
      if "rq = request_of origin (built origin MPost (messages_path room) (Some b) (Some (ss_token ses)))" for rq
      using router_send [OF ex that, where st = st and c = c and s = s] assms(5) json [of rq] that
      by (simp add: request_authorization request_body bearing_def)
    show "fails_properly (s', r)" using handlers_fail_properly(4) assms(5) by metis
    show "200 \<le> rs_status p \<and> rs_status p < 300 \<and>
        decode (dec_posted (wr_codec W)) (wr_encode W (rs_body p)) = Ok (posted_in (rs_body p))" if "r = Ok p" for p
      using messages_post_Ok [OF assms(5) [unfolded that]] dec by (auto simp: respond_def posted_in_def)
  qed (use assms(3) in \<open>simp_all add: token_of_def token_text_def\<close>)
  then show ?thesis by (simp add: client_send_def client_post_def assms(4))
qed

definition login_in :: "resp_body \<Rightarrow> login_response" where
  "login_in b = (case b of LoginBody lr \<Rightarrow> lr | _ \<Rightarrow> \<lparr>lr_token = [], lr_expires_at = UnixMillis 0\<rparr>)"

lemma client_login_at:
  assumes "wire_ok W" and "origin_ok origin" and "enc_login (wr_codec W) \<lparr>log_username = u, log_password = pw\<rparr> = Inr b"
    and "login dp st c (Inr \<lparr>log_username = u, log_password = pw\<rparr>) s = (s', r)"
  shows "client_post (at_server W dp version st origin poll c) m (enc_login (wr_codec W) \<lparr>log_username = u, log_password = pw\<rparr>)
      (dec_login (wr_codec W)) (lit ''/api/v1/login'') AuthNone \<lparr>cs_session = ses, cs_net = s\<rparr> =
    (\<lparr>cs_session = m ses, cs_net = s'\<rparr>, settled W login_in None r)"
proof -
  have dec: "decode (dec_login (wr_codec W)) (wr_encode W (LoginBody lr)) = Ok lr" for lr
    using assms(1) by (simp add: wire_ok_def json_ok_def)
  have json: "rq_body rq = b \<Longrightarrow> ax_json_login (wr_axum W) rq = Inr \<lparr>log_username = u, log_password = pw\<rparr>" for rq
    using assms(1,3) by (simp add: wire_ok_def json_ok_def)
  have "(let (st', out) = execute (at_server W dp version st origin poll c) m MPost (lit ''/api/v1/login'') (Some b) AuthNone
        \<lparr>cs_session = ses, cs_net = s\<rparr> in (st', bind_res out (decode (dec_login (wr_codec W))))) =
    (\<lparr>cs_session = session_after None r (m ses), cs_net = s'\<rparr>, settled W login_in None r)"
  proof (rule call_at_server [OF assms(1,2)])
    show "list_all is_ascii_graphic (lit ''/api/v1/login'')" by (simp add: is_ascii_graphic_def)
    show "router dp (wr_axum W) version st c rq s = finish (s', r)"
      if "rq = request_of origin (built origin MPost (lit ''/api/v1/login'') (Some b) None)" for rq
      using router_login [OF that, where st = st and c = c and s = s] assms(4) json [of rq] that
      by (simp add: request_body)
    show "fails_properly (s', r)" using handlers_fail_properly(1) assms(4) by metis
    show "200 \<le> rs_status p \<and> rs_status p < 300 \<and>
        decode (dec_login (wr_codec W)) (wr_encode W (rs_body p)) = Ok (login_in (rs_body p))" if "r = Ok p" for p
      using login_LoginBody [OF assms(4) [unfolded that]] dec by (auto simp: respond_def login_in_def)
  qed simp_all
  then show ?thesis by (simp add: client_post_def assms(3) session_after_def)
qed

lemma client_login_ok:
  assumes "wire_ok W" and "origin_ok origin"
    and "client_login (at_server W dp version st origin poll c) m u pw \<lparr>cs_session = ses, cs_net = s\<rparr> = (cst, Ok info)"
  shows "\<exists>t. issue dp (as_tokens st) (call_clock c) u = Ok (t, sn_expires_at info) \<and> sn_username info = u \<and>
    cst = \<lparr>cs_session = Some \<lparr>ss_token = t, ss_info = info\<rparr>, cs_net = s\<rparr>"
proof -
  let ?q = "\<lparr>log_username = u, log_password = pw\<rparr>"
  obtain s' r where run: "login dp st c (Inr ?q) s = (s', r)" by fastforce
  have s': "s' = s" using login_store [OF run] .
  obtain b where b: "enc_login (wr_codec W) ?q = Inr b"
    using assms(3) by (cases "enc_login (wr_codec W) ?q") (auto simp: client_login_def client_post_def)
  note post = client_login_at [OF assms(1,2) b run, where version = version and poll = poll and m = m and ses = ses]
  obtain p where r: "r = Ok p"
    using assms(3) post by (cases r) (auto simp: client_login_def settled_def)
  obtain t e where i: "issue dp (as_tokens st) (call_clock c) u = Ok (t, e)"
    and p: "p = respond 200 (LoginBody \<lparr>lr_token = t, lr_expires_at = e\<rparr>)"
    using login_LoginBody [OF run [unfolded r]] by auto
  have "client_login (at_server W dp version st origin poll c) m u pw \<lparr>cs_session = ses, cs_net = s\<rparr> =
      (\<lparr>cs_session = Some \<lparr>ss_token = t, ss_info = \<lparr>sn_username = u, sn_expires_at = e\<rparr>\<rparr>, cs_net = s\<rparr>,
       Ok \<lparr>sn_username = u, sn_expires_at = e\<rparr>)"
    using post by (simp add: client_login_def settled_def r p respond_def login_in_def store_session_def s' Let_def)
  then show ?thesis using i assms(3) by auto
qed

section \<open>A concrete wire\<close>

text \<open>
  For the concrete instances: a body is the number of the tuple it stands for, and numbers in paths
  and queries are read digit by digit.
\<close>

definition message_tuple :: "message \<Rightarrow> nat \<times> rstr \<times> rstr \<times> nat" where
  "message_tuple m = (unat (seq_get (msg_seq m)), msg_username m, msg_body m, unat (millis_get (msg_posted_at m)))"

definition tuple_message :: "nat \<times> rstr \<times> rstr \<times> nat \<Rightarrow> message" where
  "tuple_message = (\<lambda>(s, u, b, p). \<lparr>msg_seq = Seq (of_nat s), msg_username = u, msg_body = b, msg_posted_at = UnixMillis (of_nat p)\<rparr>)"

definition room_tuple :: "room \<Rightarrow> nat \<times> rstr \<times> nat" where
  "room_tuple r = (unat (room_id_get (rm_id r)), rm_name r, unat (seq_get (rm_latest_seq r)))"

definition tuple_room :: "nat \<times> rstr \<times> nat \<Rightarrow> room" where
  "tuple_room = (\<lambda>(i, n, s). \<lparr>rm_id = RoomId (of_nat i), rm_name = n, rm_latest_seq = Seq (of_nat s)\<rparr>)"

definition read_one :: "('t :: countable \<Rightarrow> 'a) \<Rightarrow> bytes \<Rightarrow> rstr + 'a" where
  "read_one f b = (case b of [n] \<Rightarrow> Inr (f (from_nat n)) | _ \<Rightarrow> Inl (lit ''not one number''))"

lemma read_one_to_nat [simp]: "read_one f [to_nat t] = Inr (f t)"
  by (simp add: read_one_def)

lemma tuples_back [simp]: "tuple_message (message_tuple m) = m" "tuple_room (room_tuple r) = r"
  by (simp_all add: tuple_message_def message_tuple_def tuple_room_def room_tuple_def)

lemma tuple_lists_back [simp]: "map (tuple_message \<circ> message_tuple) ms = ms" "map (tuple_room \<circ> room_tuple) rs = rs"
  by (simp_all add: comp_def)

definition demo_wire_codec :: codec where
  "demo_wire_codec =
     \<lparr>enc_register = (\<lambda>q. Inr [to_nat (reg_username q, reg_password q)]),
      enc_login = (\<lambda>q. Inr [to_nat (log_username q, log_password q)]),
      enc_create_room = (\<lambda>q. Inr [to_nat (cr_name q)]), enc_post = (\<lambda>q. Inr [to_nat (pm_body q)]),
      dec_ignored = (\<lambda>_. Inr ()),
      dec_login = read_one (\<lambda>(t, e). \<lparr>lr_token = t, lr_expires_at = UnixMillis (of_nat e)\<rparr>),
      dec_server = (\<lambda>_. Inl []), dec_rooms = read_one (map tuple_room), dec_room = read_one tuple_room,
      dec_posted = read_one (\<lambda>(s, p). \<lparr>pr_seq = Seq (of_nat s), pr_posted_at = UnixMillis (of_nat p)\<rparr>),
      dec_messages = read_one (map tuple_message),
      dec_error = read_one (\<lambda>(c, m). error_response_new (error_code_parse c) m), head_fault = (\<lambda>_. None)\<rparr>"

definition demo_query :: "rstr \<Rightarrow> page" where
  "demo_query q =
     (let r = drop 6 q; n = takeWhile (\<lambda>c. 48 \<le> c \<and> c \<le> 57) r; c = drop (length n) r in
      \<lparr>pg_limit = Some (of_nat (undec n)),
       pg_after_seq = (if take 11 c = lit ''&after_seq='' then Some (of_nat (undec (drop 11 c))) else None),
       pg_before_seq = (if take 12 c = lit ''&before_seq='' then Some (of_nat (undec (drop 12 c))) else None)\<rparr>)"

definition demo_wire :: wire where
  "demo_wire =
     \<lparr>wr_codec = demo_wire_codec,
      wr_axum = \<lparr>ax_path_u64 = (\<lambda>s. Inr (of_nat (undec s))), ax_query_page = (\<lambda>q. Inr (demo_query q)),
        ax_json_register = (\<lambda>rq. read_one (\<lambda>(u, p). \<lparr>reg_username = u, reg_password = p\<rparr>) (rq_body rq)),
        ax_json_login = (\<lambda>rq. read_one (\<lambda>(u, p). \<lparr>log_username = u, log_password = p\<rparr>) (rq_body rq)),
        ax_json_create_room = (\<lambda>rq. read_one (\<lambda>n. \<lparr>cr_name = n\<rparr>) (rq_body rq)),
        ax_json_post = (\<lambda>rq. read_one (\<lambda>b. \<lparr>pm_body = b\<rparr>) (rq_body rq)),
        ax_not_found = respond 404 NoBody, ax_not_allowed = respond 405 NoBody\<rparr>,
      wr_encode = (\<lambda>b. case b of
          LoginBody lr \<Rightarrow> [to_nat (lr_token lr, unat (millis_get (lr_expires_at lr)))]
        | RoomsBody rs \<Rightarrow> [to_nat (map room_tuple rs)] | RoomBody r \<Rightarrow> [to_nat (room_tuple r)]
        | MessagesBody ms \<Rightarrow> [to_nat (map message_tuple ms)]
        | PostedBody p \<Rightarrow> [to_nat (unat (seq_get (pr_seq p)), unat (millis_get (pr_posted_at p)))]
        | ErrorBody e \<Rightarrow> [to_nat (error_code_wire (ae_code (er_error e)), ae_message (er_error e))]
        | _ \<Rightarrow> []),
      wr_dropped = StreamResetErr (lit ''stream reset'')\<rparr>"

lemma demo_query_page: "demo_query (lit ''limit='' @ dec (unat limit) @ cursor_text c) = page_of limit c"
proof -
  have alone: "takeWhile (\<lambda>c. 48 \<le> c \<and> c \<le> 57) (dec (unat limit)) = dec (unat limit)"
    using dec_takeWhile [of "[]"] by simp
  show ?thesis
    by (cases c) (simp_all add: demo_query_def cursor_text_def page_of_def seq_display_def Let_def dec_takeWhile alone)
qed

lemma demo_json_ok: "json_ok demo_wire"
  by (auto simp: json_ok_def demo_wire_def demo_wire_codec_def decode_def error_response_new_def error_code_parse_known)

lemma demo_wire_ok: "wire_ok demo_wire"
proof -
  have "extracts_ok demo_wire" by (simp add: extracts_ok_def demo_wire_def demo_query_page del: lit_simps)
  moreover have "heads_ok demo_wire" by (simp add: heads_ok_def demo_wire_def demo_wire_codec_def)
  ultimately show ?thesis using demo_json_ok by (simp add: wire_ok_def)
qed

definition demo_origin :: rstr where
  "demo_origin = lit ''http://h''"

lemma demo_origin_ok: "origin_ok demo_origin"
  by (simp add: origin_ok_def demo_origin_def is_ascii_graphic_def)

definition demo_at :: "int \<Rightarrow> db chat_client" where
  "demo_at ns = at_server demo_wire demo_deps [] demo_server demo_origin poll_default (demo_call ns)"

section \<open>The session\<close>


lemma demo_client_login:
  "client_login (demo_at 5000000000) id (lit ''ann'') (lit ''h'') \<lparr>cs_session = None, cs_net = demo_db\<rparr> =
     (\<lparr>cs_session = Some \<lparr>ss_token = lit ''ann.86405'', ss_info = \<lparr>sn_username = lit ''ann'', sn_expires_at = UnixMillis 86405000\<rparr>\<rparr>,
       cs_net = demo_db\<rparr>, Ok \<lparr>sn_username = lit ''ann'', sn_expires_at = UnixMillis 86405000\<rparr>)"
proof -
  have enc: "enc_login (wr_codec demo_wire) \<lparr>log_username = lit ''ann'', log_password = lit ''h''\<rparr> =
      Inr [to_nat (lit ''ann'', lit ''h'')]"
    by (simp add: demo_wire_def demo_wire_codec_def)
  show ?thesis
    using client_login_at [OF demo_wire_ok demo_origin_ok enc demo_login_run [unfolded demo_login_def], where ses = None and m = id
        and version = "[]" and poll = poll_default]
    by (simp add: client_login_def demo_at_def settled_def respond_def login_in_def store_session_def Let_def del: lit_simps)
qed


section \<open>The calls and the handlers\<close>

text \<open>A call of a client that is logged in, had the handler been called in its place.\<close>

definition handled ::
  "wire \<Rightarrow> (session option \<Rightarrow> session option) \<Rightarrow> session \<Rightarrow> (resp_body \<Rightarrow> 'a) \<Rightarrow>
     's \<times> (http_error, response) result \<Rightarrow> 's client_state \<times> (chat_error, 'a) result" where
  "handled W m ses pick out =
     (\<lparr>cs_session = session_after (Some (ss_token ses)) (snd out) (m (Some ses)), cs_net = fst out\<rparr>,
      settled W pick (Some (ss_token ses)) (snd out))"


definition ann_session :: session where
  "ann_session = \<lparr>ss_token = lit ''ann.5'', ss_info = \<lparr>sn_username = lit ''ann'', sn_expires_at = UnixMillis 5000\<rparr>\<rparr>"

lemma demo_token_text: "token_text ann_session"
  by (simp add: token_text_def ann_session_def is_ascii_graphic_def)

lemma demo_enc_post: "enc_post (wr_codec demo_wire) \<lparr>pm_body = b\<rparr> = Inr [to_nat b]"
  by (simp add: demo_wire_def demo_wire_codec_def)


section \<open>Reading a room\<close>

text \<open>What a client's fetch of a page can return, over the store it leaves: on any wire, in any session.\<close>

definition fetches ::
  "caps \<Rightarrow> u64 \<Rightarrow> db \<Rightarrow> room_id \<Rightarrow> cursor \<Rightarrow> message list \<Rightarrow> bool" where
  "fetches k limit s' room cur ms \<longleftrightarrow>
     (\<exists>W origin dp version st poll c m ses s cst. wire_ok W \<and> origin_ok origin \<and> token_text ses \<and> db_ok s \<and>
        call_ok db_ok (db_steps k) c \<and> as_store st = sqlite_store k \<and> unat limit < 2 ^ 32 \<and>
        client_messages (at_server W dp version st origin poll c) m room limit cur \<lparr>cs_session = Some ses, cs_net = s\<rparr>
          = (cst, Ok ms) \<and> cs_net cst = s')"

definition client_page :: "caps \<Rightarrow> poll_config \<Rightarrow> db \<Rightarrow> room_id \<Rightarrow> seq \<Rightarrow> message list \<Rightarrow> bool" where
  "client_page k p s' room a ms \<longleftrightarrow> fetches k (page_size p) s' room (AfterC a) ms"

definition client_newest :: "caps \<Rightarrow> poll_config \<Rightarrow> db \<Rightarrow> room_id \<Rightarrow> message list \<Rightarrow> bool" where
  "client_newest k p s' room ms \<longleftrightarrow> fetches k (page_size p) s' room NewestC ms"

lemma handled_Ok:
  "handled W m ses pick out = (cst, Ok x) \<longleftrightarrow>
     (\<exists>p. snd out = Ok p \<and> x = pick (rs_body p)) \<and> cst = \<lparr>cs_session = m (Some ses), cs_net = fst out\<rparr>"
  by (cases "snd out") (auto simp: handled_def settled_def session_after_def)

lemma client_messages_Ok:
  assumes "wire_ok W" and "origin_ok origin" and "token_text ses" and "unat limit < 2 ^ 32"
    and "client_messages (at_server W dp version st origin poll c) m room limit cur \<lparr>cs_session = Some ses, cs_net = s\<rparr> = (cst, Ok ms)"
  shows "messages_list dp st c (bearing ses) (Inr (room_id_get room)) (Inr (page_of limit cur)) s =
    (cs_net cst, Ok (respond 200 (MessagesBody ms)))"
proof -
  let ?out = "messages_list dp st c (bearing ses) (Inr (room_id_get room)) (Inr (page_of limit cur)) s"
  have "handled W m ses messages_in ?out = (cst, Ok ms)"
    using client_messages_at [OF assms(1-4) prod.collapse [symmetric], where dp = dp and st = st and c = c and s = s and m = m and
      version = version and poll = poll and room = room and cur = cur] assms(5)
    by (simp add: handled_def)
  then obtain p where p: "snd ?out = Ok p" "ms = messages_in (rs_body p)" "cs_net cst = fst ?out"
    by (auto simp: handled_Ok)
  then have out: "?out = (cs_net cst, Ok p)" by (simp add: prod_eq_iff)
  obtain ns where "p = respond 200 (MessagesBody ns)" using messages_list_Ok [OF out] by blast
  then show ?thesis using out p(2) by (simp add: respond_def messages_in_def)
qed

lemma client_send_Ok:
  assumes "wire_ok W" and "origin_ok origin" and "token_text ses" and "enc_post (wr_codec W) \<lparr>pm_body = body\<rparr> = Inr b"
    and "client_send (at_server W dp version st origin poll c) m room body \<lparr>cs_session = Some ses, cs_net = s\<rparr> = (cst, Ok q)"
  shows "messages_post dp st c (bearing ses) (Inr (room_id_get room)) (Inr \<lparr>pm_body = body\<rparr>) s =
    (cs_net cst, Ok (respond 201 (PostedBody q)))"
proof -
  let ?out = "messages_post dp st c (bearing ses) (Inr (room_id_get room)) (Inr \<lparr>pm_body = body\<rparr>) s"
  have "handled W m ses posted_in ?out = (cst, Ok q)"
    using client_send_at [OF assms(1-4) prod.collapse [symmetric], where dp = dp and st = st and c = c and s = s and m = m and
      version = version and poll = poll and room = room] assms(5)
    by (simp add: handled_def)
  then obtain p where p: "snd ?out = Ok p" "q = posted_in (rs_body p)" "cs_net cst = fst ?out"
    by (auto simp: handled_Ok)
  then have out: "?out = (cs_net cst, Ok p)" by (simp add: prod_eq_iff)
  obtain q' where "p = respond 201 (PostedBody q')" using messages_post_Ok [OF out] by blast
  then show ?thesis using out p(2) by (simp add: respond_def posted_in_def)
qed

lemma client_page_api:
  assumes "client_page k p s' room a ms"
  shows "api_page k s' room a ms"
proof -
  from assms obtain W origin dp version st poll c m ses s cst where
    ok: "wire_ok W" "origin_ok origin" "token_text ses" "unat (page_size p) < 2 ^ 32"
    and db: "db_ok s" "call_ok db_ok (db_steps k) c" "as_store st = sqlite_store k"
    and run: "client_messages (at_server W dp version st origin poll c) m room (page_size p) (AfterC a)
      \<lparr>cs_session = Some ses, cs_net = s\<rparr> = (cst, Ok ms)" "cs_net cst = s'"
    unfolding client_page_def fetches_def by blast
  have "pg_after_seq (page_of (page_size p) (AfterC a)) = Some (seq_get a)" "pg_before_seq (page_of (page_size p) (AfterC a)) = None"
    by (simp_all add: page_of_def)
  then show ?thesis using client_messages_Ok [OF ok run(1)] db run(2) unfolding api_page_def by blast
qed

lemma client_newest_api:
  assumes "client_newest k p s' room ms"
  shows "api_newest k s' room ms"
proof -
  from assms obtain W origin dp version st poll c m ses s cst where
    ok: "wire_ok W" "origin_ok origin" "token_text ses" "unat (page_size p) < 2 ^ 32"
    and db: "db_ok s" "call_ok db_ok (db_steps k) c" "as_store st = sqlite_store k"
    and run: "client_messages (at_server W dp version st origin poll c) m room (page_size p) NewestC
      \<lparr>cs_session = Some ses, cs_net = s\<rparr> = (cst, Ok ms)" "cs_net cst = s'"
    unfolding client_newest_def fetches_def by blast
  have "pg_after_seq (page_of (page_size p) NewestC) = None" "pg_before_seq (page_of (page_size p) NewestC) = None"
    by (simp_all add: page_of_def)
  then show ?thesis using client_messages_Ok [OF ok run(1)] db run(2) unfolding api_newest_def by blast
qed

interpretation client_feed: room_feed db_ok "db_steps k" room_log "client_newest k p" "client_page k p"
  "page_size p" "int (pc_messages_interval p)" for k p
proof unfold_locales
  show "\<exists>j. ms = drop j (room_log s r) \<and> (ms = [] \<longrightarrow> room_log s r = [])" if "db_ok s" "client_newest k p s r ms" for s r ms
    using api_log.newest_back [OF that(1) client_newest_api [OF that(2)]] .
  show "\<exists>j>0. ms = take j (beyond a (room_log s r))" if "db_ok s" "client_page k p s r a ms" for s r a ms
    using api_log.page_front [OF that(1) client_page_api [OF that(2)]] .
qed (auto simp: page_size_pos intro: api_log.log_sorted api_log.log_positive dest: db_steps_ok room_log_extends)

lemma page_limit_of:
  assumes "1 \<le> unat limit" and "unat limit \<le> 200"
  shows "unat (page_limit (page_of limit cur)) = unat limit"
proof -
  have small: "unat (ucast limit :: u32) = unat limit"
    using assms(2) by (simp add: unsigned_ucast_eq take_bit_nat_eq_self)
  then have "(1 :: u32) \<le> ucast limit" "(ucast limit :: u32) \<le> MAX_LIMIT"
    using assms by (simp_all add: word_le_nat_alt MAX_LIMIT_def)
  then show ?thesis using small by (simp add: page_limit_def page_of_def)
qed

lemma demo_read:
  assumes "db_ok d" and "room_known d (RoomId 1)"
  shows "client_messages (demo_at 0) id (RoomId 1) 50 NewestC \<lparr>cs_session = Some ann_session, cs_net = d\<rparr> =
      (\<lparr>cs_session = Some ann_session, cs_net = d\<rparr>, Ok (last_n 50 (room_log d (RoomId 1))))"
    and "client_messages (demo_at 0) id (RoomId 1) 50 (AfterC (Seq 1)) \<lparr>cs_session = Some ann_session, cs_net = d\<rparr> =
      (\<lparr>cs_session = Some ann_session, cs_net = d\<rparr>, Ok (take 50 (beyond (Seq 1) (room_log d (RoomId 1)))))"
proof -
  have "messages_list demo_deps demo_server (demo_call 0) (bearing ann_session) (Inr (room_id_get (RoomId 1))) (Inr (page_of 50 cur)) d =
      (d, Ok (respond 200 (MessagesBody (if cur = NewestC then last_n 50 (room_log d (RoomId 1))
        else take 50 (beyond (Seq 1) (room_log d (RoomId 1)))))))" if "cur = NewestC \<or> cur = AfterC (Seq 1)" for cur
  proof -
    have "unat (page_limit (page_of 50 cur)) = 50" using page_limit_of [of 50] by simp
    moreover have "pg_after_seq (page_of 50 cur) = (if cur = NewestC then None else Some 1)" "pg_before_seq (page_of 50 cur) = None"
      using that by (auto simp: page_of_def)
    moreover have "authenticated demo_deps (as_tokens demo_server) 0 (bearing ann_session) = Ok (lit ''ann'')"
      using demo_auth by (simp add: bearing_def ann_session_def)
    ultimately show ?thesis
      using room_exists_eq [of "calm_env 0" "RoomId 1" d] messages_after_eq [OF assms(1), of "calm_env 0"]
        messages_newest_eq [OF assms(1), of "calm_env 0"] assms(2)
      by (auto simp: messages_list_def demo_call_def calm_env_def i64_max_eq sqlite_store_def demo_server_def)
  qed
  note run = this
  show "client_messages (demo_at 0) id (RoomId 1) 50 NewestC \<lparr>cs_session = Some ann_session, cs_net = d\<rparr> =
      (\<lparr>cs_session = Some ann_session, cs_net = d\<rparr>, Ok (last_n 50 (room_log d (RoomId 1))))"
    using client_messages_at [OF demo_wire_ok demo_origin_ok demo_token_text _ run]
    by (simp add: demo_at_def session_after_def settled_def respond_def messages_in_def)
  show "client_messages (demo_at 0) id (RoomId 1) 50 (AfterC (Seq 1)) \<lparr>cs_session = Some ann_session, cs_net = d\<rparr> =
      (\<lparr>cs_session = Some ann_session, cs_net = d\<rparr>, Ok (take 50 (beyond (Seq 1) (room_log d (RoomId 1)))))"
    using client_messages_at [OF demo_wire_ok demo_origin_ok demo_token_text _ run]
    by (simp add: demo_at_def session_after_def settled_def respond_def messages_in_def)
qed

lemma demo_lobby: "room_known demo_db (RoomId 1)"
  by (simp add: room_known_def demo_db_def)

lemma demo_client_page:
  "client_page demo_caps poll_default demo_db (RoomId 1) (Seq 1)
     (take 50 (beyond (Seq 1) (room_log demo_db (RoomId 1))))"
proof -
  have "page_size poll_default = 50" "unat (50 :: u64) < 2 ^ 32" "as_store demo_server = sqlite_store demo_caps"
    by (simp_all add: page_size_def poll_default_def demo_server_def)
  then show ?thesis
    unfolding client_page_def fetches_def
    using demo_wire_ok demo_origin_ok demo_token_text demo_db_ok demo_call_ok [of _ 0]
      demo_read(2) [OF demo_db_ok demo_lobby, unfolded demo_at_def] client_state.select_convs(2)
    by metis
qed

text \<open>C11: Watching a room over the wire: fed by the client's own fetches, each a request the router
  answers and the codec carries back, a feed hands over exactly the messages the store holds after
  the cursor it was opened at, each once, in order, whatever is posted meanwhile and whichever of its
  calls are dropped or fail; what remains is what lies past its cursor.\<close>

theorem watch_exactly_once:
  assumes "db_ok s" and "client_page k p s r c0 ms"
    and "(feed_step (db_steps k) (client_page k p) (page_size p) (int (pc_messages_interval p)))\<^sup>*\<^sup>*
      (feed_opened s t (watch_open (page_size p) r (SinceAfter c0) ms)) run"
  shows "db_ok (fr_server run) \<and>
    beyond c0 (room_log (fr_server run) r) =
      fr_got run @ mf_holding (fr_feed run) @ beyond (mf_cursor (fr_feed run)) (room_log (fr_server run) r)"
proof -
  have "client_feed.feed_inv r c0 run"
    using client_feed.feed_inv_steps [OF assms(3)] client_feed.feed_opened_after [OF assms(1,2)] by blast
  then show ?thesis using client_feed.feed_exact by (auto simp: client_feed.feed_inv_def)
qed

corollary watch_exactly_once_witness:
  "beyond (Seq 1) (room_log demo_db (RoomId 1)) =
     [\<lparr>msg_seq = Seq 2, msg_username = lit ''Ann'', msg_body = lit ''yo'', msg_posted_at = UnixMillis 7\<rparr>] @
     beyond (Seq 2) (room_log demo_db (RoomId 1))"
  using watch_exactly_once [OF demo_db_ok demo_client_page rtranclp.rtrancl_refl]
  by (simp add: feed_opened_def watch_open_def) (simp add: room_log_def demo_db_def message_of_def beyond_def)

text \<open>C13: A message sent through the client is read back through the client: whatever the store goes
  through between the two calls, a page of the newest messages holds it with the number, the time and
  the body the sender was told, under the name the sender's token stands for, unless as many messages
  as fill the page were posted after it.\<close>

theorem send_then_read:
  assumes "wire_ok W" and "origin_ok origin" and "token_text ses" and "enc_post (wr_codec W) \<lparr>pm_body = body\<rparr> = Inr b"
    and "db_ok s" and "call_ok db_ok (db_steps k) c" and "as_store st = sqlite_store k"
    and "client_send (at_server W dp version st origin poll c) m room body \<lparr>cs_session = Some ses, cs_net = s\<rparr> = (cst, Ok p)"
    and "db_steps k (cs_net cst) s2" and "wire_ok W2" and "origin_ok origin2" and "token_text ses2"
    and "call_ok db_ok (db_steps k) c2" and "1 \<le> unat limit" and "unat limit \<le> 200" and "as_store st2 = sqlite_store k"
    and "client_messages (at_server W2 dp2 version2 st2 origin2 poll2 c2) m2 room limit NewestC \<lparr>cs_session = Some ses2, cs_net = s2\<rparr>
      = (cst2, Ok ms)"
  shows "\<exists>u later. authenticated dp (as_tokens st) (call_clock c) (bearing ses) = Ok u \<and>
    room_log (cs_net cst2) room = room_log s room @
      \<lparr>msg_seq = pr_seq p, msg_username = u, msg_body = body, msg_posted_at = pr_posted_at p\<rparr> # later \<and>
    (length later < unat limit \<longrightarrow>
      \<lparr>msg_seq = pr_seq p, msg_username = u, msg_body = body, msg_posted_at = pr_posted_at p\<rparr> \<in> set ms)"
proof -
  have small: "unat limit < 2 ^ 32" using assms(15) by simp
  note posted = client_send_Ok [OF assms(1-4,8)]
  note read = client_messages_Ok [OF assms(10-12) small assms(17)]
  obtain u where u: "authenticated dp (as_tokens st) (call_clock c) (bearing ses) = Ok u"
    and log1: "room_log (cs_net cst) room = room_log s room @
      [\<lparr>msg_seq = pr_seq p, msg_username = u, msg_body = body, msg_posted_at = pr_posted_at p\<rparr>]"
    using sqlite.messages_post_created [OF assms(5-7) posted] by (auto simp: respond_def)
  have steps1: "db_steps k s (cs_net cst)" using sqlite.messages_post_grows [OF assms(5-7) posted] .
  then have ok2: "db_ok s2" using db_steps_ok assms(5,9) by blast
  have "db_steps k s2 (cs_net cst2)"
    using messages_list_store [OF read] assms(13) ok2 by (auto simp: call_ok_def)
  then have "db_steps k (cs_net cst) (cs_net cst2)" using assms(9) by (rule rtranclp_trans [rotated])
  then obtain later where later: "room_log (cs_net cst2) room = room_log (cs_net cst) room @ later"
    using db_steps_ok steps1 assms(5) room_log_extends by blast
  have "unat (page_limit (page_of limit NewestC)) = unat limit" by (rule page_limit_of [OF assms(14,15)])
  then have "ms = last_n (unat limit) (room_log (cs_net cst2) room)"
    using sqlite.messages_list_page [OF ok2 assms(13,16) read] by (auto simp: page_of_def respond_body_inj)
  then show ?thesis using u log1 later by (intro exI [of _ u] exI [of _ later]) (auto simp: last_n_def)
qed

definition demo_said :: message where
  "demo_said = \<lparr>msg_seq = Seq 3, msg_username = lit ''ann'', msg_body = lit ''hey'', msg_posted_at = UnixMillis 0\<rparr>"

lemma demo_send:
  "\<exists>d. client_send (demo_at 0) id (RoomId 1) (lit ''hey'') \<lparr>cs_session = Some ann_session, cs_net = demo_db\<rparr> =
     (\<lparr>cs_session = Some ann_session, cs_net = d\<rparr>, Ok \<lparr>pr_seq = Seq 3, pr_posted_at = UnixMillis 0\<rparr>) \<and>
     db_ok d \<and> room_known d (RoomId 1) \<and> length (room_log d (RoomId 1)) = Suc (length (room_log demo_db (RoomId 1)))"
proof -
  let ?b = "Inr \<lparr>pm_body = lit ''hey''\<rparr>"
  have auth: "authenticated demo_deps (as_tokens demo_server) 0 (bearing ann_session) = Ok (lit ''ann'')"
    using demo_auth by (simp add: bearing_def ann_session_def)
  have "\<exists>d. post_message (calm_env 0) (RoomId 1) (lit ''ann'') (lit ''hey'') demo_db =
      (d, Ok \<lparr>pr_seq = Seq 3, pr_posted_at = UnixMillis 0\<rparr>)"
    by (simp add: post_message_def to_column_def i64_max_eq timestamp_column_Ok calm_env_def sql_insert_message_def
        col_seq_def col_millis_def from_column_def demo_db_def)
  then obtain d where d: "messages_post demo_deps demo_server (demo_call 0) (bearing ann_session) (Inr (room_id_get (RoomId 1))) ?b demo_db =
      (d, Ok (respond 201 (PostedBody \<lparr>pr_seq = Seq 3, pr_posted_at = UnixMillis 0\<rparr>)))"
    using auth by (auto simp: messages_post_def demo_call_def demo_server_def sqlite_store_def demo_config_def str_len_def utf8_char.simps)
  have st: "as_store demo_server = sqlite_store demo_caps" by (simp add: demo_server_def)
  have "db_steps demo_caps demo_db d" using sqlite.messages_post_grows [OF demo_db_ok demo_call_ok st d] .
  then have "db_ok d \<and> room_known d (RoomId 1)"
    using db_steps_ok demo_db_ok demo_lobby room_known_extends by blast
  moreover have "length (room_log d (RoomId 1)) = Suc (length (room_log demo_db (RoomId 1)))"
    using sqlite.messages_post_created [OF demo_db_ok demo_call_ok st d] by auto
  ultimately show ?thesis
    using client_send_at [OF demo_wire_ok demo_origin_ok demo_token_text demo_enc_post d, where m = id]
    by (auto simp: demo_at_def session_after_def settled_def respond_def posted_in_def simp del: lit_simps)
qed

corollary send_then_read_witness:
  "\<exists>d ms. client_messages (demo_at 0) id (RoomId 1) 50 NewestC
       (fst (client_send (demo_at 0) id (RoomId 1) (lit ''hey'') \<lparr>cs_session = Some ann_session, cs_net = demo_db\<rparr>)) =
     (\<lparr>cs_session = Some ann_session, cs_net = d\<rparr>, Ok ms) \<and> demo_said \<in> set ms"
proof -
  let ?start = "\<lparr>cs_session = Some ann_session, cs_net = demo_db\<rparr>"
  obtain d where d: "client_send (demo_at 0) id (RoomId 1) (lit ''hey'') ?start =
      (\<lparr>cs_session = Some ann_session, cs_net = d\<rparr>, Ok \<lparr>pr_seq = Seq 3, pr_posted_at = UnixMillis 0\<rparr>)"
    "db_ok d" "room_known d (RoomId 1)" "length (room_log d (RoomId 1)) = Suc (length (room_log demo_db (RoomId 1)))"
    using demo_send by blast
  note read = demo_read(1) [OF d(2,3)]
  have st: "as_store demo_server = sqlite_store demo_caps" by (simp add: demo_server_def)
  have auth: "authenticated demo_deps (as_tokens demo_server) (call_clock (demo_call 0)) (bearing ann_session) = Ok (lit ''ann'')"
    using demo_auth by (simp add: bearing_def ann_session_def demo_call_def)
  have "db_steps demo_caps d d" "1 \<le> unat (50 :: u64)" "unat (50 :: u64) \<le> 200" by simp_all
  from send_then_read [OF demo_wire_ok demo_origin_ok demo_token_text demo_enc_post demo_db_ok demo_call_ok st
      d(1) [unfolded demo_at_def] _ demo_wire_ok demo_origin_ok demo_token_text demo_call_ok this(2,3) st read [unfolded demo_at_def]]
  obtain later where later: "room_log d (RoomId 1) = room_log demo_db (RoomId 1) @ demo_said # later"
      "length later < 50 \<longrightarrow> demo_said \<in> set (last_n 50 (room_log d (RoomId 1)))"
    using auth by (auto simp: demo_said_def)
  have "demo_said \<in> set (last_n 50 (room_log d (RoomId 1)))" using later d(4) by simp
  then show ?thesis using d(1) read by (simp del: lit_simps) 
qed

end
