(* ===== verification/App_Work.thy ===== *)
theory App_Work
  imports App Transport
begin

text \<open>
  What the terminal client's tasks do with a client (the \<open>async\<close> blocks of
  crates/chat-ui-ratatui/src/app.rs), how a client is built for a configuration (\<open>ChatClient::new\<close>)
  and how its feeds are opened (\<open>watch_room_messages\<close>, \<open>watch_rooms\<close>).
\<close>

section \<open>Building a client\<close>

text \<open>The libraries a client is built over: whether reqwest can build its client, and the two wires.\<close>

record 'n net_libs =
  nl_url :: url_lib
  nl_codec :: codec
  nl_tcp :: "rstr + 'n transport_fn"
  nl_scion :: scion_libs
  nl_scion_wire :: "scion_settings \<Rightarrow> 'n transport_fn"

definition tcp_new :: "'n net_libs \<Rightarrow> (chat_error, 'n transport_fn) result" where
  "tcp_new N = (case nl_tcp N of Inl e \<Rightarrow> Err (ConfigErr e) | Inr wire \<Rightarrow> Ok wire)"

definition new_with_transport :: "codec \<Rightarrow> 'n transport_fn \<Rightarrow> rstr \<Rightarrow> poll_config \<Rightarrow> 'n chat_client" where
  "new_with_transport cd wire server_url poll =
     \<lparr>cl_transport = wire, cl_server_url = server_url, cl_poll = poll, cl_codec = cd\<rparr>"

definition client_new :: "'n net_libs \<Rightarrow> client_config \<Rightarrow> (chat_error, 'n chat_client) result" where
  "client_new N c =
     map_res (\<lambda>wire. new_with_transport (nl_codec N) wire (cc_server_url c) (cc_poll c))
       (case cc_transport c of
          TcpKind \<Rightarrow> tcp_new N
        | ScionKind sc \<Rightarrow> map_res (nl_scion_wire N) (scion_new (nl_scion N) sc (cc_server_url c)))"

section \<open>Opening a feed\<close>

definition watch_room_messages ::
  "'n chat_client \<Rightarrow> (session option \<Rightarrow> session option) \<Rightarrow> room_id \<Rightarrow> since
     \<Rightarrow> 'n client_state \<Rightarrow> 'n client_state \<times> (chat_error, messages_feed) result" where
  "watch_room_messages cl m room since st =
     (let psize = page_size (cl_poll cl);
          (st', fetched) = client_messages cl m room psize (watch_cursor since) st
      in (st', map_res (watch_open psize room since) fetched))"

definition watch_rooms ::
  "'n chat_client \<Rightarrow> (session option \<Rightarrow> session option)
     \<Rightarrow> 'n client_state \<Rightarrow> 'n client_state \<times> (chat_error, rooms_feed) result" where
  "watch_rooms cl m st = (let (st', fetched) = client_rooms cl m st in (st', map_res watch_rooms_open fetched))"

section \<open>The tasks\<close>

text \<open>
  What the calls of a task meet: the client as each finds it, what becomes of the session while each
  is on its way, and of everything between the two.
\<close>

record 'n meets =
  me_libs :: "'n net_libs"
  me_first :: "'n chat_client \<Rightarrow> 'n chat_client"
  me_second :: "'n chat_client \<Rightarrow> 'n chat_client"
  me_session1 :: "session option \<Rightarrow> session option"
  me_session2 :: "session option \<Rightarrow> session option"
  me_between :: "'n client_state \<Rightarrow> 'n client_state"
  me_clock :: int

text \<open>A client is built with no session of its own, and kept only if the server answers it.\<close>

definition connect_work ::
  "'n meets \<Rightarrow> connection_form \<Rightarrow> 'n client_state \<Rightarrow> 'n client_state \<times> (chat_error, 'n chat_client) result" where
  "connect_work M form st =
     (case bind_res (connect_config (nl_url (me_libs M)) form) (client_new (me_libs M)) of
        Err e \<Rightarrow> (st, Err e)
      | Panic p \<Rightarrow> (st, Panic p)
      | Ok cl \<Rightarrow>
          (case client_health cl (me_session1 M) (st\<lparr>cs_session := None\<rparr>) of
             (st', Ok _) \<Rightarrow> (st', Ok cl)
           | (st', Err e) \<Rightarrow> (st\<lparr>cs_net := cs_net st'\<rparr>, Err e)
           | (st', Panic p) \<Rightarrow> (st\<lparr>cs_net := cs_net st'\<rparr>, Panic p)))"

text \<open>The first \<open>next\<close> of a feed just opened hands over the list it holds.\<close>

definition log_in_work ::
  "'n meets \<Rightarrow> 'n chat_client \<Rightarrow> rstr \<Rightarrow> rstr \<Rightarrow> 'n client_state
     \<Rightarrow> 'n client_state \<times> (chat_error, rooms_feed \<times> room list) result" where
  "log_in_work M cl username password st =
     (case client_login (me_first M cl) (me_session1 M) username password st of
        (st, Err e) \<Rightarrow> (st, Err e)
      | (st, Panic p) \<Rightarrow> (st, Panic p)
      | (st, Ok _) \<Rightarrow>
          (case watch_rooms (me_second M cl) (me_session2 M) (me_between M st) of
             (st, Err e) \<Rightarrow> (st, Err e)
           | (st, Panic p) \<Rightarrow> (st, Panic p)
           | (st, Ok rooms) \<Rightarrow>
               (case rooms_next_start (int (pc_rooms_interval (cl_poll cl))) (me_clock M) rooms of
                  (rooms', Inl listed) \<Rightarrow> (st, Ok (rooms', listed))
                | (rooms', Inr due) \<Rightarrow>
                    (let (st, fetched) = client_rooms (me_second M cl) (me_session2 M) st;
                         (rooms', listed) = rooms_next_settle fetched rooms'
                     in (st, map_res (Pair rooms') listed)))))"

text \<open>A task that panics answers nothing.\<close>

definition answered :: "(chat_error, 'a) result \<Rightarrow> (chat_error + 'a) option" where
  "answered r = (case r of Ok x \<Rightarrow> Some (Inr x) | Err e \<Rightarrow> Some (Inl e) | Panic _ \<Rightarrow> None)"

definition register_work where
  "register_work M cl username password st =
     (let (st', r) = client_register (me_first M cl) (me_session1 M) username password st
      in (st', map_option Registered (answered r)))"

definition open_room_work where
  "open_room_work M cl room st =
     (let (st', r) = watch_room_messages (me_first M cl) (me_session1 M) room SinceNewest st
      in (st', map_option RoomOpened (answered r)))"

definition send_work where
  "send_work M cl room body st =
     (let (st', r) = client_send (me_first M cl) (me_session1 M) room body st
      in (st', map_option (MessageSent body) (answered (map_res (\<lambda>_. ()) r))))"

definition create_room_work where
  "create_room_work M cl name st =
     (let (st', r) = client_create_room (me_first M cl) (me_session1 M) name st
      in (st', map_option RoomCreated (answered (map_res (\<lambda>_. ()) r))))"

lemmas work_defs [simp] = register_work_def open_room_work_def send_work_def create_room_work_def

fun work ::
  "'n meets \<Rightarrow> 'n chat_client app_call \<Rightarrow> 'n client_state \<Rightarrow> 'n client_state \<times> 'n chat_client app_answer option" where
  "work M (CallConnect form) st =
     (let (st', built) = connect_work M form st in (st', map_option Connected (answered built)))"
| "work M (CallRegister cl username password) st = register_work M cl username password st"
| "work M (CallLogIn cl username password) st =
     (let (st', r) = log_in_work M cl username password st in (st', map_option (LoggedIn username) (answered r)))"
| "work M (CallOpenRoom cl room) st = open_room_work M cl room st"
| "work M (CallSend cl room body) st = send_work M cl room body st"
| "work M (CallCreate cl name) st = create_room_work M cl name st"

end
