(* ===== verification/App_Server.thy ===== *)
theory App_Server
  imports App_Work App_Properties Wire_Properties
begin

text \<open>
  The terminal client on this server: the app (crates/chat-ui-ratatui/src/app.rs) as it runs when its
  tasks and its feeds are calls of one client, which reach the handlers over the wire and through
  them the store, while other clients use the server too.
\<close>

section \<open>The server as the client meets it\<close>

record site =
  si_wire :: wire
  si_deps :: deps
  si_version :: rstr
  si_state :: "db app_state"
  si_origin :: rstr

definition app_poll :: poll_config where
  "app_poll = poll_default\<lparr>pc_messages_interval := MESSAGES_REFRESH\<rparr>"

definition site_client :: "site \<Rightarrow> db call \<Rightarrow> db chat_client" where
  "site_client S c = at_server (si_wire S) (si_deps S) (si_version S) (si_state S) (si_origin S) app_poll c"

definition site_ok :: "caps \<Rightarrow> site \<Rightarrow> bool" where
  "site_ok k S \<longleftrightarrow> wire_ok (si_wire S) \<and> origin_ok (si_origin S) \<and> token_text_ok (si_deps S) \<and>
     as_store (si_state S) = sqlite_store k"

text \<open>While a call is on its way the session can only be forgotten, by a call refused before it.\<close>

definition kept_or_forgotten :: "(session option \<Rightarrow> session option) \<Rightarrow> bool" where
  "kept_or_forgotten m \<longleftrightarrow> (\<forall>ses. m ses = ses \<or> m ses = None)"

definition between_ok :: "caps \<Rightarrow> (db client_state \<Rightarrow> db client_state) \<Rightarrow> bool" where
  "between_ok k g \<longleftrightarrow> (\<forall>st. db_ok (cs_net st) \<longrightarrow> db_steps k (cs_net st) (cs_net (g st)) \<and>
     (cs_session (g st) = cs_session st \<or> cs_session (g st) = None))"

definition meets_ok :: "caps \<Rightarrow> site \<Rightarrow> db meets \<Rightarrow> bool" where
  "meets_ok k S M \<longleftrightarrow>
     (\<exists>c. call_ok db_ok (db_steps k) c \<and> (\<forall>cl. me_first M cl = site_client S c) \<and>
        (\<forall>wire. nl_tcp (me_libs M) = Inr wire \<longrightarrow> wire = cl_transport (site_client S c)) \<and>
        (\<forall>se. nl_scion_wire (me_libs M) se = cl_transport (site_client S c))) \<and>
     (\<exists>c. call_ok db_ok (db_steps k) c \<and> (\<forall>cl. me_second M cl = site_client S c)) \<and>
     kept_or_forgotten (me_session1 M) \<and> kept_or_forgotten (me_session2 M) \<and> between_ok k (me_between M)"

section \<open>The feeds' calls\<close>

text \<open>
  One move of a call of \<open>next\<close>: what is held is handed over, the deadline is set, or a fetch settles;
  \<open>None\<close> when the call goes on.
\<close>

inductive feed_move ::
  "caps \<Rightarrow> site \<Rightarrow> messages_feed \<Rightarrow> db client_state \<Rightarrow> messages_feed \<Rightarrow> db client_state
     \<Rightarrow> (chat_error + message list) option \<Rightarrow> bool"
  for k S where
  held: "next_start i t f = (f', Inl ms) \<Longrightarrow> feed_move k S f st f' st (Some (Inr ms))"
| waits: "next_start i t f = (f', Inr p) \<Longrightarrow> feed_move k S f st f' st None"
| fetched: "mf_holding f = [] \<Longrightarrow> call_ok db_ok (db_steps k) c \<Longrightarrow> kept_or_forgotten m \<Longrightarrow>
    client_messages (site_client S c) m (mf_room f) (page_size app_poll) (AfterC (mf_cursor f)) st = (st', r) \<Longrightarrow>
    next_settle (page_size app_poll) i t r f = (f', Inl out) \<Longrightarrow> answered out = Some batch \<Longrightarrow>
    feed_move k S f st f' st' (Some batch)"
| again: "mf_holding f = [] \<Longrightarrow> call_ok db_ok (db_steps k) c \<Longrightarrow> kept_or_forgotten m \<Longrightarrow>
    client_messages (site_client S c) m (mf_room f) (page_size app_poll) (AfterC (mf_cursor f)) st = (st', r) \<Longrightarrow>
    next_settle (page_size app_poll) i t r f = (f', Inr p) \<Longrightarrow>
    feed_move k S f st f' st' None"

inductive rooms_move ::
  "caps \<Rightarrow> site \<Rightarrow> rooms_feed \<Rightarrow> db client_state \<Rightarrow> rooms_feed \<Rightarrow> db client_state
     \<Rightarrow> (chat_error + room list) option \<Rightarrow> bool"
  for k S where
  shown: "rooms_next_start i t f = (f', Inl rs) \<Longrightarrow> rooms_move k S f st f' st (Some (Inr rs))"
| sleeps: "rooms_next_start i t f = (f', Inr d) \<Longrightarrow> rooms_move k S f st f' st None"
| listed: "rf_holding f = None \<Longrightarrow> call_ok db_ok (db_steps k) c \<Longrightarrow> kept_or_forgotten m \<Longrightarrow>
    client_rooms (site_client S c) m st = (st', r) \<Longrightarrow> rooms_next_settle r f = (f', out) \<Longrightarrow> answered out = Some list \<Longrightarrow>
    rooms_move k S f st f' st' (Some list)"

section \<open>The system\<close>

record 'i system =
  sy_app :: "('i, db chat_client) app"
  sy_client :: "db client_state"

text \<open>
  An event of the loop, a task that finishes, a feed that moves, or another client's use of the
  server. A connection form that parses names this server.
\<close>

inductive sys_step ::
  "'i app_libs \<Rightarrow> draw_lib \<Rightarrow> int \<Rightarrow> caps \<Rightarrow> site \<Rightarrow> 'i system \<Rightarrow> 'i system \<Rightarrow> bool"
  for L D here k S where
  pressed: "\<not> ap_exit a \<Longrightarrow> sys_step L D here k S \<lparr>sy_app = a, sy_client = st\<rparr> \<lparr>sy_app = app_key L key a, sy_client = st\<rparr>"
| closed: "\<not> ap_exit a \<Longrightarrow> sys_step L D here k S \<lparr>sy_app = a, sy_client = st\<rparr> \<lparr>sy_app = a\<lparr>ap_exit := True\<rparr>, sy_client = st\<rparr>"
| finished: "bg_out (ap_background a) = us @ call # vs \<Longrightarrow> meets_ok k S M \<Longrightarrow> work M call st = (st', Some ans) \<Longrightarrow>
    (\<forall>form url. call = CallConnect form \<longrightarrow> ul_parse (nl_url (me_libs M)) (fm_server_url form) = Inr url \<longrightarrow>
       url = si_origin S @ lit ''/'') \<Longrightarrow>
    sys_step L D here k S \<lparr>sy_app = a, sy_client = st\<rparr>
      \<lparr>sy_app = a\<lparr>ap_background := (ap_background a)\<lparr>bg_out := us @ vs, bg_answers := bg_answers (ap_background a) @ [ans]\<rparr>\<rparr>,
       sy_client = st'\<rparr>"
| answered: "\<not> ap_exit a \<Longrightarrow> bg_answers (ap_background a) = ans # rest \<Longrightarrow>
    sys_step L D here k S \<lparr>sy_app = a, sy_client = st\<rparr>
      \<lparr>sy_app = app_handle_answer L ans (a\<lparr>ap_background := (ap_background a)\<lparr>bg_answers := rest\<rparr>\<rparr>), sy_client = st\<rparr>"
| delivered: "\<not> ap_exit a \<Longrightarrow> ap_messages a = Some f \<Longrightarrow> feed_move k S f st f' st' (Some batch) \<Longrightarrow>
    sys_step L D here k S \<lparr>sy_app = a, sy_client = st\<rparr>
      \<lparr>sy_app = app_batch L batch (a\<lparr>ap_messages := Some f'\<rparr>), sy_client = st'\<rparr>"
| waited: "\<not> ap_exit a \<Longrightarrow> ap_messages a = Some f \<Longrightarrow> feed_move k S f st f' st' None \<Longrightarrow>
    sys_step L D here k S \<lparr>sy_app = a, sy_client = st\<rparr> \<lparr>sy_app = a\<lparr>ap_messages := Some f'\<rparr>, sy_client = st'\<rparr>"
| listed: "\<not> ap_exit a \<Longrightarrow> ap_rooms a = Some g \<Longrightarrow> rooms_move k S g st g' st' (Some list) \<Longrightarrow>
    sys_step L D here k S \<lparr>sy_app = a, sy_client = st\<rparr>
      \<lparr>sy_app = app_rooms L list (a\<lparr>ap_rooms := Some g'\<rparr>), sy_client = st'\<rparr>"
| idled: "\<not> ap_exit a \<Longrightarrow> ap_rooms a = Some g \<Longrightarrow> rooms_move k S g st g' st' None \<Longrightarrow>
    sys_step L D here k S \<lparr>sy_app = a, sy_client = st\<rparr> \<lparr>sy_app = a\<lparr>ap_rooms := Some g'\<rparr>, sy_client = st'\<rparr>"
| drawn: "ap_screen a = ScChat s \<Longrightarrow>
    sys_step L D here k S \<lparr>sy_app = a, sy_client = st\<rparr>
      \<lparr>sy_app = a\<lparr>ap_screen := ScChat (fst (chat_draw (al_width L) D here area s))\<rparr>, sy_client = st\<rparr>"
| served: "db_steps k (cs_net st) s' \<Longrightarrow>
    sys_step L D here k S \<lparr>sy_app = a, sy_client = st\<rparr> \<lparr>sy_app = a, sy_client = st\<lparr>cs_net := s'\<rparr>\<rparr>"

definition sys_start :: "'i app_libs \<Rightarrow> connection_form \<Rightarrow> db \<Rightarrow> 'i system" where
  "sys_start L form d = \<lparr>sy_app = app_new L form, sy_client = \<lparr>cs_session = None, cs_net = d\<rparr>\<rparr>"

inductive_cases feed_moveE: "feed_move k S f st f' st' out"
inductive_cases rooms_moveE: "rooms_move k S f st f' st' out"

section \<open>What a call does to the client and the store\<close>

definition client_fine :: "db client_state \<Rightarrow> bool" where
  "client_fine st \<longleftrightarrow> db_ok (cs_net st) \<and> rooms (cs_net st) \<noteq> [] \<and> (\<forall>ses. cs_session st = Some ses \<longrightarrow> token_text ses)"

definition follows :: "caps \<Rightarrow> db client_state \<Rightarrow> db client_state \<Rightarrow> bool" where
  "follows k st st' \<longleftrightarrow> db_steps k (cs_net st) (cs_net st') \<and>
     (cs_session st' = cs_session st \<or> (\<forall>ses. cs_session st' = Some ses \<longrightarrow> token_text ses))"

lemma follows_fine:
  assumes "client_fine st" and "follows k st st'"
  shows "client_fine st'"
proof -
  have "db_ok (cs_net st') \<and> extends (cs_net st) (cs_net st')"
    using assms db_steps_ok by (auto simp: client_fine_def follows_def)
  moreover from this have "rooms (cs_net st') \<noteq> []"
    using assms(1) by (auto simp: client_fine_def extends_def)
  ultimately show ?thesis using assms by (auto simp: client_fine_def follows_def)
qed

lemma follows_refl [simp]: "follows k st st"
  by (simp add: follows_def)

lemma follows_trans: "follows k a b \<Longrightarrow> follows k b c \<Longrightarrow> follows k a c"
  by (auto simp: follows_def)

lemma execute_follows:
  assumes "site_ok k S" and "client_fine st" and "call_ok db_ok (db_steps k) c" and "kept_or_forgotten m"
    and "cl_transport cl = cl_transport (site_client S c)" and "execute cl m method path body au st = (st', r)"
  shows "follows k st st'"
proof (cases "prepare cl method path body au (cs_session st)")
  case (Ok p)
  obtain rq sent where p: "prepare cl method path body au (cs_session st) = Ok (rq, sent)" using Ok by (cases p) auto
  obtain s' q where q: "router (si_deps S) (wr_axum (si_wire S)) (si_version S) (si_state S) c (request_of (si_origin S) rq) (cs_net st) = (s', q)"
    by fastforce
  have steps: "db_steps k (cs_net st) s'"
    using router_steps [of "cs_net st" k c "si_state S"] assms(1-3) q by (metis client_fine_def fst_conv site_ok_def)
  obtain ses out where out: "settle (cl_codec cl) sent (reply_of (si_wire S) q) (m (cs_session st)) = (ses, out)" by fastforce
  then have "ses = m (cs_session st) \<or> ses = None"
    by (auto simp: settle_def forget_if_current_def split: result.splits option.splits if_splits)
  moreover have "m (cs_session st) = cs_session st \<or> m (cs_session st) = None" using assms(4) by (simp add: kept_or_forgotten_def)
  moreover have "st' = st\<lparr>cs_session := ses, cs_net := s'\<rparr>"
    using assms(5,6) p q out by (simp add: execute_def site_client_def at_server_def)
  ultimately show ?thesis using steps by (auto simp: follows_def)
qed (use assms(6) in \<open>simp_all add: execute_def\<close>)

lemma get_follows:
  assumes "site_ok k S" and "client_fine st" and "call_ok db_ok (db_steps k) c" and "kept_or_forgotten m"
    and "cl_transport cl = cl_transport (site_client S c)" and "client_get cl m d path au st = (st', r)"
  shows "follows k st st'"
  using assms(6) execute_follows [OF assms(1-5)] by (auto simp: client_get_def split: prod.splits)

lemma post_follows:
  assumes "site_ok k S" and "client_fine st" and "call_ok db_ok (db_steps k) c" and "kept_or_forgotten m"
    and "cl_transport cl = cl_transport (site_client S c)" and "client_post cl m body d path au st = (st', r)"
  shows "follows k st st'"
  using assms(6) execute_follows [OF assms(1-5)] by (auto simp: client_post_def split: prod.splits result.splits)

lemmas calls_follow = get_follows [where cl = "site_client S c" and S = S and c = c for S c, simplified]
  post_follows [where cl = "site_client S c" and S = S and c = c for S c, simplified]

lemma issued_text: "token_text_ok dp \<Longrightarrow> issue dp tk ns u = Ok (t, e) \<Longrightarrow> list_all is_ascii_graphic t"
  by (auto simp: token_text_ok_def issue_def res_simps)

lemma login_follows:
  assumes "site_ok k S" and "client_fine st" and "call_ok db_ok (db_steps k) c" and "kept_or_forgotten m"
    and "client_login (site_client S c) m u p st = (st', r)"
  shows "follows k st st'"
proof -
  obtain st1 q where post: "client_post (site_client S c) m (enc_login (cl_codec (site_client S c)) \<lparr>log_username = u, log_password = p\<rparr>)
      (dec_login (cl_codec (site_client S c))) (lit ''/api/v1/login'') AuthNone st = (st1, q)" by fastforce
  note steps = calls_follow(2) [OF assms(1-4) post]
  show ?thesis
  proof (cases q)
    case (Ok reply)
    then have r: "client_login (site_client S c) m u p st = (st', Ok \<lparr>sn_username = u, sn_expires_at = lr_expires_at reply\<rparr>)"
      using assms(5) post by (simp add: client_login_def store_session_def Let_def del: lit_simps)
    have "st' = st1\<lparr>cs_session := cs_session st'\<rparr>"
      using assms(5) post Ok by (auto simp: client_login_def store_session_def Let_def simp del: lit_simps)
    moreover have "\<exists>t e. issue (si_deps S) (as_tokens (si_state S)) (call_clock c) u = Ok (t, e) \<and> (\<exists>i. cs_session st' = Some \<lparr>ss_token = t, ss_info = i\<rparr>)"
      using client_login_ok [of "si_wire S" "si_origin S" "si_deps S" "si_version S" "si_state S" app_poll c m u p "cs_session st" "cs_net st" st']
        r assms(1) by (cases st) (auto simp: site_client_def site_ok_def)
    ultimately show ?thesis
      using steps assms(1) issued_text by (auto simp: follows_def token_text_def site_ok_def)
  qed (use assms(5) post steps in \<open>simp_all add: client_login_def del: lit_simps\<close>)
qed

section \<open>What the replies say of the store\<close>

lemma answered_Inr [simp]: "answered r = Some (Inr x) \<longleftrightarrow> r = Ok x"
  by (cases r) (auto simp: answered_def)

lemma answered_map: "answered (map_res f r) = map_option (map_sum id f) (answered r)"
  by (cases r) (simp_all add: answered_def)

lemma client_get_session:
  assumes "client_get cl m d path AuthRequired st = (st', Ok x)"
  obtains ses n where "st = \<lparr>cs_session = Some ses, cs_net = n\<rparr>"
  using assms
  by (cases st; cases "cs_session st") (auto simp: client_get_def execute_def prepare_def token_of_def Let_def)

lemma rooms_listed:
  assumes "site_ok k S" and "client_fine st" and "client_rooms (site_client S c) m st = (st', Ok rs)"
  shows "rs = map (room_view (cs_net st')) (rooms (cs_net st'))"
proof -
  obtain ses n where st: "st = \<lparr>cs_session = Some ses, cs_net = n\<rparr>"
    by (rule client_get_session [OF assms(3) [unfolded client_rooms_def]])
  have worded: "token_text ses" using assms(2) st by (simp add: client_fine_def)
  have ok: "wire_ok (si_wire S)" "origin_ok (si_origin S)" using assms(1) by (simp_all add: site_ok_def)
  let ?out = "rooms_list (si_deps S) (si_state S) c (bearing ses) n"
  have "handled (si_wire S) m ses rooms_in ?out = (st', Ok rs)"
    using client_rooms_at [OF ok worded prod.collapse [symmetric], of "si_deps S" "si_version S" "si_state S" app_poll c m n]
      assms(3) st by (simp add: site_client_def handled_def)
  then obtain p where p: "snd ?out = Ok p" "rs = rooms_in (rs_body p)" "cs_net st' = fst ?out" by (auto simp: handled_Ok)
  have "ds_list_rooms (as_store (si_state S)) (call_env c) n = Ok rs \<and> fst ?out = n"
    using p(1,2) by (auto simp: rooms_list_def try_res_def respond_def rooms_in_def map_err_eq_Ok split: result.splits)
  then show ?thesis
    using assms(1,2) p(3) st list_rooms_eq [of n "call_env c"]
    by (auto simp: site_ok_def client_fine_def sqlite_store_def split: option.splits)
qed

lemma fetched_page:
  assumes "site_ok k S" and "client_fine st" and "call_ok db_ok (db_steps k) c"
    and "client_messages (site_client S c) m room (page_size app_poll) cur st = (st', Ok ms)"
  shows "cur = AfterC a \<Longrightarrow> api_page k (cs_net st') room a ms" and "cur = NewestC \<Longrightarrow> api_newest k (cs_net st') room ms"
proof -
  obtain ses n where st: "st = \<lparr>cs_session = Some ses, cs_net = n\<rparr>"
    by (rule client_get_session [OF assms(4) [unfolded client_messages_def]])
  have worded: "token_text ses" using assms(2) st by (simp add: client_fine_def)
  have ok: "wire_ok (si_wire S)" "origin_ok (si_origin S)" "as_store (si_state S) = sqlite_store k" "db_ok n"
    using assms(1,2) st by (simp_all add: site_ok_def client_fine_def)
  have small: "unat (page_size app_poll) < 2 ^ 32" by (simp add: page_size_def app_poll_def poll_default_def)
  have run: "messages_list (si_deps S) (si_state S) c (bearing ses) (Inr (room_id_get room)) (Inr (page_of (page_size app_poll) cur)) n =
      (cs_net st', Ok (respond 200 (MessagesBody ms)))"
    using client_messages_Ok [OF ok(1,2) worded small, of "si_deps S" "si_version S" "si_state S" app_poll c m room cur n st' ms]
      assms(4) st by (simp add: site_client_def)
  have "pg_after_seq (page_of (page_size app_poll) (AfterC a)) = Some (seq_get a)"
    "pg_before_seq (page_of (page_size app_poll) (AfterC a)) = None"
    "pg_after_seq (page_of (page_size app_poll) NewestC) = None" "pg_before_seq (page_of (page_size app_poll) NewestC) = None"
    by (simp_all add: page_of_def)
  then show "cur = AfterC a \<Longrightarrow> api_page k (cs_net st') room a ms" "cur = NewestC \<Longrightarrow> api_newest k (cs_net st') room ms"
    using run ok assms(3) unfolding api_page_def api_newest_def by blast+
qed

text \<open>The rooms on show are rooms of the store.\<close>

definition rooms_known :: "db \<Rightarrow> room list \<Rightarrow> bool" where
  "rooms_known d rs \<longleftrightarrow>
     (\<forall>r\<in>set rs. \<exists>row\<in>set (rooms d). rm_id r = RoomId (word_of_int (r_id row)) \<and> rm_name r = r_name row)"

lemma rooms_known_grow: "rooms_known d rs \<Longrightarrow> extends d d' \<Longrightarrow> rooms_known d' rs"
  by (fastforce simp: rooms_known_def extends_def)

lemma room_views:
  assumes "db_ok d" and "rooms d \<noteq> []"
  shows "rooms_ok (map (room_view d) (rooms d))" and "rooms_known d (map (room_view d) (rooms d))"
    and "rooms_known d rs \<Longrightarrow> keeps_rooms rs (map (room_view d) (rooms d))"
proof -
  have "distinct (map r_id (rooms d))" using assms(1) ids_dense_distinct by (auto simp: db_ok_def)
  moreover have "inj_on (\<lambda>i. RoomId (word_of_int i)) (set (map r_id (rooms d)))"
  proof (rule inj_onI)
    fix i j assume ij: "i \<in> set (map r_id (rooms d))" "j \<in> set (map r_id (rooms d))"
      "RoomId (word_of_int i) = RoomId (word_of_int j)"
    have "uint (word_of_int i :: u64) = i" "uint (word_of_int j :: u64) = j"
      using ij(1,2) room_row_range [OF assms(1)] by (fastforce intro!: uint_word_of_int_64 simp: i64_max_eq)+
    then show "i = j" using ij(3) by (metis room_id.inject)
  qed
  ultimately have "distinct (map (\<lambda>i. RoomId (word_of_int i)) (map r_id (rooms d)))" by (simp only: distinct_map)
  then show "rooms_ok (map (room_view d) (rooms d))"
    using assms(2) by (simp add: rooms_ok_def room_view_def comp_def)
  show "rooms_known d (map (room_view d) (rooms d))"
    by (auto simp: rooms_known_def room_view_def)
  show "keeps_rooms rs (map (room_view d) (rooms d))" if "rooms_known d rs"
    using that by (fastforce simp: rooms_known_def keeps_rooms_def room_view_def)
qed

section \<open>The feed and the log\<close>

text \<open>
  What was handed over since the feed was opened, what it holds and what lies past its cursor are the
  end of the room's log, and stay so however the store grows.
\<close>

definition feed_at :: "caps \<Rightarrow> db \<Rightarrow> message list \<Rightarrow> messages_feed \<Rightarrow> bool" where
  "feed_at k d got f \<longleftrightarrow>
     (\<exists>c0 before. api_log.caught_up d (mf_room f) c0 (got @ mf_holding f) (mf_cursor f) \<and>
        (\<forall>d'. db_steps k d d' \<longrightarrow> room_log d' (mf_room f) = before @ beyond c0 (room_log d' (mf_room f))))"

lemma feed_at_cong:
  "mf_room f' = mf_room f \<Longrightarrow> mf_cursor f' = mf_cursor f \<Longrightarrow> got' @ mf_holding f' = got @ mf_holding f \<Longrightarrow>
     feed_at k d got f \<Longrightarrow> feed_at k d got' f'"
  by (simp add: feed_at_def)

lemma feed_at_grows: "db_ok d \<Longrightarrow> db_steps k d d' \<Longrightarrow> feed_at k d got f \<Longrightarrow> feed_at k d' got f"
  unfolding feed_at_def using api_log.caught_up_grows rtranclp_trans [of "db_step k" d d'] by metis

lemma feed_at_follows: "client_fine st \<Longrightarrow> follows k st st' \<Longrightarrow> feed_at k (cs_net st) got f \<Longrightarrow> feed_at k (cs_net st') got f"
  by (rule feed_at_grows) (simp_all add: client_fine_def follows_def)

lemma feed_at_page:
  assumes "db_ok d" and "feed_at k d got f" and "mf_holding f = []" and "api_page k d (mf_room f) (mf_cursor f) ms"
    and "ms \<noteq> []"
  shows "feed_at k d (got @ ms) (f\<lparr>mf_cursor := msg_seq (last ms)\<rparr>)"
  using assms(2,3) api_log.caught_up_page [OF assms(1) _ assms(4,5)] by (auto simp: feed_at_def)

lemma feed_at_opened:
  assumes "db_ok d" and "api_newest k d room ms"
  shows "feed_at k d [] (watch_open psize room SinceNewest ms)"
proof -
  obtain c0 before where c: "api_log.caught_up d room c0 ms (if ms = [] then seq_start else msg_seq (last ms))"
    "room_log d room = before @ ms" "beyond c0 (room_log d room) = ms" "ms = [] \<longrightarrow> c0 = seq_start"
    using api_log.caught_up_newest [OF assms] by blast
  have "ms = [] \<longrightarrow> room_log d room = [] \<and> c0 = seq_start" using api_log.newest_back [OF assms] c(4) by blast
  then have "\<forall>d'. db_steps k d d' \<longrightarrow> room_log d' room = before @ beyond c0 (room_log d' room)"
    using api_log.newest_front [OF assms(1) _ c(2,3)] by blast
  then show ?thesis using c(1) unfolding feed_at_def
    by (intro exI [of _ c0] exI [of _ before]) (simp add: watch_open_def Let_def)
qed

lemma feed_at_log:
  assumes "feed_at k d got f"
  shows "\<exists>before. room_log d (mf_room f) = before @ got @ mf_holding f @ beyond (mf_cursor f) (room_log d (mf_room f))"
  using assms unfolding feed_at_def api_log.caught_up_def by (metis append.assoc rtranclp.rtrancl_refl)

text \<open>A move of the feed keeps this, adding to what was handed over what it hands over.\<close>

definition handed :: "(chat_error + message list) option \<Rightarrow> message list" where
  "handed out = (case out of Some (Inr ms) \<Rightarrow> ms | _ \<Rightarrow> [])"

lemma feed_move_keeps:
  assumes "feed_move k S f st f' st' out" and "site_ok k S" and "client_fine st" and "feed_at k (cs_net st) got f"
  shows "follows k st st' \<and> mf_room f' = mf_room f \<and> feed_at k (cs_net st') (got @ handed out) f'"
  using assms(1)
proof cases
  case (held i t ms)
  then show ?thesis using assms(4) by (auto simp: next_start_held handed_def intro: feed_at_cong [rotated 3])
next
  case (waits i t p)
  then show ?thesis using assms(4) next_head_fields [of i t f f' p]
    by (auto simp: next_start_wait handed_def intro: feed_at_cong [rotated 3])
next
  case (fetched c m r i t fout batch)
  have steps: "follows k st st'"
    using get_follows [OF assms(2,3) fetched(3,4) refl fetched(5) [unfolded client_messages_def]] .
  have at: "feed_at k (cs_net st') got f" using feed_at_follows [OF assms(3) steps assms(4)] .
  have ok: "db_ok (cs_net st')" using follows_fine [OF assms(3) steps] by (simp add: client_fine_def)
  note rets = next_settle_return [OF fetched(6)]
  show ?thesis
  proof (cases r)
    case (Ok ms)
    have "api_page k (cs_net st') (mf_room f) (mf_cursor f) ms"
      using fetched_page(1) [OF assms(2,3) fetched(3) fetched(5) [unfolded Ok] refl] .
    then have "feed_at k (cs_net st') (got @ ms) (f\<lparr>mf_cursor := msg_seq (last ms)\<rparr>)"
      using feed_at_page [OF ok at fetched(2)] rets(6) Ok by blast
    then show ?thesis using steps rets(1-3,5) Ok fetched(1,7) by (auto simp: handed_def answered_def intro: feed_at_cong [rotated 3])
  next
    case (Err e)
    then show ?thesis using steps at rets(1-3,5) fetched(1,7) by (auto simp: handed_def answered_def intro: feed_at_cong [rotated 3])
  next
    case (Panic p)
    then show ?thesis using rets(1) fetched(7) by (simp add: answered_def)
  qed
next
  case (again c m r i t p)
  have steps: "follows k st st'"
    using get_follows [OF assms(2,3) again(3,4) refl again(5) [unfolded client_messages_def]] .
  have "feed_at k (cs_net st') got f" using feed_at_follows [OF assms(3) steps assms(4)] .
  then show ?thesis using steps next_settle_again(2-4) [OF again(6)] again(1)
    by (auto simp: handed_def intro: feed_at_cong [rotated 3])
qed

section \<open>The tasks\<close>

fun answer_holds :: "caps \<Rightarrow> db \<Rightarrow> 'c app_answer \<Rightarrow> bool" where
  "answer_holds k d (RoomOpened r) = (\<forall>f. r = Inr f \<longrightarrow> feed_at k d [] f)"
| "answer_holds k d (LoggedIn u r) = (\<forall>f rs. r = Inr (f, rs) \<longrightarrow> rf_holding f = None \<and> rooms_known d rs)"
| "answer_holds k d _ = True"

lemma answer_holds_grows:
  assumes "db_ok d" and "db_steps k d d'" and "answer_holds k d ans"
  shows "answer_holds k d' ans"
proof -
  have "extends d d'" using db_steps_ok assms(1,2) by blast
  then show ?thesis using feed_at_grows [OF assms(1,2)] rooms_known_grow assms(3) by (cases ans) auto
qed

lemma client_new_transport:
  assumes "meets_ok k S M" and "client_new (me_libs M) cfg = Ok cl"
  obtains c where "call_ok db_ok (db_steps k) c" "cl_transport cl = cl_transport (site_client S c)"
  using assms
  by (auto simp: meets_ok_def client_new_def tcp_new_def new_with_transport_def res_simps
      split: transport_kind.splits sum.splits)

lemma connect_follows:
  assumes "meets_ok k S M" and "site_ok k S" and "client_fine st" and "connect_work M form st = (st', r)"
  shows "follows k st st'"
proof (cases "bind_res (connect_config (nl_url (me_libs M)) form) (client_new (me_libs M))")
  case (Ok cl)
  then obtain cfg where "client_new (me_libs M) cfg = Ok cl" by (auto simp: res_simps)
  from client_new_transport [OF assms(1) this] obtain c
    where c: "call_ok db_ok (db_steps k) c" "cl_transport cl = cl_transport (site_client S c)" .
  obtain st1 q where h: "client_health cl (me_session1 M) (st\<lparr>cs_session := None\<rparr>) = (st1, q)" by fastforce
  have "client_fine (st\<lparr>cs_session := None\<rparr>)" using assms(3) by (simp add: client_fine_def)
  from get_follows [OF assms(2) this c(1) _ c(2) h [unfolded client_health_def]] assms(1)
  have "follows k (st\<lparr>cs_session := None\<rparr>) st1" by (simp add: meets_ok_def)
  then show ?thesis using assms(4) Ok h by (cases q) (auto simp: connect_work_def follows_def)
qed (use assms(4) in \<open>simp_all add: connect_work_def\<close>)

lemma watch_rooms_keeps:
  assumes "site_ok k S" and "client_fine st" and "call_ok db_ok (db_steps k) c" and "kept_or_forgotten m"
    and "watch_rooms (site_client S c) m st = (st', r)"
  shows "follows k st st'"
    and "r = Ok f \<Longrightarrow> f = watch_rooms_open (map (room_view (cs_net st')) (rooms (cs_net st')))"
proof -
  obtain q where q: "client_rooms (site_client S c) m st = (st', q)" "r = map_res watch_rooms_open q"
    using assms(5) by (auto simp: watch_rooms_def split: prod.splits)
  show "follows k st st'" by (rule calls_follow(1) [OF assms(1-4) q(1) [unfolded client_rooms_def]])
  show "f = watch_rooms_open (map (room_view (cs_net st')) (rooms (cs_net st')))" if "r = Ok f"
    using that q rooms_listed [OF assms(1,2)] by (auto simp: res_simps)
qed

lemma log_in_keeps:
  assumes "meets_ok k S M" and "site_ok k S" and "client_fine st" and "log_in_work M cl u p st = (st', r)"
  shows "follows k st st'"
    and "r = Ok (f, rs) \<Longrightarrow> rf_holding f = None \<and> rs = map (room_view (cs_net st')) (rooms (cs_net st'))"
proof -
  obtain c c2 where c: "call_ok db_ok (db_steps k) c" "\<And>h. me_first M h = site_client S c"
    and c2: "call_ok db_ok (db_steps k) c2" "\<And>h. me_second M h = site_client S c2"
    and m: "kept_or_forgotten (me_session1 M)" "kept_or_forgotten (me_session2 M)" "between_ok k (me_between M)"
    using assms(1) unfolding meets_ok_def by blast
  obtain st1 r1 where l: "client_login (site_client S c) (me_session1 M) u p st = (st1, r1)" by fastforce
  have s1: "follows k st st1" by (rule login_follows [OF assms(2,3) c(1) m(1) l])
  have fine1: "client_fine st1" by (rule follows_fine [OF assms(3) s1])
  have s2: "follows k st1 (me_between M st1)"
    using m(3) fine1 by (auto simp: between_ok_def follows_def client_fine_def)
  obtain st3 r3 where w: "watch_rooms (site_client S c2) (me_session2 M) (me_between M st1) = (st3, r3)" by fastforce
  note kept = watch_rooms_keeps [OF assms(2) follows_fine [OF fine1 s2] c2(1) m(2) w]
  have s3: "follows k st st3" using s1 s2 kept(1) follows_trans by blast
  have "follows k st st' \<and> (r = Ok (f, rs) \<longrightarrow> rf_holding f = None \<and> rs = map (room_view (cs_net st')) (rooms (cs_net st')))"
  proof (cases r1)
    case (Ok i)
    then show ?thesis using assms(4) l w c(2) c2(2) s3 kept(2)
      by (cases r3) (auto simp: log_in_work_def rooms_next_start_def watch_rooms_open_def)
  qed (use assms(4) l c(2) s1 in \<open>auto simp: log_in_work_def\<close>)
  then show "follows k st st'" "r = Ok (f, rs) \<Longrightarrow> rf_holding f = None \<and> rs = map (room_view (cs_net st')) (rooms (cs_net st'))" by blast+
qed

lemma work_keeps:
  assumes "meets_ok k S M" and "site_ok k S" and "client_fine st" and "work M call st = (st', Some ans)"
  shows "follows k st st' \<and> answers_call call ans \<and> answer_holds k (cs_net st') ans"
proof -
  obtain c where c: "call_ok db_ok (db_steps k) c" "\<And>h. me_first M h = site_client S c" and m: "kept_or_forgotten (me_session1 M)"
    using assms(1) unfolding meets_ok_def by blast
  note post = calls_follow(2) [OF assms(2,3) c(1) m]
  show ?thesis
  proof (cases call)
    case (CallConnect form)
    then show ?thesis using assms(4) connect_follows [OF assms(1-3)] by (auto split: prod.splits)
  next
    case (CallRegister cl u p)
    then show ?thesis using assms(4) post by (auto simp: c(2) client_register_def split: prod.splits)
  next
    case (CallLogIn cl u p)
    then obtain r where r: "log_in_work M cl u p st = (st', r)" "Some ans = map_option (LoggedIn u) (answered r)"
      using assms(4) by (auto split: prod.splits)
    note kept = log_in_keeps [OF assms(1-3) r(1)]
    have "db_ok (cs_net st')" "rooms (cs_net st') \<noteq> []"
      using follows_fine [OF assms(3) kept(1)] by (simp_all add: client_fine_def)
    note views = room_views [OF this]
    have "rooms_ok rs \<and> rf_holding f = None \<and> rooms_known (cs_net st') rs" if "answered r = Some (Inr (f, rs))" for f rs
      using that kept(2) views(1,2) by simp
    then show ?thesis using kept(1) r(2) CallLogIn by (cases r) (auto simp: answered_def)
  next
    case (CallOpenRoom cl room)
    then obtain q where q: "client_messages (site_client S c) (me_session1 M) room (page_size app_poll) NewestC st = (st', q)"
      "Some ans = map_option RoomOpened (answered (map_res (watch_open (page_size app_poll) room SinceNewest) q))"
      using assms(4)
      by (auto simp: watch_room_messages_def c(2) watch_cursor_def site_client_def at_server_def Let_def split: prod.splits)
    have steps: "follows k st st'" by (rule calls_follow(1) [OF assms(2,3) c(1) m q(1) [unfolded client_messages_def]])
    have "db_ok (cs_net st')" using follows_fine [OF assms(3) steps] by (simp add: client_fine_def)
    then have "feed_at k (cs_net st') [] (watch_open (page_size app_poll) room SinceNewest ms)" if "q = Ok ms" for ms
      using feed_at_opened fetched_page(2) [OF assms(2,3) c(1) q(1) [unfolded that] refl] by blast
    moreover have "mf_room (watch_open (page_size app_poll) room SinceNewest ms) = room" for ms
      by (simp add: watch_open_def Let_def)
    ultimately show ?thesis using steps q(2) CallOpenRoom by (cases q) (auto simp: answered_def)
  next
    case (CallSend cl room body)
    then show ?thesis using assms(4) post by (auto simp: c(2) client_send_def split: prod.splits)
  next
    case (CallCreate cl name)
    then show ?thesis using assms(4) post by (auto simp: c(2) client_create_room_def split: prod.splits)
  qed
qed

end
