(* ===== verification/App_Server_Run.thy ===== *)
theory App_Server_Run
  imports App_Server
begin

text \<open>
  A concrete run of the terminal client on the server: the form is sent, a user signs in, the lobby
  is opened and its page is shown. The properties of such runs are instantiated with it.
\<close>

definition demo_site :: site where
  "demo_site = \<lparr>si_wire = demo_wire, si_deps = demo_deps, si_version = [], si_state = demo_server, si_origin = demo_origin\<rparr>"

lemma demo_site_ok: "site_ok demo_caps demo_site"
  using demo_wire_ok demo_origin_ok demo_token_text_ok by (simp add: site_ok_def demo_site_def demo_server_def)

definition demo_client :: "int \<Rightarrow> db chat_client" where
  "demo_client ns = site_client demo_site (demo_call ns)"

lemma demo_client_at: "demo_client ns = at_server demo_wire demo_deps [] demo_server demo_origin app_poll (demo_call ns)"
  by (simp add: demo_client_def site_client_def demo_site_def)

definition demo_libraries :: "db net_libs" where
  "demo_libraries = \<lparr>nl_url = \<lparr>ul_parse = (\<lambda>_. Inr (demo_origin @ lit ''/'')), ul_scheme = (\<lambda>_. lit ''http'')\<rparr>,
     nl_codec = wr_codec demo_wire, nl_tcp = Inr (cl_transport (demo_client 5000000000)),
     nl_scion = \<lparr>sl_token_source = \<lambda>_ _ _. None, sl_path_str = Some, sl_host = Some, sl_address = Inr, sl_resolver = None\<rparr>,
     nl_scion_wire = (\<lambda>_. cl_transport (demo_client 5000000000))\<rparr>"

definition demo_meets :: "db meets" where
  "demo_meets = \<lparr>me_libs = demo_libraries, me_first = (\<lambda>_. demo_client 5000000000), me_second = (\<lambda>_. demo_client 5000000000),
     me_session1 = id, me_session2 = id, me_between = id, me_clock = 0\<rparr>"

lemma demo_meets_ok: "meets_ok demo_caps demo_site demo_meets"
proof -
  have "kept_or_forgotten id" "between_ok demo_caps id" by (simp_all add: kept_or_forgotten_def between_ok_def)
  then show ?thesis
    unfolding meets_ok_def using demo_call_ok [of demo_caps 5000000000]
    by (auto simp: demo_meets_def demo_libraries_def demo_client_def)
qed

section \<open>The calls\<close>

definition out_state :: "db client_state" where
  "out_state = \<lparr>cs_session = None, cs_net = demo_db\<rparr>"

definition in_state :: "db client_state" where
  "in_state = \<lparr>cs_session = Some \<lparr>ss_token = lit ''ann.86405'', ss_info = \<lparr>sn_username = lit ''ann'',
     sn_expires_at = UnixMillis 86405000\<rparr>\<rparr>, cs_net = demo_db\<rparr>"

lemma demo_health:
  "client_health (at_server demo_wire demo_deps [] demo_server demo_origin poll (demo_call ns)) id out_state = (out_state, Ok ())"
proof -
  have dec: "decode (dec_ignored (wr_codec demo_wire)) bs = Ok ()" for bs
    by (simp add: decode_def demo_wire_def demo_wire_codec_def)
  have "(let (st', out) = execute (at_server demo_wire demo_deps [] demo_server demo_origin poll (demo_call ns)) id MGet
        (lit ''/api/v1/healthz'') None AuthNone \<lparr>cs_session = None, cs_net = demo_db\<rparr>
      in (st', bind_res out (decode (dec_ignored (wr_codec demo_wire))))) =
    (\<lparr>cs_session = session_after None (Ok healthz) (id None), cs_net = demo_db\<rparr>, settled demo_wire (\<lambda>_. ()) None (Ok healthz))"
  proof (rule call_at_server [OF demo_wire_ok demo_origin_ok])
    show "router demo_deps (wr_axum demo_wire) [] demo_server (demo_call ns) rq demo_db = finish (demo_db, Ok healthz)"
      if "rq = request_of demo_origin (built demo_origin MGet (lit ''/api/v1/healthz'') None None)" for rq
    proof -
      have "endpoint_of (rq_path rq) = Some HealthzE" "rq_method rq = GET"
        unfolding that by (simp_all add: request_of_def built_def endpoint_of_def)
      then show ?thesis by (simp add: router_def dispatch_def)
    qed
  qed (auto simp: is_ascii_graphic_def healthz_def respond_def dec)
  then show ?thesis
    by (simp add: client_health_def client_get_def out_state_def session_after_def settled_def)
qed

lemma demo_call_ok2: "call_ok db_ok (db_steps demo_caps) (demo_call 5000000000)"
  by (rule demo_call_ok)

lemma demo_logs_in_at:
  "client_login (at_server demo_wire demo_deps [] demo_server demo_origin poll (demo_call 5000000000)) id (lit ''ann'') (lit ''h'') out_state =
     (in_state, Ok \<lparr>sn_username = lit ''ann'', sn_expires_at = UnixMillis 86405000\<rparr>)"
proof -
  have enc: "enc_login (wr_codec demo_wire) \<lparr>log_username = lit ''ann'', log_password = lit ''h''\<rparr> =
      Inr [to_nat (lit ''ann'', lit ''h'')]"
    by (simp add: demo_wire_def demo_wire_codec_def)
  show ?thesis
    using client_login_at [OF demo_wire_ok demo_origin_ok enc demo_login_run [unfolded demo_login_def], where ses = None and m = id
        and version = "[]" and poll = poll]
    by (simp add: client_login_def out_state_def in_state_def settled_def respond_def login_in_def store_session_def Let_def
        del: lit_simps)
qed

lemma demo_in_auth:
  "authenticated demo_deps (as_tokens demo_server) 5000000000 (bearing \<lparr>ss_token = lit ''ann.86405'', ss_info = i\<rparr>) = Ok (lit ''ann'')"
proof -
  have "bearer_token demo_deps (Some (bearer_header (lit ''ann.86405''))) = Some (lit ''ann.86405'')"
    by (rule bearer_token_header [OF demo_header_ok]) (simp add: is_ascii_graphic_def)
  then show ?thesis
    by (simp add: authenticated_def verify_def bearing_def) (simp add: demo_deps_def undec_def)
qed

lemma in_state_text: "token_text \<lparr>ss_token = lit ''ann.86405'', ss_info = i\<rparr>"
  by (simp add: token_text_def is_ascii_graphic_def)

definition the_lobby :: room where
  "the_lobby = \<lparr>rm_id = RoomId 1, rm_name = lit ''lobby'', rm_latest_seq = Seq 2\<rparr>"

lemma demo_lists_at:
  "client_rooms (at_server demo_wire demo_deps [] demo_server demo_origin poll (demo_call 5000000000)) id in_state =
     (in_state, Ok [the_lobby])"
proof -
  have "list_rooms (calm_env 5000000000) demo_db = Ok [the_lobby]"
    using list_rooms_eq [OF demo_db_ok, of "calm_env 5000000000"]
    by (simp add: calm_env_def) (simp add: demo_db_def room_view_def room_log_def log_latest_def message_of_def the_lobby_def)
  then have "rooms_list demo_deps demo_server (demo_call 5000000000) (bearing \<lparr>ss_token = lit ''ann.86405'', ss_info = i\<rparr>) demo_db =
      (demo_db, Ok (respond 200 (RoomsBody [the_lobby])))" for i
    using demo_in_auth [of i] by (simp add: rooms_list_def demo_call_def demo_server_def sqlite_store_def)
  from client_rooms_at [OF demo_wire_ok demo_origin_ok in_state_text this, where m = id and version = "[]" and poll = poll]
  show ?thesis by (simp add: in_state_def session_after_def settled_def respond_def rooms_in_def del: lit_simps)
qed

lemma demo_reads_at:
  "client_messages (at_server demo_wire demo_deps [] demo_server demo_origin poll (demo_call 5000000000)) id (RoomId 1) 50 NewestC in_state =
     (in_state, Ok (room_log demo_db (RoomId 1)))"
proof -
  have "length (room_log demo_db (RoomId 1)) \<le> 50" by (simp add: room_log_def demo_db_def)
  then have all: "last_n 50 (room_log demo_db (RoomId 1)) = room_log demo_db (RoomId 1)" by (simp add: last_n_def)
  have lim: "unat (page_limit (page_of 50 NewestC)) = 50" using page_limit_of [of 50] by simp
  have "messages_list demo_deps demo_server (demo_call 5000000000) (bearing \<lparr>ss_token = lit ''ann.86405'', ss_info = i\<rparr>)
      (Inr (room_id_get (RoomId 1))) (Inr (page_of 50 NewestC)) demo_db =
      (demo_db, Ok (respond 200 (MessagesBody (room_log demo_db (RoomId 1)))))" for i
    using room_exists_eq [of "calm_env 5000000000" "RoomId 1" demo_db] demo_lobby demo_in_auth [of i]
      messages_newest_eq [OF demo_db_ok, of "calm_env 5000000000" "RoomId 1" "page_limit (page_of 50 NewestC)"] lim all
    by (simp add: messages_list_def demo_call_def calm_env_def i64_max_eq sqlite_store_def demo_server_def)
      (simp add: page_of_def)
  from client_messages_at [OF demo_wire_ok demo_origin_ok in_state_text _ this, where m = id and version = "[]" and poll = poll]
  show ?thesis by (simp add: in_state_def session_after_def settled_def respond_def messages_in_def del: lit_simps)
qed

section \<open>The tasks\<close>

definition demo_handle :: "db chat_client" where
  "demo_handle = demo_client 5000000000"

definition tcp_form :: connection_form where
  "tcp_form = form_default\<lparr>fm_transport := TTcp\<rparr>"

definition sent_form :: connection_form where
  "sent_form = connection_form_of typed_input (connection_new typed_input tcp_form)"

lemma demo_connect_work: "work demo_meets (CallConnect sent_form) out_state = (out_state, Some (Connected (Inr demo_handle)))"
proof -
  have "connect_config (nl_url demo_libraries) sent_form =
      Ok \<lparr>cc_transport = TcpKind, cc_server_url = demo_origin @ lit ''/'', cc_poll = app_poll\<rparr>"
    by (simp add: connect_config_def demo_libraries_def transport_of_def sent_form_def tcp_form_def connection_form_of_def
        connection_new_def form_default_def trust_choice_of_def app_poll_def scheme_def)
  then have "bind_res (connect_config (nl_url (me_libs demo_meets)) sent_form) (client_new (me_libs demo_meets)) = Ok demo_handle"
    by (simp add: demo_meets_def client_new_def tcp_new_def new_with_transport_def)
      (simp add: demo_libraries_def demo_handle_def demo_client_at at_server_def)
  moreover have "client_health demo_handle id (out_state\<lparr>cs_session := None\<rparr>) = (out_state, Ok ())"
    using demo_health by (simp add: demo_handle_def demo_client_at out_state_def)
  ultimately show ?thesis by (simp add: connect_work_def answered_def) (simp add: demo_meets_def)
qed

definition listed_feed :: rooms_feed where
  "listed_feed = \<lparr>rf_holding = None, rf_due = None\<rparr>"

lemma demo_log_in_work:
  "work demo_meets (CallLogIn demo_handle (lit ''ann'') (lit ''h'')) out_state =
     (in_state, Some (LoggedIn (lit ''ann'') (Inr (listed_feed, [the_lobby]))))"
proof -
  have "client_login (demo_client 5000000000) id (lit ''ann'') (lit ''h'') out_state =
      (in_state, Ok \<lparr>sn_username = lit ''ann'', sn_expires_at = UnixMillis 86405000\<rparr>)"
    "client_rooms (demo_client 5000000000) id in_state = (in_state, Ok [the_lobby])"
    using demo_logs_in_at demo_lists_at by (simp_all only: demo_client_at)
  then show ?thesis
    by (simp add: log_in_work_def demo_meets_def watch_rooms_def watch_rooms_open_def rooms_next_start_def answered_def
        listed_feed_def del: lit_simps)
qed

definition opened_feed :: messages_feed where
  "opened_feed = watch_open 50 (RoomId 1) SinceNewest (room_log demo_db (RoomId 1))"

lemma demo_open_work: "work demo_meets (CallOpenRoom demo_handle (RoomId 1)) in_state = (in_state, Some (RoomOpened (Inr opened_feed)))"
proof -
  have "client_messages (demo_client 5000000000) id (RoomId 1) 50 NewestC in_state = (in_state, Ok (room_log demo_db (RoomId 1)))"
    using demo_reads_at by (simp only: demo_client_at)
  moreover have "page_size (cl_poll (demo_client 5000000000)) = 50"
    by (simp add: demo_client_at at_server_def app_poll_def page_size_def poll_default_def)
  ultimately show ?thesis
    by (simp add: demo_meets_def watch_room_messages_def watch_cursor_def answered_def opened_feed_def)
qed

section \<open>The run\<close>

abbreviation run_libs :: "rstr app_libs" where
  "run_libs \<equiv> \<lparr>al_width = plain_widths, al_input = typed_input, al_debug = (\<lambda>s. s)\<rparr>"

abbreviation run_steps :: "rstr system \<Rightarrow> rstr system \<Rightarrow> bool" where
  "run_steps \<equiv> (sys_step run_libs plain_draw 0 demo_caps demo_site)\<^sup>*\<^sup>*"

definition shown_app :: "rstr app_screen \<Rightarrow> messages_feed option \<Rightarrow> rooms_feed option \<Rightarrow> db chat_client background \<Rightarrow> (rstr, db chat_client) app" where
  "shown_app scr msgs rms b = \<lparr>ap_screen = scr, ap_client = Some demo_handle, ap_messages = msgs, ap_rooms = rms, ap_reopen = False,
     ap_background = b, ap_exit = False\<rparr>"

definition one_out :: "'c app_call \<Rightarrow> 'c background" where
  "one_out w = \<lparr>bg_out = [w], bg_answers = [], bg_pending = True\<rparr>"

text \<open>A call that is out, done and read, with nothing else out.\<close>

lemma call_through:
  assumes "ap_background a = one_out w" and "\<not> ap_exit a" and "work demo_meets w st = (st', Some ans)"
    and "app_handle_answer run_libs ans (a\<lparr>ap_background := \<lparr>bg_out = [], bg_answers = [], bg_pending = True\<rparr>\<rparr>) = a'"
  shows "run_steps \<lparr>sy_app = a, sy_client = st\<rparr> \<lparr>sy_app = a', sy_client = st'\<rparr>"
proof -
  let ?b = "a\<lparr>ap_background := \<lparr>bg_out = [], bg_answers = [ans], bg_pending = True\<rparr>\<rparr>"
  have url: "ul_parse (nl_url (me_libs demo_meets)) u = Inr url \<Longrightarrow> url = si_origin demo_site @ lit ''/''" for u url
    by (simp add: demo_meets_def demo_libraries_def demo_site_def)
  have "sys_step run_libs plain_draw 0 demo_caps demo_site \<lparr>sy_app = a, sy_client = st\<rparr> \<lparr>sy_app = ?b, sy_client = st'\<rparr>"
    using sys_step.finished [of a "[]" w "[]", OF _ demo_meets_ok assms(3)] assms(1) url by (auto simp: one_out_def)
  moreover have "sys_step run_libs plain_draw 0 demo_caps demo_site \<lparr>sy_app = ?b, sy_client = st'\<rparr> \<lparr>sy_app = a', sy_client = st'\<rparr>"
    using sys_step.answered [of ?b ans "[]" run_libs plain_draw 0 demo_caps demo_site st'] assms(2,4) by simp
  ultimately show ?thesis by (meson rtranclp.rtrancl_into_rtrancl rtranclp.rtrancl_refl)
qed

lemma key_through:
  assumes "\<not> ap_exit a" and "app_key run_libs \<lparr>k_code = c, k_control = False\<rparr> a = a'"
  shows "run_steps \<lparr>sy_app = a, sy_client = st\<rparr> \<lparr>sy_app = a', sy_client = st\<rparr>"
  using sys_step.pressed [OF assms(1), where key = "\<lparr>k_code = c, k_control = False\<rparr>" and st = st] assms(2)
  by (auto intro: r_into_rtranclp)

definition empty_sign_in :: "rstr sign_in" where
  "empty_sign_in = \<lparr>si_username = [], si_password = [], si_focus = FUsername, si_error = None\<rparr>"

lemma run_connects:
  "run_steps (sys_start run_libs tcp_form demo_db)
     \<lparr>sy_app = shown_app (ScSignIn empty_sign_in) None None background_default, sy_client = out_state\<rparr>"
proof -
  let ?c = "(app_new run_libs tcp_form)\<lparr>ap_background := one_out (CallConnect sent_form)\<rparr>"
  have start: "sys_start run_libs tcp_form demo_db = \<lparr>sy_app = app_new run_libs tcp_form, sy_client = out_state\<rparr>"
    by (simp add: sys_start_def out_state_def)
  have "run_steps \<lparr>sy_app = app_new run_libs tcp_form, sy_client = out_state\<rparr> \<lparr>sy_app = ?c, sy_client = out_state\<rparr>"
    by (rule key_through [of _ KEnter])
      (simp_all add: app_new_def app_key_def connection_key_def app_connect_def app_ask_def one_out_def sent_form_def
        connection_new_def Let_def)
  also have "run_steps \<lparr>sy_app = ?c, sy_client = out_state\<rparr>
      \<lparr>sy_app = shown_app (ScSignIn empty_sign_in) None None background_default, sy_client = out_state\<rparr>"
    by (rule call_through [OF _ _ demo_connect_work])
      (simp_all add: app_new_def shown_app_def app_handle_answer_def sign_in_default_def empty_sign_in_def typed_input_def
        background_default_def)
  finally show ?thesis by (simp only: start)
qed

lemma run_types:
  "run_steps \<lparr>sy_app = shown_app (ScSignIn empty_sign_in) None None background_default, sy_client = out_state\<rparr>
     \<lparr>sy_app = shown_app (ScSignIn \<lparr>si_username = lit ''ann'', si_password = lit ''h'', si_focus = FPassword, si_error = None\<rparr>) None None
        (one_out (CallLogIn demo_handle (lit ''ann'') (lit ''h''))), sy_client = out_state\<rparr>"
proof -
  let ?s = "\<lambda>u p f. \<lparr>sy_app = shown_app (ScSignIn \<lparr>si_username = u, si_password = p, si_focus = f, si_error = None\<rparr>) None None background_default,
      sy_client = out_state\<rparr> :: rstr system"
  have typed: "run_steps (?s u p FUsername) (?s (u @ [c]) p FUsername)" "run_steps (?s u p FPassword) (?s u (p @ [c]) FPassword)" for u p c
    by (rule key_through [of _ "KChar c"];
        simp add: shown_app_def app_key_def sign_in_key_def sign_in_type_def typed_input_def background_default_def)+
  have tab: "run_steps (?s u p FUsername) (?s u p FPassword)" for u p
    by (rule key_through [of _ KTab]) (simp_all add: shown_app_def app_key_def sign_in_key_def background_default_def)
  have enter: "run_steps (?s (lit ''ann'') (lit ''h'') FPassword)
      \<lparr>sy_app = shown_app (ScSignIn \<lparr>si_username = lit ''ann'', si_password = lit ''h'', si_focus = FPassword, si_error = None\<rparr>) None None
        (one_out (CallLogIn demo_handle (lit ''ann'') (lit ''h''))), sy_client = out_state\<rparr>"
    by (rule key_through [of _ KEnter])
      (simp_all add: shown_app_def app_key_def sign_in_key_def credentials_def typed_input_def app_log_in_def app_ask_def one_out_def
        ask_def background_default_def)
  have ann: "lit ''ann'' = (([] @ [97]) @ [110]) @ [110]" and h: "lit ''h'' = [] @ [104]" by simp_all
  have "run_steps (?s [] [] FUsername) (?s (lit ''ann'') (lit ''h'') FPassword)"
    unfolding ann h
    by (rule rtranclp_trans [OF typed(1) rtranclp_trans [OF typed(1) rtranclp_trans [OF typed(1) rtranclp_trans [OF tab typed(2)]]]])
  from rtranclp_trans [OF this enter] show ?thesis by (simp only: empty_sign_in_def)
qed

definition opened_chat :: "rstr chat" where
  "opened_chat = watching (RoomId 1) (chat_clear (chat_new typed_input [the_lobby] (lit ''ann'')))"

lemma run_opens:
  "run_steps (sys_start run_libs tcp_form demo_db)
     \<lparr>sy_app = shown_app (ScChat opened_chat) (Some opened_feed) (Some listed_feed) background_default, sy_client = in_state\<rparr>"
proof -
  let ?cleared = "chat_clear (chat_new typed_input [the_lobby] (lit ''ann''))"
  have signed: "run_steps \<lparr>sy_app = shown_app (ScSignIn \<lparr>si_username = lit ''ann'', si_password = lit ''h'', si_focus = FPassword, si_error = None\<rparr>)
        None None (one_out (CallLogIn demo_handle (lit ''ann'') (lit ''h''))), sy_client = out_state\<rparr>
      \<lparr>sy_app = shown_app (ScChat ?cleared) None (Some listed_feed) (one_out (CallOpenRoom demo_handle (RoomId 1))), sy_client = in_state\<rparr>"
    by (rule call_through [OF _ _ demo_log_in_work])
      (simp_all add: shown_app_def app_handle_answer_def app_open_room_def chat_new_def open_room_def room_at_def selected_def
        the_lobby_def chat_clear_def chat_changed_def ask_def one_out_def)
  have opened: "run_steps \<lparr>sy_app = shown_app (ScChat ?cleared) None (Some listed_feed) (one_out (CallOpenRoom demo_handle (RoomId 1))),
        sy_client = in_state\<rparr>
      \<lparr>sy_app = shown_app (ScChat opened_chat) (Some opened_feed) (Some listed_feed) background_default, sy_client = in_state\<rparr>"
    by (rule call_through [OF _ _ demo_open_work])
      (simp_all add: shown_app_def app_handle_answer_def opened_chat_def opened_feed_def watch_open_def background_default_def Let_def)
  show ?thesis
    by (rule rtranclp_trans [OF run_connects rtranclp_trans [OF run_types rtranclp_trans [OF signed opened]]])
qed

text \<open>The page the room was opened with is handed to the pane.\<close>

definition read_feed :: messages_feed where
  "read_feed = opened_feed\<lparr>mf_holding := []\<rparr>"

lemma run_shows:
  "run_steps (sys_start run_libs tcp_form demo_db)
     \<lparr>sy_app = shown_app (ScChat (append_batch (room_log demo_db (RoomId 1)) opened_chat)) (Some read_feed) (Some listed_feed)
        background_default, sy_client = in_state\<rparr>"
proof -
  let ?log = "room_log demo_db (RoomId 1)"
  have "mf_holding opened_feed = ?log" "?log \<noteq> []"
    by (simp_all add: opened_feed_def watch_open_def Let_def room_log_def demo_db_def)
  then have "next_start 0 0 opened_feed = (read_feed, Inl ?log)" by (simp add: next_start_held read_feed_def)
  from sys_step.delivered [OF _ _ feed_move.held [OF this, of demo_caps demo_site in_state],
      of "shown_app (ScChat opened_chat) (Some opened_feed) (Some listed_feed) background_default" run_libs plain_draw 0]
  have "sys_step run_libs plain_draw 0 demo_caps demo_site
      \<lparr>sy_app = shown_app (ScChat opened_chat) (Some opened_feed) (Some listed_feed) background_default, sy_client = in_state\<rparr>
      \<lparr>sy_app = shown_app (ScChat (append_batch ?log opened_chat)) (Some read_feed) (Some listed_feed) background_default, sy_client = in_state\<rparr>"
    by (simp add: shown_app_def app_batch_def append_batch_def chat_changed_def opened_chat_def watching_def chat_clear_def
        chat_new_def Let_def)
  then show ?thesis using run_opens by (rule rtranclp.rtrancl_into_rtrancl [rotated])
qed

end
