(* ===== verification/App_Server_Properties.thy ===== *)
theory App_Server_Properties
  imports App_Server_Run
begin

text \<open>
  The terminal client on this server keeps to what the client promises of any server, and what its
  user sees is what the store holds.
\<close>

section \<open>What the app was told\<close>

text \<open>
  The sidebar's rooms are the store's, the pane continues to the feed's cursor, and the answers that
  wait to be read hold.
\<close>

definition told :: "caps \<Rightarrow> db \<Rightarrow> ('i, 'c) app \<Rightarrow> bool" where
  "told k d a \<longleftrightarrow>
     (\<forall>s. ap_screen a = ScChat s \<longrightarrow> rooms_known d (ch_rooms s) \<and>
        (\<forall>f. ap_messages a = Some f \<longrightarrow> feed_at k d (ch_messages s) f)) \<and>
     (\<forall>ans\<in>set (bg_answers (ap_background a)). answer_holds k d ans) \<and>
     (\<forall>f. ap_rooms a = Some f \<longrightarrow> rf_holding f = None)"

text \<open>A change that shows nothing new keeps it.\<close>

definition calmer :: "('i, 'c) app \<Rightarrow> ('i, 'c) app \<Rightarrow> bool" where
  "calmer a a' \<longleftrightarrow>
     (\<forall>s'. ap_screen a' = ScChat s' \<longrightarrow> (\<exists>s. ap_screen a = ScChat s \<and> ch_rooms s' = ch_rooms s \<and>
        (ap_messages a' = None \<or> ap_messages a' = ap_messages a \<and> ch_messages s' = ch_messages s))) \<and>
     set (bg_answers (ap_background a')) \<subseteq> set (bg_answers (ap_background a)) \<and>
     (ap_rooms a' = None \<or> ap_rooms a' = ap_rooms a)"

lemma told_calmer: "told k d a \<Longrightarrow> calmer a a' \<Longrightarrow> told k d a'"
  by (fastforce simp: told_def calmer_def)

lemma calmer_refl [simp]: "calmer a a"
  by (simp add: calmer_def)

lemma calmer_trans: "calmer a b \<Longrightarrow> calmer b c \<Longrightarrow> calmer a c"
  unfolding calmer_def by (fastforce dest: subsetD)

lemma told_grows:
  assumes "db_ok d" and "db_steps k d d'" and "told k d a"
  shows "told k d' a"
proof -
  have "extends d d'" using db_steps_ok assms(1,2) by blast
  then show ?thesis
    using assms(3) rooms_known_grow feed_at_grows [OF assms(1,2)] answer_holds_grows [OF assms(1,2)]
    unfolding told_def by blast
qed

lemma ask_answers [simp]: "bg_answers (fst (ask w b)) = bg_answers b"
  by (simp add: ask_def)

lemma calmer_ask [simp]: "calmer a (app_ask w a)"
  by (cases "ap_screen a") (simp_all add: calmer_def app_ask_def)

lemma calmer_open_room: "calmer a (app_open_room a)"
proof -
  have "bg_answers b = bg_answers (ap_background a)" if "ask w (ap_background a) = (b, asked)" for w b asked
    using ask_answers [of w "ap_background a"] that by simp
  then show ?thesis
    by (cases "ap_screen a")
      (auto simp: calmer_def app_open_room_def chat_clear_def chat_changed_def Let_def split: option.split prod.split)
qed

lemma calmer_signed_out: "calmer a (fst (signed_out L e a))"
  by (simp add: signed_out_def calmer_def background_default_def)

lemma calmer_failed: "calmer a (app_failed L e a)"
proof -
  obtain a1 gone where so: "signed_out L e a = (a1, gone)" by fastforce
  then have "calmer a a1" using calmer_signed_out [of a L e] by simp
  moreover have "calmer a1 (app_failed L e a)"
    using so by (cases "ap_screen a1") (auto simp: app_failed_def calmer_def Let_def)
  ultimately show ?thesis by (rule calmer_trans)
qed

lemma calmer_refused: "calmer a (app_refused L e a)"
proof -
  obtain a1 gone where so: "signed_out L e a = (a1, gone)" by fastforce
  then have "calmer a a1" using calmer_signed_out [of a L e] by simp
  moreover have "calmer a1 (app_refused L e a)"
    using so by (cases "ap_screen a1") (auto simp: app_refused_def calmer_def warn_def chat_changed_def Let_def)
  ultimately show ?thesis by (rule calmer_trans)
qed

lemma calmer_screen:
  assumes "ap_screen a = ScChat s" and "ch_rooms s' = ch_rooms s" and "ch_messages s' = ch_messages s"
  shows "calmer a (a\<lparr>ap_screen := ScChat s'\<rparr>)"
  using assms by (simp add: calmer_def)

text \<open>Selecting another room empties the pane at once, and with no call out the feed goes with it.\<close>

lemma open_room_lets_go:
  assumes "ap_screen a = ScChat s" "chat_ok s" "ap_client a \<noteq> None" "ap_background a = background_default"
  shows "ap_messages (app_open_room a) = None \<and> ap_screen (app_open_room a) = ScChat (chat_clear s) \<and>
    ap_rooms (app_open_room a) = ap_rooms a \<and> bg_answers (ap_background (app_open_room a)) = []"
proof -
  obtain cl r where "ap_client a = Some cl" "open_room s = Some r"
    using assms(2,3) by (auto simp: chat_ok_def open_room_def room_at_def)
  then show ?thesis using assms by (simp add: app_open_room_def)
qed

lemma calmer_key:
  assumes "app_inv posted a"
  shows "calmer a (app_key L key a)"
proof (cases "ap_screen a")
  case (ScChat s)
  obtain s' out where r: "chat_key (al_width L) (al_input L) key (bg_pending (ap_background a)) s = (s', out)" by force
  let ?a = "a\<lparr>ap_screen := ScChat s'\<rparr>"
  have rms: "ch_rooms s' = ch_rooms s"
    using chat_key_frame(1) [of "al_width L" "al_input L" key "bg_pending (ap_background a)" s] r by simp
  have ok: "chat_ok s'"
    using chat_key_ok [of s "al_width L" "al_input L" key "bg_pending (ap_background a)"] r assms ScChat
    by (simp add: app_inv_def pane_ok_def)
  have "calmer a (case out of None \<Rightarrow> ?a | Some (CSend body) \<Rightarrow> app_send body ?a
      | Some (CCreate name) \<Rightarrow> app_create_room name ?a | Some COpen \<Rightarrow> app_open_room ?a)"
  proof (cases "out = Some COpen")
    case True
    then have "ap_background a = background_default"
      using chat_key_selection(1) [OF r] assms idle_default by (auto simp: app_inv_def)
    then have "ap_messages (app_open_room ?a) = None \<and> ap_screen (app_open_room ?a) = ScChat (chat_clear s') \<and>
        ap_rooms (app_open_room ?a) = ap_rooms a \<and> bg_answers (ap_background (app_open_room ?a)) = []"
      using open_room_lets_go [of ?a s'] ok assms ScChat by (simp add: app_inv_def)
    then show ?thesis using True ScChat rms by (simp add: calmer_def chat_clear_def chat_changed_def)
  next
    case False
    then have "calmer a ?a" using calmer_screen [OF ScChat rms] chat_key_selection(2) [OF r] by simp
    moreover have "calmer ?a (app_send body ?a)" "calmer ?a (app_create_room name ?a)" for body name
      by (simp_all add: app_send_def app_create_room_def split: option.split)
    ultimately show ?thesis using False calmer_trans by (fastforce split: option.split chat_intent.split)
  qed
  moreover have "calmer a (a\<lparr>ap_exit := True\<rparr>)" using ScChat by (simp add: calmer_def)
  ultimately show ?thesis using ScChat r by (auto simp: app_key_def Let_def split: option.splits chat_intent.splits)
qed (auto simp: app_key_def calmer_def app_connect_def app_register_def app_log_in_def app_ask_def Let_def
    split: option.split prod.split sign_in_intent.split)

section \<open>Every step keeps it\<close>

definition anything :: "room_id \<Rightarrow> message \<Rightarrow> bool" where
  "anything r m \<longleftrightarrow> True"

definition sys_inv :: "caps \<Rightarrow> 'i system \<Rightarrow> bool" where
  "sys_inv k sy \<longleftrightarrow> app_inv anything (sy_app sy) \<and> client_fine (sy_client sy) \<and> told k (cs_net (sy_client sy)) (sy_app sy)"

lemma told_background:
  "told k d a \<Longrightarrow> \<forall>ans\<in>set (bg_answers b). answer_holds k d ans \<Longrightarrow> told k d (a\<lparr>ap_background := b\<rparr>)"
  by (simp add: told_def)

lemma told_answer:
  assumes inv: "app_inv anything a" and ans: "bg_answers (ap_background a) = ans # rest" and t: "told k d a"
  shows "told k d (app_handle_answer L ans (a\<lparr>ap_background := (ap_background a)\<lparr>bg_answers := rest\<rparr>\<rparr>))"
proof -
  let ?a = "a\<lparr>ap_background := background_default\<rparr>"
  have bg: "background_ok (screen_stage (ap_screen a)) (ap_background a)" using inv by (simp add: app_inv_def)
  have eq: "(ap_background a)\<lparr>bg_answers := rest, bg_pending := False\<rparr> = background_default"
    using answered_default [OF bg ans] .
  have holds: "answer_holds k d ans" using t ans by (simp add: told_def)
  have stage: "answer_stage ans = screen_stage (ap_screen a)" using bg ans by (simp add: background_ok_def)
  have t': "told k d ?a" using t by (rule told_background) (simp add: background_default_def)
  have quiet: "told k d (app_refused L e b)" if "told k d b" for e b
    using told_calmer [OF that calmer_refused] .
  show ?thesis
  proof (cases ans)
    case (Connected r)
    have "told k d (?a\<lparr>ap_client := Some cl, ap_screen := ScSignIn si\<rparr>)" for cl si
      using t' by (simp add: told_def)
    then show ?thesis using Connected quiet [OF t'] eq by (cases r) (simp_all add: app_handle_answer_def)
  next
    case (Registered r)
    then obtain s where s: "ap_screen a = ScSignIn s" using stage by (cases "ap_screen a") auto
    have "told k d (app_log_in u p ?a)" for u p
      using t' told_calmer [OF t' calmer_ask] by (simp add: app_log_in_def split: option.split)
    then show ?thesis using Registered s quiet [OF t'] eq by (cases r) (auto simp: app_handle_answer_def Let_def split: prod.split)
  next
    case (LoggedIn u r)
    then have none: "ap_messages a = None" using inv stage by (cases "ap_screen a") (auto simp: app_inv_def)
    show ?thesis
    proof (cases r)
      case (Inr fr)
      obtain f rs where fr: "fr = (f, rs)" by fastforce
      then have "rf_holding f = None" "rooms_known d rs" using holds LoggedIn Inr by auto
      then have "told k d (?a\<lparr>ap_rooms := Some f, ap_screen := ScChat (chat_new (al_input L) rs u)\<rparr>)"
        using none by (simp add: told_def background_default_def chat_new_def)
      from told_calmer [OF this calmer_open_room] show ?thesis
        using LoggedIn Inr fr eq by (simp add: app_handle_answer_def)
    qed (use LoggedIn quiet [OF t'] eq in \<open>simp add: app_handle_answer_def\<close>)
  next
    case (RoomOpened r)
    then obtain s where s: "ap_screen a = ScChat s" using stage by (cases "ap_screen a") auto
    show ?thesis
    proof (cases r)
      case (Inl e)
      have "told k d (?a\<lparr>ap_reopen := True\<rparr>)" using t' by (simp add: told_def)
      then show ?thesis using RoomOpened Inl quiet eq by (simp add: app_handle_answer_def)
    next
      case (Inr f)
      have "pane_ok anything s (ap_messages a) (ap_reopen a) (ap_background a)" using inv s by (simp add: app_inv_def)
      then have "ch_messages s = []"
        using ans RoomOpened by (cases "ap_messages a") (auto simp: pane_ok_def room_asked_def)
      then show ?thesis
        using RoomOpened Inr s eq holds t by (auto simp: app_handle_answer_def told_def watching_def background_default_def)
    qed
  next
    case (MessageSent body r)
    then obtain s where s: "ap_screen a = ScChat s" using stage by (cases "ap_screen a") auto
    have "told k d (?a\<lparr>ap_screen := ScChat (restore (al_input L) body s)\<rparr>)"
      using t' s by (simp add: told_def restore_def)
    then show ?thesis using MessageSent s t' quiet eq by (cases r) (simp_all add: app_handle_answer_def)
  next
    case (RoomCreated r)
    then show ?thesis using t' quiet eq by (cases r) (simp_all add: app_handle_answer_def)
  qed
qed

lemma told_batch:
  assumes "app_inv anything a" and "ap_messages a = Some f" and "told k d a"
    and "\<And>s. ap_screen a = ScChat s \<Longrightarrow> feed_at k d (ch_messages s @ handed (Some batch)) f'"
  shows "told k d (app_batch L batch (a\<lparr>ap_messages := Some f'\<rparr>))"
proof -
  obtain s where s: "ap_screen a = ScChat s" using assms(1,2) by (cases "ap_screen a") (auto simp: app_inv_def)
  show ?thesis
  proof (cases batch)
    case (Inl e)
    then have "told k d (a\<lparr>ap_messages := Some f'\<rparr>)" using assms(3,4) s by (simp add: told_def handed_def)
    then show ?thesis using Inl told_calmer [OF _ calmer_failed] by (simp add: app_batch_def)
  next
    case (Inr ms)
    then show ?thesis using assms(3,4) s
      by (simp add: app_batch_def told_def handed_def append_batch_def chat_changed_def Let_def)
  qed
qed

lemma told_rooms:
  assumes "told k d a" and "rf_holding g' = None" and "\<And>rs. listed = Inr rs \<Longrightarrow> rooms_known d rs"
  shows "told k d (app_rooms L listed (a\<lparr>ap_rooms := Some g'\<rparr>))"
proof (cases listed)
  case (Inl e)
  have "told k d (a\<lparr>ap_rooms := Some g'\<rparr>)" using assms(1,2) by (simp add: told_def)
  then show ?thesis using Inl told_calmer [OF _ calmer_failed] by (simp add: app_rooms_def)
next
  case (Inr rs)
  let ?a = "a\<lparr>ap_rooms := Some g'\<rparr>"
  let ?b = "case ap_screen ?a of ScChat s \<Rightarrow> ?a\<lparr>ap_screen := ScChat ((show_rooms rs s)\<lparr>ch_error := None\<rparr>)\<rparr> | _ \<Rightarrow> ?a"
  have "told k d ?b"
    using assms Inr by (cases "ap_screen a") (auto simp: told_def show_rooms_def Let_def)
  then show ?thesis
    using Inr told_calmer [OF _ calmer_open_room] by (auto simp: app_rooms_def Let_def)
qed

lemma feed_at_handed:
  assumes "feed_at k d (got @ ms) f" and "m \<in> set ms"
  shows "m \<in> set (room_log d (mf_room f))"
  using feed_at_log [OF assms(1)] assms(2) by (metis Un_iff set_append)

text \<open>More may have been posted.\<close>

lemma app_step_mono:
  assumes "app_step L D here posted a a'" and "\<And>r m. posted r m \<Longrightarrow> posted' r m"
  shows "app_step L D here posted' a a'"
  using assms(1)
proof cases
  case (delivered f f' batch)
  then show ?thesis using assms(2) by (auto intro!: app_step.delivered simp: list_all_iff)
qed (auto intro: app_step.intros)

definition in_log :: "db \<Rightarrow> room_id \<Rightarrow> message \<Rightarrow> bool" where
  "in_log d r m \<longleftrightarrow> m \<in> set (room_log d r)"

lemma rooms_move_keeps:
  assumes "rooms_move k S g st g' st' out" and "site_ok k S" and "client_fine st" and "rf_holding g = None"
  shows "follows k st st' \<and> rf_holding g' = None \<and>
    (\<forall>rs. out = Some (Inr rs) \<longrightarrow> rs = map (room_view (cs_net st')) (rooms (cs_net st')))"
  using assms(1)
proof cases
  case (listed c m r out' list)
  have "follows k st st'"
    using get_follows [OF assms(2,3) listed(3,4) refl listed(5) [unfolded client_rooms_def]] .
  moreover have "r = Ok rs \<Longrightarrow> rs = map (room_view (cs_net st')) (rooms (cs_net st'))" for rs
    using rooms_listed [OF assms(2,3)] listed(5) by blast
  ultimately show ?thesis using assms(4) listed(1,6,7) by (auto simp: rooms_next_settle_def)
qed (use assms(4) in \<open>auto simp: rooms_next_start_def Let_def\<close>)

lemma sys_step_keeps:
  assumes "sys_step L D here k S sy sy'" and "site_ok k S" and "draw_ok D" and "sys_inv k sy"
  shows "follows k (sy_client sy) (sy_client sy') \<and> told k (cs_net (sy_client sy')) (sy_app sy') \<and>
    (sy_app sy' = sy_app sy \<or> app_step L D here (in_log (cs_net (sy_client sy'))) (sy_app sy) (sy_app sy'))"
  using assms(1)
proof cases
  case (pressed a key st)
  then show ?thesis using assms(4) told_calmer [OF _ calmer_key] app_step.pressed by (fastforce simp: sys_inv_def)
next
  case (closed a st)
  have "calmer a (a\<lparr>ap_exit := True\<rparr>)" by (cases "ap_screen a") (simp_all add: calmer_def)
  then show ?thesis using closed assms(4) told_calmer app_step.closed by (fastforce simp: sys_inv_def)
next
  case (finished a us call vs M st st' ans)
  have fine: "client_fine st" and t: "told k (cs_net st) a" using assms(4) finished(1) by (simp_all add: sys_inv_def)
  note kept = work_keeps [OF finished(4) assms(2) fine finished(5)]
  have "db_ok (cs_net st)" "db_steps k (cs_net st) (cs_net st')" using fine kept by (simp_all add: client_fine_def follows_def)
  then have "told k (cs_net st') a" using told_grows t by blast
  then have "told k (cs_net st') (sy_app sy')"
    using kept finished(2) by (auto simp: told_def)
  then show ?thesis using kept finished app_step.finished [OF finished(3)] by simp
next
  case (answered a ans rest st)
  then show ?thesis using assms(4) told_answer app_step.answered by (fastforce simp: sys_inv_def)
next
  case (delivered a f st f' st' batch)
  obtain s where s: "ap_screen a = ScChat s"
    using assms(4) delivered(1,4) by (cases "ap_screen a") (auto simp: sys_inv_def app_inv_def)
  have at: "feed_at k (cs_net st) (ch_messages s) f" using assms(4) delivered(1,4) s by (simp add: sys_inv_def told_def)
  have fine: "client_fine st" using assms(4) delivered(1) by (simp add: sys_inv_def)
  note kept = feed_move_keeps [OF delivered(5) assms(2) fine at]
  have "told k (cs_net st') a"
    using told_grows [of "cs_net st" k "cs_net st'" a] kept fine assms(4) delivered(1)
    by (simp add: sys_inv_def follows_def client_fine_def)
  then have t: "told k (cs_net st') (sy_app sy')"
    using told_batch [of a f] kept assms(4) delivered(1,2,4) s by (simp add: sys_inv_def)
  have "list_all (in_log (cs_net st') (mf_room f)) ms" if "batch = Inr ms" for ms
    using kept that feed_at_handed [of k "cs_net st'" "ch_messages s" ms f'] by (auto simp: list_all_iff in_log_def handed_def)
  then have "app_step L D here (in_log (cs_net st')) a (sy_app sy')"
    unfolding delivered(2) system.select_convs using delivered(3,4) kept by (intro app_step.delivered) auto
  then show ?thesis using t kept delivered(1,2) by simp
next
  case (waited a f st f' st')
  obtain s where s: "ap_screen a = ScChat s"
    using assms(4) waited(1,4) by (cases "ap_screen a") (auto simp: sys_inv_def app_inv_def)
  have at: "feed_at k (cs_net st) (ch_messages s) f" using assms(4) waited(1,4) s by (simp add: sys_inv_def told_def)
  have fine: "client_fine st" using assms(4) waited(1) by (simp add: sys_inv_def)
  note kept = feed_move_keeps [OF waited(5) assms(2) fine at]
  have "told k (cs_net st') a"
    using told_grows [of "cs_net st" k "cs_net st'" a] kept fine assms(4) waited(1)
    by (simp add: sys_inv_def follows_def client_fine_def)
  then have "told k (cs_net st') (sy_app sy')" using kept s waited(2) by (simp add: told_def handed_def)
  then show ?thesis using kept waited(1,2) app_step.waited [OF waited(4)] by simp
next
  case (listed a g st g' st' list)
  have fine: "client_fine st" and t: "told k (cs_net st) a" using assms(4) listed(1) by (simp_all add: sys_inv_def)
  note kept = rooms_move_keeps [OF listed(5) assms(2) fine]
  have none: "rf_holding g = None" using t listed(4) by (simp add: told_def)
  have "client_fine st'" using follows_fine [OF fine] kept none by blast
  then have "db_ok (cs_net st')" "rooms (cs_net st') \<noteq> []" by (simp_all add: client_fine_def)
  note views = room_views [OF this]
  have t': "told k (cs_net st') a"
    using told_grows [of "cs_net st" k "cs_net st'" a] kept none fine t by (simp add: follows_def client_fine_def)
  have "rooms_ok rs \<and> keeps_rooms (ch_rooms s) rs" if "list = Inr rs" "ap_screen a = ScChat s" for rs s
    using that kept none views(1,3) t' by (simp add: told_def)
  then have "app_step L D here (in_log (cs_net st')) a (sy_app sy')"
    unfolding listed(2) system.select_convs using listed(3,4) by (intro app_step.listed) auto
  moreover have "told k (cs_net st') (sy_app sy')"
    unfolding listed(2) system.select_convs using told_rooms [OF t'] kept none views(2) by blast
  ultimately show ?thesis using kept none listed(1,2) by simp
next
  case (idled a g st g' st')
  have fine: "client_fine st" and t: "told k (cs_net st) a" using assms(4) idled(1) by (simp_all add: sys_inv_def)
  have none: "rf_holding g = None" using t idled(4) by (simp add: told_def)
  note kept = rooms_move_keeps [OF idled(5) assms(2) fine none]
  have "told k (cs_net st') a"
    using told_grows [of "cs_net st" k "cs_net st'" a] kept fine t by (simp add: follows_def client_fine_def)
  then have "told k (cs_net st') (sy_app sy')" using kept idled(2) by (simp add: told_def)
  then show ?thesis using kept idled(1,2,4) app_step.idled [of a] by simp
next
  case (drawn a s st area)
  have ok: "chat_ok s" using assms(4) drawn(1,3) by (simp add: sys_inv_def app_inv_def pane_ok_def)
  have "calmer a (sy_app sy')"
    using drawn(2) calmer_screen [OF drawn(3)] chat_draw_frame(1,5) [OF ok assms(3), of "al_width L" here area]
    by (simp add: pane_view_def)
  then show ?thesis using drawn assms(4) told_calmer app_step.drawn by (fastforce simp: sys_inv_def)
next
  case (served st s' a)
  then show ?thesis using assms(4) told_grows [of "cs_net st" k s' a] by (simp add: sys_inv_def follows_def client_fine_def)
qed

lemma sys_step_inv:
  assumes "sys_step L D here k S sy sy'" and "site_ok k S" and "draw_ok D" and "sys_inv k sy"
  shows "sys_inv k sy'"
proof -
  note kept = sys_step_keeps [OF assms]
  have "app_inv anything (sy_app sy')"
  proof (cases "sy_app sy' = sy_app sy")
    case True
    then show ?thesis using assms(4) by (simp add: sys_inv_def)
  next
    case False
    then have "app_step L D here anything (sy_app sy) (sy_app sy')"
      using kept app_step_mono [of L D here "in_log (cs_net (sy_client sy'))" "sy_app sy" "sy_app sy'" anything]
      by (simp add: anything_def)
    then show ?thesis using app_step_inv assms(3,4) by (auto simp: sys_inv_def)
  qed
  then show ?thesis using kept follows_fine assms(4) by (auto simp: sys_inv_def)
qed

lemma sys_start_inv: "db_ok d \<Longrightarrow> rooms d \<noteq> [] \<Longrightarrow> sys_inv k (sys_start L form d)"
  using app_new_inv [of anything L form]
  by (simp add: sys_inv_def sys_start_def client_fine_def told_def app_new_def background_default_def)

lemma in_log_grows:
  assumes "db_ok d" and "db_steps k d d'" and "in_log d r m"
  shows "in_log d' r m"
proof -
  have "extends d d'" using db_steps_ok assms(1,2) by blast
  then obtain ms where "room_log d' r = room_log d r @ ms" using room_log_extends by blast
  then show ?thesis using assms(3) by (simp add: in_log_def)
qed

lemma sys_steps:
  assumes "(sys_step L D here k S)\<^sup>*\<^sup>* (sys_start L form d) sy" and "site_ok k S" and "draw_ok D"
    and "db_ok d" and "rooms d \<noteq> []"
  shows "sys_inv k sy \<and> db_steps k d (cs_net (sy_client sy)) \<and>
    (app_step L D here (in_log (cs_net (sy_client sy))))\<^sup>*\<^sup>* (app_new L form) (sy_app sy)"
  using assms(1)
proof (induction rule: rtranclp_induct)
  case base
  then show ?case using sys_start_inv [OF assms(4,5), of k L form] by (simp add: sys_start_def)
next
  case (step sy sy')
  note kept = sys_step_keeps [OF step(2) assms(2,3)] and inv = sys_step_inv [OF step(2) assms(2,3)]
  have grown: "db_steps k (cs_net (sy_client sy)) (cs_net (sy_client sy'))" "db_ok (cs_net (sy_client sy))"
    using kept step(3) by (auto simp: follows_def sys_inv_def client_fine_def)
  let ?P = "in_log (cs_net (sy_client sy))" and ?Q = "in_log (cs_net (sy_client sy'))"
  have "app_step L D here ?P \<le> app_step L D here ?Q"
    using app_step_mono in_log_grows [OF grown(2,1)] by blast
  then have "(app_step L D here ?Q)\<^sup>*\<^sup>* (app_new L form) (sy_app sy)"
    using rtranclp_mono step(3) by blast
  then have "(app_step L D here ?Q)\<^sup>*\<^sup>* (app_new L form) (sy_app sy')"
    using kept step(3) by (metis rtranclp.rtrancl_into_rtrancl)
  then show ?case using inv step(3) grown(1) by (meson rtranclp_trans)
qed

section \<open>Properties\<close>

text \<open>C2: The terminal client on this server is the terminal client: whatever is pressed, whichever calls
  are answered, refused or overtaken, and whatever other clients do meanwhile, the app's run is one
  its environment's contract allows, with as posted exactly what the store holds; so what is proved of the app over
  that contract holds of it here. And every room the sidebar lists is a room of the store, under its name.\<close>

theorem client_on_server:
  assumes "site_ok k S" and "draw_ok D" and "db_ok d" and "rooms d \<noteq> []"
    and "(sys_step L D here k S)\<^sup>*\<^sup>* (sys_start L form d) sy"
  shows "(app_step L D here (in_log (cs_net (sy_client sy))))\<^sup>*\<^sup>* (app_new L form) (sy_app sy) \<and>
    db_steps k d (cs_net (sy_client sy)) \<and>
    (\<forall>s. ap_screen (sy_app sy) = ScChat s \<longrightarrow> rooms_known (cs_net (sy_client sy)) (ch_rooms s))"
  using sys_steps [OF assms(5,1-4)] by (simp add: sys_inv_def told_def)

lemma demo_db_rooms: "rooms demo_db \<noteq> []"
  by (simp add: demo_db_def)

corollary client_on_server_witness:
  "(app_step run_libs plain_draw 0 (in_log demo_db))\<^sup>*\<^sup>* (app_new run_libs tcp_form)
     (shown_app (ScChat (append_batch (room_log demo_db (RoomId 1)) opened_chat)) (Some read_feed) (Some listed_feed) background_default)"
  using client_on_server [OF demo_site_ok plain_draw_ok demo_db_ok demo_db_rooms run_shows] by (simp add: in_state_def)



end
