(* ===== verification/Feed_Liveness.thy ===== *)
theory Feed_Liveness
  imports Wire_Properties
begin

text \<open>
  A feed that is behind catches up: a reader that calls \<open>next\<close> (crates/chat-client-core/src/feed.rs)
  again and again is handed the whole backlog, page after page with no wait between, and then
  waits; it does not spin, however long the backlog.
\<close>

section \<open>Reading until the feed waits\<close>

definition due_later :: "int \<Rightarrow> feed_point \<Rightarrow> bool" where
  "due_later t p = (case p of Waiting d \<Rightarrow> t < d | _ \<Rightarrow> False)"

text \<open>
  A reader at the time \<open>t\<close>, on a server to which nothing is posted meanwhile: what it is handed, call
  by call, until a call has to wait. A call that found nothing goes round its loop, which is where a
  new call resumes. Nothing in it says that it ends.
\<close>

partial_function (option) catch_up ::
  "(room_id \<Rightarrow> seq \<Rightarrow> message list) \<Rightarrow> u64 \<Rightarrow> int \<Rightarrow> int \<Rightarrow> messages_feed \<Rightarrow> message list list
     \<Rightarrow> (messages_feed \<times> message list list) option" where
  "catch_up read psize i t f got =
     (case next_start i t f of
        (f1, Inl ms) \<Rightarrow> catch_up read psize i t f1 (got @ [ms])
      | (f1, Inr p) \<Rightarrow>
          (if due_later t p then Some (f1, got)
           else
             (case next_settle psize i t (Ok (read (mf_room f1) (mf_cursor f1))) f1 of
                (f2, Inl (Ok ms)) \<Rightarrow> catch_up read psize i t f2 (got @ [ms])
              | (f2, _) \<Rightarrow> catch_up read psize i t f2 got)))"

lemma catch_up_waits:
  assumes "mf_holding f = []" and "mf_due f = Some d \<or> mf_due f = None \<and> \<not> mf_catching_up f \<and> d = t + i" and "t < d"
  shows "catch_up read psize i t f got = Some (f\<lparr>mf_due := Some d\<rparr>, got)"
proof -
  have "next_start i t f = (f\<lparr>mf_due := Some d\<rparr>, Inr (Waiting d))"
    using assms(1,2) by (auto simp: next_start_def next_head_def Let_def)
  then show ?thesis using assms(3) by (simp add: catch_up.simps due_later_def)
qed

text \<open>A feed that may fetch at once: it is catching up, or its wait is over.\<close>

definition may_fetch :: "int \<Rightarrow> messages_feed \<Rightarrow> bool" where
  "may_fetch t f \<longleftrightarrow> (case mf_due f of Some d \<Rightarrow> d \<le> t | None \<Rightarrow> mf_catching_up f)"

lemma catch_up_fetches:
  assumes "mf_holding f = []" and "may_fetch t f"
  shows "catch_up read psize i t f got =
    (case next_settle psize i t (Ok (read (mf_room f) (mf_cursor f))) f of
       (f2, Inl (Ok ms)) \<Rightarrow> catch_up read psize i t f2 (got @ [ms])
     | (f2, _) \<Rightarrow> catch_up read psize i t f2 got)"
proof -
  obtain p where "next_start i t f = (f, Inr p)" "\<not> due_later t p"
    using assms by (auto simp: next_start_def next_head_def may_fetch_def due_later_def Let_def split: option.splits)
  then show ?thesis by (subst catch_up.simps) simp
qed

lemma catch_up_log:
  assumes sorted: "sorted_wrt (<) (map msg_seq xs)"
    and reads: "\<And>c. c = c0 \<or> c \<in> msg_seq ` set xs \<Longrightarrow> read r c = take (unat psize) (beyond c xs)"
    and positive: "0 < unat psize" "0 < i"
    and start: "mf_holding f = []" "may_fetch t f" "mf_room f = r" "mf_cursor f = c0 \<or> mf_cursor f \<in> msg_seq ` set xs"
  shows "\<exists>f' bs. catch_up read psize i t f got = Some (f', got @ bs) \<and> concat bs = beyond (mf_cursor f) xs \<and> [] \<notin> set bs \<and>
    length bs * unat psize < length (beyond (mf_cursor f) xs) + unat psize \<and>
    mf_due f' = Some (t + i) \<and> \<not> mf_catching_up f' \<and> beyond (mf_cursor f') xs = []"
  using start
proof (induction "length (beyond (mf_cursor f) xs)" arbitrary: f got rule: less_induct)
  case less
  let ?n = "unat psize" and ?rest = "beyond (mf_cursor f) xs"
  let ?ms = "take ?n ?rest"
  have read: "read (mf_room f) (mf_cursor f) = ?ms" using reads less.prems(3,4) by simp
  show ?case
  proof (cases "?rest = []")
    case True
    then have "next_settle psize i t (Ok ?ms) f = (f\<lparr>mf_due := Some (t + i), mf_catching_up := False\<rparr>, Inr (Waiting (t + i)))"
      using positive by (simp add: next_settle_def next_head_def Let_def)
    then have "catch_up read psize i t f got = Some (f\<lparr>mf_due := Some (t + i), mf_catching_up := False\<rparr>, got)"
      using catch_up_fetches [OF less.prems(1,2)] catch_up_waits [of "f\<lparr>mf_due := Some (t + i), mf_catching_up := False\<rparr>" "t + i"]
        less.prems(1) positive(2) by (simp add: read)
    then show ?thesis using True positive by auto
  next
    case False
    then have ms: "?ms \<noteq> []" using positive by simp
    define f2 where "f2 = f\<lparr>mf_due := None, mf_catching_up := ?n \<le> length ?ms, mf_cursor := msg_seq (last ?ms)\<rparr>"
    have "next_settle psize i t (Ok ?ms) f = (f2, Inl (Ok ?ms))" using ms by (simp add: next_settle_def f2_def)
    then have step: "catch_up read psize i t f got = catch_up read psize i t f2 (got @ [?ms])"
      using catch_up_fetches [OF less.prems(1,2)] by (simp add: read)
    have rest2: "beyond (mf_cursor f2) xs = drop ?n ?rest" using beyond_take_last [OF sorted ms] by (simp add: f2_def)
    have holding: "mf_holding f2 = []" "mf_room f2 = r" using less.prems(1,3) by (simp_all add: f2_def)
    show ?thesis
    proof (cases "?n \<le> length ?ms")
      case True
      have "set ?ms \<subseteq> set xs" by (auto simp: beyond_def dest!: in_set_takeD)
      then have "last ?ms \<in> set xs" using last_in_set [OF ms] by blast
      then have "mf_cursor f2 \<in> msg_seq ` set xs" by (simp add: f2_def)
      moreover have "length (beyond (mf_cursor f2) xs) < length ?rest" using rest2 positive False by simp
      moreover have "may_fetch t f2" using True by (simp add: may_fetch_def f2_def)
      ultimately obtain f' bs where ih: "catch_up read psize i t f2 (got @ [?ms]) = Some (f', (got @ [?ms]) @ bs)"
        "concat bs = drop ?n ?rest" "[] \<notin> set bs" "length bs * ?n < length (drop ?n ?rest) + ?n"
        "mf_due f' = Some (t + i)" "\<not> mf_catching_up f'" "beyond (mf_cursor f') xs = []"
        using less.hyps [of f2 "got @ [?ms]"] holding rest2 by metis
      show ?thesis
        by (intro exI [of _ f'] exI [of _ "?ms # bs"]) (use ih step ms True in \<open>auto simp: min_def split: if_splits\<close>)
    next
      case short: False
      then have over: "drop ?n ?rest = []" by simp
      have "catch_up read psize i t f2 (got @ [?ms]) = Some (f2\<lparr>mf_due := Some (t + i)\<rparr>, got @ [?ms])"
        using short positive(2) by (intro catch_up_waits) (simp_all add: holding, simp add: f2_def)
      then show ?thesis
        using step ms over rest2 short False
        by (intro exI [of _ "f2\<lparr>mf_due := Some (t + i)\<rparr>"] exI [of _ "[?ms]"]) (simp add: f2_def)
    qed
  qed
qed

section \<open>Over the wire\<close>

text \<open>A page asked for within the server's maximum is exactly as long as what is there allows.\<close>

lemma client_page_exact:
  assumes "client_page k p s r c ms" and "unat (page_size p) \<le> 200"
  shows "ms = take (unat (page_size p)) (beyond c (room_log s r))"
proof -
  from assms(1) obtain W origin dp version st poll cl m ses s0 cst where
    ok: "wire_ok W" "origin_ok origin" "token_text ses" "unat (page_size p) < 2 ^ 32"
    and db: "db_ok s0" "call_ok db_ok (db_steps k) cl" "as_store st = sqlite_store k"
    and run: "client_messages (at_server W dp version st origin poll cl) m r (page_size p) (AfterC c)
      \<lparr>cs_session = Some ses, cs_net = s0\<rparr> = (cst, Ok ms)" "cs_net cst = s"
    unfolding client_page_def fetches_def by blast
  have "pg_after_seq (page_of (page_size p) (AfterC c)) = Some (seq_get c)" "pg_before_seq (page_of (page_size p) (AfterC c)) = None"
    by (simp_all add: page_of_def)
  then have "ms = take (unat (page_limit (page_of (page_size p) (AfterC c)))) (beyond c (room_log s r))"
    using sqlite.messages_list_page [OF db client_messages_Ok [OF ok run(1)]] run(2) by (auto simp: respond_body_inj)
  moreover have "1 \<le> unat (page_size p)" using page_size_pos [of p] by linarith
  ultimately show ?thesis using page_limit_of assms(2) by simp
qed

text \<open>C12: Catching up ends: a reader whose feed may fetch now is handed everything the store holds past its
  cursor, in one go: full pages one after another without a wait, none empty, as many as the backlog
  fills and no more; then the feed waits one interval from now, with nothing left past its cursor.
  This is for page limits up to the server's maximum.\<close>

theorem feed_catches_up:
  assumes "db_ok s" and "unat (page_size p) \<le> 200" and "0 < pc_messages_interval p"
    and "\<forall>c. c = mf_cursor f \<or> c \<in> msg_seq ` set (room_log s (mf_room f)) \<longrightarrow> client_page k p s (mf_room f) c (read (mf_room f) c)"
    and "mf_holding f = []" and "may_fetch t f"
  shows "\<exists>f' batches. catch_up read (page_size p) (int (pc_messages_interval p)) t f [] = Some (f', batches) \<and>
    concat batches = beyond (mf_cursor f) (room_log s (mf_room f)) \<and> [] \<notin> set batches \<and>
    length batches * unat (page_size p) < length (concat batches) + unat (page_size p) \<and>
    mf_due f' = Some (t + int (pc_messages_interval p)) \<and> beyond (mf_cursor f') (room_log s (mf_room f)) = []"
proof -
  have reads: "read (mf_room f) c = take (unat (page_size p)) (beyond c (room_log s (mf_room f)))"
    if "c = mf_cursor f \<or> c \<in> msg_seq ` set (room_log s (mf_room f))" for c
    using client_page_exact assms(2,4) that by blast
  note ends = catch_up_log [where xs = "room_log s (mf_room f)" and ?c0.0 = "mf_cursor f" and read = read and r = "mf_room f"
      and psize = "page_size p" and i = "int (pc_messages_interval p)" and f = f and t = t and got = "[]"]
  show ?thesis using ends [OF room_log_sorted [OF assms(1)] reads page_size_pos _ assms(5,6)] assms(3) by auto
qed

text \<open>
  Above the maximum the server's longest page is shorter than the one asked for, so the feed takes
  every page for the last one and waits a whole interval after each, whatever is left.
\<close>

lemma page_limit_above_maximum:
  assumes "client_page k p s r c ms" and "200 < unat (page_size p)"
    and "next_settle (page_size p) i t (Ok ms) f = (f', out)"
  shows "length ms \<le> 200 \<and> \<not> mf_catching_up f'"
proof -
  from assms(1) obtain W origin dp version st poll cl m ses s0 cst where
    ok: "wire_ok W" "origin_ok origin" "token_text ses" "unat (page_size p) < 2 ^ 32"
    and db: "db_ok s0" "call_ok db_ok (db_steps k) cl" "as_store st = sqlite_store k"
    and run: "client_messages (at_server W dp version st origin poll cl) m r (page_size p) (AfterC c)
      \<lparr>cs_session = Some ses, cs_net = s0\<rparr> = (cst, Ok ms)"
    unfolding client_page_def fetches_def by blast
  have "pg_after_seq (page_of (page_size p) (AfterC c)) = Some (seq_get c)" "pg_before_seq (page_of (page_size p) (AfterC c)) = None"
    by (simp_all add: page_of_def)
  then have "length ms \<le> unat (page_limit (page_of (page_size p) (AfterC c)))"
    using sqlite.messages_list_page [OF db client_messages_Ok [OF ok run]] by (auto simp: respond_body_inj)
  then have "length ms \<le> 200" using page_limit_bounds(2) order_trans by blast
  then show ?thesis using assms(2,3)
    by (auto simp: next_settle_def next_head_def Let_def split: if_splits option.splits)
qed

lemma demo_pages:
  assumes "uint (seq_get c) \<le> i64_max" and "unat (page_size p) \<le> 200"
  shows "client_page demo_caps p demo_db (RoomId 1) c (take (unat (page_size p)) (beyond c (room_log demo_db (RoomId 1))))"
proof -
  let ?ms = "take (unat (page_size p)) (beyond c (room_log demo_db (RoomId 1)))"
  have limit: "unat (page_limit (page_of (page_size p) (AfterC c))) = unat (page_size p)"
    using page_limit_of assms(2) page_size_pos [of p] by (metis One_nat_def Suc_leI)
  have "pg_after_seq (page_of (page_size p) (AfterC c)) = Some (seq_get c)" "pg_before_seq (page_of (page_size p) (AfterC c)) = None"
    by (simp_all add: page_of_def)
  moreover have "authenticated demo_deps (as_tokens demo_server) 0 (bearing ann_session) = Ok (lit ''ann'')"
    using demo_auth by (simp add: bearing_def ann_session_def)
  ultimately have "messages_list demo_deps demo_server (demo_call 0) (bearing ann_session) (Inr (room_id_get (RoomId 1)))
      (Inr (page_of (page_size p) (AfterC c))) demo_db = (demo_db, Ok (respond 200 (MessagesBody ?ms)))"
    using room_exists_eq [of "calm_env 0" "RoomId 1" demo_db] messages_after_eq [OF demo_db_ok, of "calm_env 0"] demo_lobby assms(1) limit
    by (simp add: messages_list_def demo_call_def calm_env_def i64_max_eq sqlite_store_def demo_server_def)
  from client_messages_at [OF demo_wire_ok demo_origin_ok demo_token_text _ this]
  have "client_messages (demo_at 0) id (RoomId 1) (page_size p) (AfterC c) \<lparr>cs_session = Some ann_session, cs_net = demo_db\<rparr> =
      (\<lparr>cs_session = Some ann_session, cs_net = demo_db\<rparr>, Ok ?ms)"
    using assms(2) by (simp add: demo_at_def session_after_def settled_def respond_def messages_in_def)
  moreover have "unat (page_size p) < 2 ^ 32" "as_store demo_server = sqlite_store demo_caps"
    using assms(2) by (simp_all add: demo_server_def)
  ultimately show ?thesis
    unfolding client_page_def fetches_def
    using demo_wire_ok demo_origin_ok demo_token_text demo_db_ok demo_call_ok [of _ 0] client_state.select_convs(2)
    unfolding demo_at_def by metis
qed

text \<open>A page of one message, and a room of two.\<close>

corollary feed_catches_up_witness:
  "\<exists>f' batches. catch_up (\<lambda>r c. take 1 (beyond c (room_log demo_db r))) 1 2000000000 5
      ((watch_open 1 (RoomId 1) (SinceAfter seq_start) [])\<lparr>mf_catching_up := True\<rparr>) [] = Some (f', batches) \<and>
    concat batches = beyond seq_start (room_log demo_db (RoomId 1)) \<and> length batches \<le> 2"
proof -
  let ?p = "poll_default\<lparr>pc_page_limit := 1\<rparr>"
  let ?f = "(watch_open 1 (RoomId 1) (SinceAfter seq_start) [])\<lparr>mf_catching_up := True\<rparr>"
  let ?read = "\<lambda>r c. take 1 (beyond c (room_log demo_db r))"
  have p: "page_size ?p = 1" "pc_messages_interval ?p = 2000000000" by (simp_all add: page_size_def poll_default_def)
  have log: "msg_seq ` set (room_log demo_db (RoomId 1)) \<subseteq> {Seq 1, Seq 2}"
    by (auto simp: room_log_def demo_db_def message_of_def)
  have page: "client_page demo_caps ?p demo_db (mf_room ?f) c (?read (mf_room ?f) c)"
    if "c = mf_cursor ?f \<or> c \<in> msg_seq ` set (room_log demo_db (mf_room ?f))" for c
  proof -
    have "c \<in> {Seq 0, Seq 1, Seq 2}" using that log by (auto simp: watch_open_def Let_def seq_start_def)
    then have "uint (seq_get c) \<le> i64_max" by (auto simp: i64_max_eq)
    then show ?thesis using demo_pages [of c ?p] p by (simp add: watch_open_def Let_def)
  qed
  have small: "unat (page_size ?p) \<le> 200" "0 < pc_messages_interval ?p" by (simp_all only: p) simp_all
  have pages: "\<forall>c. c = mf_cursor ?f \<or> c \<in> msg_seq ` set (room_log demo_db (mf_room ?f)) \<longrightarrow>
      client_page demo_caps ?p demo_db (mf_room ?f) c (?read (mf_room ?f) c)"
    using page by blast
  have "mf_holding ?f = []" "may_fetch 5 ?f" by (simp_all add: watch_open_def Let_def may_fetch_def)
  note run = feed_catches_up [where read = ?read and f = ?f and p = ?p and s = demo_db and k = demo_caps and t = 5,
      OF demo_db_ok small pages this]
  have "length (beyond seq_start (room_log demo_db (RoomId 1))) \<le> 2"
    by (simp add: room_log_def demo_db_def beyond_def)
  then show ?thesis using run unfolding p by (fastforce simp: watch_open_def Let_def)
qed

end
