(* ===== verification/Api_Doc.thy ===== *)
theory Api_Doc
  imports Server_Properties
begin

text \<open>
  The API's own description: the OpenAPI annotations of the handlers and the document they are
  collected in (crates/chat-server/src/api.rs and api/), as data, and what they are worth: whether a
  handler answers only with what its annotation lists.
\<close>

section \<open>The document\<close>

text \<open>
  The schema of a body, or none. An operation's parameters are given by name, its request body by its
  type, and a \<open>location\<close> header by what is said of it.
\<close>

datatype schema =
    NoSchema | HealthS | ServerInfoS | LoginResponseS | RoomsResponseS | RoomS | MessagesResponseS
  | PostMessageResponseS | ErrorResponseS

record api_response =
  rp_status :: nat
  rp_description :: string
  rp_schema :: schema
  rp_location :: "string option"

record api_operation =
  op_method :: http_method
  op_path :: string
  op_id :: "string option"
  op_params :: "string list"
  op_request :: "string option"
  op_responses :: "api_response list"
  op_secured :: bool
  op_tag :: string

definition answers :: "nat \<Rightarrow> string \<Rightarrow> schema \<Rightarrow> api_response" where
  "answers status description schema =
     \<lparr>rp_status = status, rp_description = description, rp_schema = schema, rp_location = None\<rparr>"

definition healthz_doc :: api_operation where
  "healthz_doc = \<lparr>op_method = GET, op_path = ''/healthz'', op_id = None,
     op_params = [], op_request = None,
     op_responses = [answers 200 ''The server is running'' HealthS],
     op_secured = False, op_tag = ''server''\<rparr>"

definition server_info_doc :: api_operation where
  "server_info_doc = \<lparr>op_method = GET, op_path = ''/server'', op_id = None,
     op_params = [], op_request = None,
     op_responses = [answers 200 ''Server metadata'' ServerInfoS],
     op_secured = False, op_tag = ''server''\<rparr>"

definition register_doc :: api_operation where
  "register_doc = \<lparr>op_method = POST, op_path = ''/register'', op_id = None,
     op_params = [], op_request = Some ''RegisterRequest'',
     op_responses =
       [answers 201 ''The account was created'' NoSchema,
        answers 409 ''The username is taken'' ErrorResponseS,
        answers 422 ''The username is not acceptable'' ErrorResponseS,
        answers 429 ''The server accepts no more accounts'' ErrorResponseS],
     op_secured = False, op_tag = ''accounts''\<rparr>"

definition login_doc :: api_operation where
  "login_doc = \<lparr>op_method = POST, op_path = ''/login'', op_id = None,
     op_params = [], op_request = Some ''LoginRequest'',
     op_responses =
       [answers 200 ''The token to send as `Authorization: Bearer`'' LoginResponseS,
        answers 401 ''The username and password do not match'' ErrorResponseS],
     op_secured = False, op_tag = ''accounts''\<rparr>"

definition rooms_list_doc :: api_operation where
  "rooms_list_doc = \<lparr>op_method = GET, op_path = ''/rooms'', op_id = Some ''list_rooms'',
     op_params = [], op_request = None,
     op_responses =
       [answers 200 ''Every room on the server'' RoomsResponseS,
        answers 401 ''No usable bearer token'' ErrorResponseS],
     op_secured = True, op_tag = ''rooms''\<rparr>"

definition rooms_create_doc :: api_operation where
  "rooms_create_doc = \<lparr>op_method = POST, op_path = ''/rooms'', op_id = None,
     op_params = [], op_request = Some ''CreateRoomRequest'',
     op_responses =
       [(answers 201 ''The room was created'' RoomS)\<lparr>rp_location := Some ''Where the new room is''\<rparr>,
        answers 200 ''The name was taken; this is the room holding it'' RoomS,
        answers 401 ''No usable bearer token'' ErrorResponseS,
        answers 422 ''The name is not acceptable'' ErrorResponseS,
        answers 429 ''The server accepts no more rooms'' ErrorResponseS],
     op_secured = True, op_tag = ''rooms''\<rparr>"

definition messages_list_doc :: api_operation where
  "messages_list_doc = \<lparr>op_method = GET, op_path = ''/rooms/{id}/messages'', op_id = Some ''list_messages'',
     op_params = [''id'', ''limit'', ''after_seq'', ''before_seq''], op_request = None,
     op_responses =
       [answers 200 ''A page of messages, oldest first'' MessagesResponseS,
        answers 400 ''Both cursors were given'' ErrorResponseS,
        answers 401 ''No usable bearer token'' ErrorResponseS,
        answers 404 ''No room with that id'' ErrorResponseS],
     op_secured = True, op_tag = ''messages''\<rparr>"

definition messages_post_doc :: api_operation where
  "messages_post_doc = \<lparr>op_method = POST, op_path = ''/rooms/{id}/messages'', op_id = None,
     op_params = [''id''], op_request = Some ''PostMessageRequest'',
     op_responses =
       [answers 201 ''Where the message landed'' PostMessageResponseS,
        answers 401 ''No usable bearer token'' ErrorResponseS,
        answers 404 ''No room with that id'' ErrorResponseS,
        answers 413 ''The body is larger than the server accepts'' ErrorResponseS,
        answers 422 ''The body is empty'' ErrorResponseS],
     op_secured = True, op_tag = ''messages''\<rparr>"

text \<open>The document's own part: title, description, where the paths hang, the tags, and the security scheme.\<close>

record api_info =
  doc_title :: string
  doc_description :: string
  doc_server :: rstr
  doc_tags :: "(string \<times> string) list"
  doc_scheme :: "string \<times> string \<times> string"

definition api_doc_info :: api_info where
  "api_doc_info = \<lparr>doc_title = ''scion-chat'', doc_description = ''A chat server over HTTP/3-over-SCION'',
     doc_server = API_V1,
     doc_tags =
       [(''server'', ''Liveness and server metadata''), (''accounts'', ''Registering and logging in''),
        (''rooms'', ''Listing and creating rooms''), (''messages'', ''Posting and reading messages'')],
     doc_scheme = (''bearer'', ''Bearer'', ''JWT'')\<rparr>"

text \<open>\<open>routes\<close>: every handler with the operation that describes it.\<close>

definition api_doc :: "endpoint \<Rightarrow> http_method \<Rightarrow> api_operation option" where
  "api_doc e m =
     (case (e, m) of
        (HealthzE, GET) \<Rightarrow> Some healthz_doc
      | (ServerInfoE, GET) \<Rightarrow> Some server_info_doc
      | (RegisterE, POST) \<Rightarrow> Some register_doc
      | (LoginE, POST) \<Rightarrow> Some login_doc
      | (RoomsE, GET) \<Rightarrow> Some rooms_list_doc
      | (RoomsE, POST) \<Rightarrow> Some rooms_create_doc
      | (MessagesE i, GET) \<Rightarrow> Some messages_list_doc
      | (MessagesE i, POST) \<Rightarrow> Some messages_post_doc
      | _ \<Rightarrow> None)"

lemmas operation_docs = healthz_doc_def server_info_doc_def register_doc_def login_doc_def rooms_list_doc_def
  rooms_create_doc_def messages_list_doc_def messages_post_doc_def

section \<open>What a response is in the document's terms\<close>

fun schema_of :: "resp_body \<Rightarrow> schema option" where
  "schema_of NoBody = Some NoSchema"
| "schema_of (HealthBody t) = Some HealthS"
| "schema_of (InfoBody i) = Some ServerInfoS"
| "schema_of (LoginBody l) = Some LoginResponseS"
| "schema_of (RoomsBody rs) = Some RoomsResponseS"
| "schema_of (RoomBody r) = Some RoomS"
| "schema_of (MessagesBody ms) = Some MessagesResponseS"
| "schema_of (PostedBody p) = Some PostMessageResponseS"
| "schema_of (ErrorBody e) = Some ErrorResponseS"
| "schema_of SpecBody = None"
| "schema_of (ForeignBody t) = None"

definition listed :: "api_operation \<Rightarrow> response \<Rightarrow> bool" where
  "listed oper p \<longleftrightarrow> (\<exists>d\<in>set (op_responses oper). rp_status d = rs_status p \<and> schema_of (rs_body p) = Some (rp_schema d) \<and>
     (rp_location d \<noteq> None \<longleftrightarrow> rs_location p \<noteq> None))"

text \<open>What no annotation lists: the server's own failure, and the refusal of a JSON body.\<close>

definition unlisted :: "response \<Rightarrow> bool" where
  "unlisted p \<longleftrightarrow> p = into_response internal \<or> (\<exists>t. p = into_response (of_json_rejection t))"

text \<open>Every response a handler can give is listed, or unlisted in one of these ways, or axum's own refusal.\<close>

definition described :: "api_operation \<Rightarrow> response set \<Rightarrow> 's \<times> (http_error, response) result \<Rightarrow> bool" where
  "described oper refusals x \<longleftrightarrow> (case snd x of
     Ok p \<Rightarrow> listed oper p \<or> p \<in> refusals
   | Err e \<Rightarrow> listed oper (into_response e) \<or> unlisted (into_response e)
   | Panic _ \<Rightarrow> True)"

section \<open>What the store's failures become\<close>

lemma run_stmt_Err: "run_stmt env n r = Err e \<Longrightarrow> of_store_error e = internal \<or> r = Err e"
  by (auto simp: run_stmt_def split: option.splits)

lemma columns_Err:
  "to_column what v = Err e \<Longrightarrow> of_store_error e = internal"
  "from_column what i = Err e \<Longrightarrow> of_store_error e = internal"
  by (auto simp: to_column_def from_column_def split: if_splits)

lemma bind_res_eq_Err: "bind_res r f = Err e \<longleftrightarrow> r = Err e \<or> (\<exists>a. r = Ok a \<and> f a = Err e)"
  by (cases r) auto

lemma map_res_eq_Err: "map_res f r = Err e \<longleftrightarrow> r = Err e"
  by (cases r) auto

lemma collect_res_Err: "collect_res (map f xs) = Err e \<Longrightarrow> \<exists>x\<in>set xs. f x = Err e"
  by (induction xs) (auto simp: bind_res_eq_Err map_res_eq_Err)

lemma rows_Err:
  "room_of_row d r = Err e \<Longrightarrow> of_store_error e = internal"
  "collect_messages ms = Err e \<Longrightarrow> of_store_error e = internal"
  by (auto simp: room_of_row_def collect_messages_def message_of_row_def col_room_id_def col_seq_def col_millis_def
      bind_res_eq_Err map_res_eq_Err dest!: collect_res_Err columns_Err)

lemma reads_Err:
  "stored_hash env n d = Err e \<Longrightarrow> of_store_error e = internal"
  "list_rooms env d = Err e \<Longrightarrow> of_store_error e = internal"
  "room_exists env r d = Err e \<Longrightarrow> of_store_error e = internal"
  "messages_newest env r k d = Err e \<Longrightarrow> of_store_error e = internal"
  "messages_after env r c k d = Err e \<Longrightarrow> of_store_error e = internal"
  "messages_before env r c k d = Err e \<Longrightarrow> of_store_error e = internal"
  by (auto simp: stored_hash_def list_rooms_def room_exists_def messages_newest_def messages_after_def messages_before_def
      bind_res_eq_Err map_res_eq_Err dest!: run_stmt_Err collect_res_Err dest: columns_Err rows_Err)

lemma clock_Err: "timestamp_column ns = Err e \<Longrightarrow> of_store_error e = internal"
  by (auto simp: timestamp_column_def now_def bind_res_eq_Err Let_def dest: columns_Err split: if_splits)

lemma insert_user_Err:
  "insert_user env cap n h d = (d', Err e) \<Longrightarrow> of_store_error e = internal \<or> (\<exists>w. e = CapExceededErr w)"
  by (auto simp: insert_user_def insert_user_insert_def insert_user_classify_def Let_def bind_res_eq_Err
      dest: clock_Err run_stmt_Err split: result.splits option.splits prod.splits if_splits)

lemma create_room_Err:
  "create_room env cap n d = (d', Err e) \<Longrightarrow> of_store_error e = internal \<or> (\<exists>w. e = CapExceededErr w)"
  by (auto simp: create_room_def create_room_insert_def create_room_fetch_def Let_def bind_res_eq_Err
      dest: clock_Err run_stmt_Err rows_Err split: result.splits option.splits prod.splits if_splits)

lemma post_message_Err:
  "post_message env r u b d = (d', Err e) \<Longrightarrow> of_store_error e = internal \<or> (\<exists>t. e = NotFound t)"
  by (auto simp: post_message_def Let_def bind_res_eq_Err map_res_eq_Err col_seq_def col_millis_def
      dest: clock_Err columns_Err split: result.splits option.splits prod.splits)

section \<open>Every response is described\<close>

lemma unlisted_simps [simp]: "unlisted (into_response internal)" "unlisted (into_response (of_json_rejection t))"
  by (auto simp: unlisted_def)

lemma described_simps [simp]:
  "described oper R (s, Ok p) \<longleftrightarrow> listed oper p \<or> p \<in> R" "described oper R (s, Panic t)"
  "described oper R (s, Err e) \<longleftrightarrow> listed oper (into_response e) \<or> unlisted (into_response e)"
  by (simp_all add: described_def)

lemma described_try:
  "(\<And>e. r = Err e \<Longrightarrow> described oper R (s, Err e :: (http_error, response) result)) \<Longrightarrow>
     (\<And>a. r = Ok a \<Longrightarrow> described oper R (f a s)) \<Longrightarrow> described oper R (try_res r f s)"
  by (cases r) auto

lemma listed_failure [simp]:
  "listed oper (into_response (http_error_new n c t)) \<longleftrightarrow>
     (\<exists>d\<in>set (op_responses oper). rp_status d = n \<and> rp_schema d = ErrorResponseS \<and> rp_location d = None)"
  by (auto simp: listed_def into_response_def respond_def http_error_new_def)

lemma listed_success [simp]:
  "listed oper (respond n body) \<longleftrightarrow>
     (\<exists>d\<in>set (op_responses oper). rp_status d = n \<and> schema_of body = Some (rp_schema d) \<and> rp_location d = None)"
  by (auto simp: listed_def respond_def)

lemma map_err_eq_Err': "map_err f r = Err e \<longleftrightarrow> (\<exists>x. r = Err x \<and> e = f x)"
  by (cases r) auto

lemma of_sum_eq_Err': "of_sum f r = Err e \<longleftrightarrow> (\<exists>x. r = Inl x \<and> e = f x)"
  by (cases r) auto

lemmas described_sources = map_err_eq_Err' of_sum_eq_Err' of_auth_error_def answers_def unauthorized_def expired_token_def
  room_not_found_def

lemma authenticated_described:
  "authenticated dp tk t h = Err e \<Longrightarrow>
     (\<exists>d\<in>set (op_responses oper). rp_status d = 401 \<and> rp_schema d = ErrorResponseS \<and> rp_location d = None) \<Longrightarrow>
     listed oper (into_response e)"
  using authenticated_Err [of dp tk t h e] by (auto simp: unauthorized_def expired_token_def)

lemma register_described:
  assumes "as_store st = sqlite_store k"
  shows "described register_doc R (register dp st c b s)"
  unfolding register_def
  by (intro described_try)
    (auto simp: described_sources assms sqlite_store_def register_doc_def username_parse_def Let_def
      dest!: insert_user_Err split: prod.split result.split registration.split if_splits)

lemma login_described:
  assumes "as_store st = sqlite_store k"
  shows "described login_doc R (login dp st c b s)"
  unfolding login_def
  by (intro described_try)
    (auto intro!: described_try simp: described_sources assms sqlite_store_def login_doc_def
      dest!: reads_Err split: prod.split)

lemma rooms_list_described:
  assumes "as_store st = sqlite_store k"
  shows "described rooms_list_doc R (rooms_list dp st c auth s)"
  unfolding rooms_list_def
  by (intro described_try)
    (auto intro!: described_try dest!: authenticated_described [where oper = rooms_list_doc] reads_Err
      simp: described_sources assms sqlite_store_def rooms_list_doc_def)

lemma listed_created [simp]:
  "listed oper (created room) \<longleftrightarrow>
     (\<exists>d\<in>set (op_responses oper). rp_status d = 201 \<and> rp_schema d = RoomS \<and> rp_location d \<noteq> None)"
  by (auto simp: listed_def created_def)

lemma rooms_create_described:
  assumes "as_store st = sqlite_store k"
  shows "described rooms_create_doc R (rooms_create dp st c auth b s)"
  unfolding rooms_create_def
  by (intro described_try)
    (auto dest!: authenticated_described [where oper = rooms_create_doc] create_room_Err
      simp: described_sources assms sqlite_store_def rooms_create_doc_def room_name_parse_def Let_def
      split: prod.split result.split room_creation.split if_splits)

lemma messages_list_described:
  assumes "as_store st = sqlite_store k"
  shows "described messages_list_doc ({p. path = Inl p} \<union> {p. query = Inl p}) (messages_list dp st c auth path query s)"
  unfolding messages_list_def Let_def
  by (intro described_try)
    (auto intro!: described_try dest!: authenticated_described [where oper = messages_list_doc] reads_Err
      simp: described_sources assms sqlite_store_def messages_list_doc_def split: sum.split option.splits)

lemma messages_post_described:
  assumes "as_store st = sqlite_store k"
  shows "described messages_post_doc {p. path = Inl p} (messages_post dp st c auth path b s)"
  unfolding messages_post_def Let_def
  by (intro described_try)
    (auto intro!: described_try dest!: authenticated_described [where oper = messages_post_doc] post_message_Err
      simp: described_sources assms sqlite_store_def messages_post_doc_def split: sum.split prod.split result.split)

lemma dispatch_described:
  assumes "as_store st = sqlite_store k" and "api_doc e m = Some oper"
    and "dispatch dp ax version st c rq e m = Some f"
  shows "described oper ({p. \<exists>i. ax_path_u64 ax i = Inl p} \<union> {p. ax_query_page ax (rq_query rq) = Inl p}) (f s)"
proof -
  have grow: "described oper R x \<Longrightarrow> R \<subseteq> R' \<Longrightarrow> described oper R' x" for oper R R' x
    by (auto simp: described_def split: result.splits)
  show ?thesis
    using assms
    by (cases e; cases m)
      (auto simp: api_doc_def dispatch_def register_described login_described rooms_list_described rooms_create_described
        healthz_doc_def server_info_doc_def healthz_def server_info_def answers_def
        intro: grow [OF messages_list_described] grow [OF messages_post_described])
qed

text \<open>C26: The OpenAPI document tells the truth: whatever a documented operation answers, over any store
  contents, is a response its annotation lists, by status, body schema and \<open>Location\<close> header, but for
  three kinds it never mentions: the server's own failure, the 400 that refuses a JSON body, and
  axum's refusal of a room id or a query. An operation marked with the bearer scheme refuses every
  request without a token, and every operation's tag is one the document declares.\<close>

theorem answers_documented:
  assumes "as_store st = sqlite_store k" and "router dp ax version st c rq s = (s', Ok p)"
    and "endpoint_of (rq_path rq) = Some e" and "api_doc e (rq_method rq) = Some oper"
  shows "(listed oper p \<or> unlisted p \<or> (\<exists>i. ax_path_u64 ax i = Inl p) \<or> ax_query_page ax (rq_query rq) = Inl p) \<and>
    (op_secured oper \<and> bearer_token dp (rq_authorization rq) = None \<longrightarrow> p = into_response unauthorized) \<and>
    op_tag oper \<in> fst ` set (doc_tags api_doc_info) \<and> op_method oper = rq_method rq"
proof -
  have m: "rq_method rq = GET \<or> rq_method rq = POST"
    using assms(4) by (auto simp: api_doc_def split: endpoint.splits http_method.splits)
  obtain f where f: "dispatch dp ax version st c rq e (rq_method rq) = Some f"
    using assms(4) by (auto simp: api_doc_def dispatch_def split: endpoint.splits http_method.splits)
  have run: "finish (f s) = (s', Ok p)"
    using assms(2,3) f m by (auto simp: router_def)
  obtain s1 q where q: "f s = (s1, q)" by fastforce
  have "listed oper p \<or> unlisted p \<or> (\<exists>i. ax_path_u64 ax i = Inl p) \<or> ax_query_page ax (rq_query rq) = Inl p"
    using dispatch_described [OF assms(1,4) f, of s] run q by (cases q) (auto simp: finish_def)
  moreover have "p = into_response unauthorized" if "op_secured oper" "bearer_token dp (rq_authorization rq) = None"
  proof -
    have "authenticated dp (as_tokens st) (call_clock c) (rq_authorization rq) = Err unauthorized"
      using that(2) by (simp add: authenticated_def)
    then have "f s = (s, Err unauthorized)"
      using f that(1) assms(4)
      by (auto simp: api_doc_def dispatch_def operation_docs rooms_list_def rooms_create_def messages_list_def
          messages_post_def split: endpoint.splits http_method.splits)
    then show ?thesis using run by (simp add: finish_def)
  qed
  moreover have "op_tag oper \<in> fst ` set (doc_tags api_doc_info)" "op_method oper = rq_method rq"
    using assms(4) by (auto simp: api_doc_def api_doc_info_def operation_docs split: endpoint.splits http_method.splits)
  ultimately show ?thesis by blast
qed

corollary answers_documented_witness:
  "snd (router demo_deps demo_axum (lit ''0.1.0'') demo_server (demo_call 0)
     \<lparr>rq_method = GET, rq_path = [lit ''api'', lit ''v1'', lit ''rooms''], rq_query = [],
       rq_authorization = None, rq_body = []\<rparr> demo_db) = Ok (into_response unauthorized)"
proof -
  let ?rq = "\<lparr>rq_method = GET, rq_path = [lit ''api'', lit ''v1'', lit ''rooms''], rq_query = [],
       rq_authorization = None, rq_body = []\<rparr>"
  have st: "as_store demo_server = sqlite_store demo_caps" by (simp add: demo_server_def)
  obtain s p where run: "router demo_deps demo_axum (lit ''0.1.0'') demo_server (demo_call 0) ?rq demo_db = (s, Ok p)"
    by (simp add: router_def endpoint_of_def dispatch_def rooms_list_def authenticated_def bearer_token_def finish_def)
  have e: "endpoint_of (rq_path ?rq) = Some RoomsE" "api_doc RoomsE (rq_method ?rq) = Some rooms_list_doc"
    by (simp_all add: endpoint_of_def api_doc_def)
  show ?thesis
    using answers_documented [OF st run e] run by (simp add: rooms_list_doc_def bearer_token_def)
qed

end
