(* ===== verification/Drawing.thy ===== *)
theory Drawing
  imports App
begin

text \<open>
  What the terminal client puts on screen (\<open>App::draw\<close> in crates/chat-ui-ratatui/src/app.rs, the
  \<open>draw\<close> of each screen, and ui.rs, ui/field.rs, ui/layout.rs and ui/theme.rs): a frame is the widgets
  rendered to it, each with its area, and where the terminal's cursor is left. Splitting an area,
  the inside of a border and the scroll of an editable line are ratatui's and tui-input's, and an
  argument.
\<close>

section \<open>Colours (theme.rs)\<close>

definition BACKGROUND :: colour where
  "BACKGROUND = Rgb 0x2b 0x29 0x2d"

definition PANEL :: colour where
  "PANEL = Rgb 0x24 0x22 0x26"

definition INPUT :: colour where
  "INPUT = Rgb 0x20 0x1e 0x21"

definition BORDER :: colour where
  "BORDER = Rgb 0x4f 0x47 0x4d"

definition FOCUS :: colour where
  "FOCUS = Rgb 0x7a 0xae 0xdc"

definition TEXT :: colour where
  "TEXT = Rgb 0xfe 0xcd 0xb2"

definition DIM :: colour where
  "DIM = Rgb 0xab 0x8a 0x79"

definition TIMESTAMP :: colour where
  "TIMESTAMP = Rgb 0x7d 0x77 0x7b"

definition TITLE :: colour where
  "TITLE = Rgb 0xd7 0xbd 0xe2"

definition SELECTION :: colour where
  "SELECTION = Rgb 0x45 0x3d 0x41"

definition HIGHLIGHT :: colour where
  "HIGHLIGHT = Rgb 0xf5 0xd7 0x6e"

definition ERROR :: colour where
  "ERROR = Rgb 0xe0 0x6b 0x75"

definition UNREAD :: colour where
  "UNREAD = Rgb 0xff 0xa0 0x7a"

section \<open>Widgets\<close>

datatype align = LeftAligned | Centred | RightAligned

record span =
  sp_text :: rstr
  sp_fg :: "colour option"
  sp_bold :: bool

text \<open>\<open>ln_fg\<close> is the style of the whole line.\<close>

record line =
  ln_spans :: "span list"
  ln_fg :: "colour option"
  ln_align :: align

text \<open>A bordered block is rounded.\<close>

record block =
  bk_title :: line
  bk_border :: colour
  bk_fill :: colour

record para =
  pr_line :: line
  pr_fg :: "colour option"
  pr_scroll :: u16
  pr_block :: "block option"

text \<open>A list of lines, the symbol before the selected one, and the style that marks it.\<close>

record list_widget =
  lw_lines :: "line list"
  lw_block :: block
  lw_symbol :: rstr
  lw_bg :: colour
  lw_fg :: colour
  lw_bold :: bool
  lw_selected :: "nat option"

text \<open>How many positions there are, which one it is at, and how many rows a thumb covers.\<close>

record scrollbar =
  sb_length :: nat
  sb_position :: nat
  sb_viewport :: nat
  sb_area :: rect
  sb_track :: colour
  sb_thumb :: colour

datatype widget =
    FillW colour | LineW line | ParagraphW para | ListW list_widget
  | PaneW drawn block "scrollbar option"

record frame =
  fr_drawn :: "(widget \<times> rect) list"
  fr_cursor :: "(u16 \<times> u16) option"

definition put :: "widget \<Rightarrow> rect \<Rightarrow> frame \<Rightarrow> frame" where
  "put w area fr = fr\<lparr>fr_drawn := fr_drawn fr @ [(w, area)]\<rparr>"

definition put_cursor :: "u16 \<Rightarrow> u16 \<Rightarrow> frame \<Rightarrow> frame" where
  "put_cursor x y fr = fr\<lparr>fr_cursor := Some (x, y)\<rparr>"

text \<open>
  \<open>vl_area\<close> is the i-th of the areas a layout splits an area into, \<open>vl_origin\<close> the top left corner
  inside a border, whose width and height are \<open>dl_inner\<close>'s, \<open>vl_margin\<close> an area less a margin, and
  \<open>vl_scroll\<close> and \<open>vl_cursor\<close> an editable line's scroll at a width and the column of its cursor.
\<close>

datatype direction = Horizontal | Vertical

datatype flex = FlexStart | FlexCenter

datatype constraint = CMin u16 | CMax u16 | CLength u16

record 'i view_lib =
  vl_area :: "direction \<Rightarrow> flex \<Rightarrow> constraint list \<Rightarrow> rect \<Rightarrow> nat \<Rightarrow> rect"
  vl_origin :: "rect \<Rightarrow> u16 \<times> u16"
  vl_margin :: "u16 \<Rightarrow> u16 \<Rightarrow> rect \<Rightarrow> rect"
  vl_scroll :: "'i \<Rightarrow> nat \<Rightarrow> nat"
  vl_cursor :: "'i \<Rightarrow> nat"

definition plain_span :: "rstr \<Rightarrow> span" where
  "plain_span s = \<lparr>sp_text = s, sp_fg = None, sp_bold = False\<rparr>"

definition fg_span :: "colour \<Rightarrow> rstr \<Rightarrow> span" where
  "fg_span c s = \<lparr>sp_text = s, sp_fg = Some c, sp_bold = False\<rparr>"

definition bold_span :: "colour \<Rightarrow> rstr \<Rightarrow> span" where
  "bold_span c s = \<lparr>sp_text = s, sp_fg = Some c, sp_bold = True\<rparr>"

definition line_of :: "span list \<Rightarrow> line" where
  "line_of spans = \<lparr>ln_spans = spans, ln_fg = None, ln_align = LeftAligned\<rparr>"

section \<open>What the screens share (ui.rs, field.rs, layout.rs)\<close>

definition bordered :: "line \<Rightarrow> colour \<Rightarrow> colour \<Rightarrow> block" where
  "bordered title border fill = \<lparr>bk_title = title, bk_border = border, bk_fill = fill\<rparr>"

definition label :: "rstr \<Rightarrow> line" where
  "label s = line_of [fg_span TITLE s]"

definition warning_line :: "rstr \<Rightarrow> line" where
  "warning_line message = (line_of [plain_span (warning message)])\<lparr>ln_fg := Some ERROR\<rparr>"

definition draw_error :: "rect \<Rightarrow> rstr \<Rightarrow> frame \<Rightarrow> frame" where
  "draw_error area message =
     put (ParagraphW \<lparr>pr_line = warning_line message, pr_fg = None, pr_scroll = 0, pr_block = None\<rparr>) area"

definition draw_error_opt :: "rect \<Rightarrow> rstr option \<Rightarrow> frame \<Rightarrow> frame" where
  "draw_error_opt area message = (case message of Some m \<Rightarrow> draw_error area m | None \<Rightarrow> id)"

definition field_border :: "field_state \<Rightarrow> colour" where
  "field_border st = (case st of Focused \<Rightarrow> FOCUS | FieldIdle \<Rightarrow> BORDER | Disabled \<Rightarrow> SELECTION)"

definition field_text :: "field_state \<Rightarrow> colour" where
  "field_text st = (if st = Disabled then SELECTION else TEXT)"

text \<open>\<open>field::draw\<close>. The scroll and the cursor's column are cut to 16 bits where the code casts them.\<close>

definition field_draw ::
  "width_lib \<Rightarrow> 'i input_lib \<Rightarrow> draw_lib \<Rightarrow> 'i view_lib \<Rightarrow> rect \<Rightarrow> line \<Rightarrow> 'i \<Rightarrow> field_state \<Rightarrow> bool
     \<Rightarrow> frame \<Rightarrow> frame" where
  "field_draw W I D V area title input st masked fr =
     (let block = bordered title (field_border st) INPUT;
          (x, y) = vl_origin V area;
          (width, height) = dl_inner D area;
          shown = field_shown W masked (in_value I input);
          scroll = vl_scroll V input (unat width);
          fr = put (ParagraphW \<lparr>pr_line = line_of [plain_span shown], pr_fg = Some (field_text st),
                 pr_scroll = of_nat scroll, pr_block = Some block\<rparr>) area fr
      in if st = Focused then put_cursor (x + of_nat (vl_cursor V input - scroll)) y fr else fr)"

definition choice_spans :: "(rstr \<times> bool) list \<Rightarrow> span list" where
  "choice_spans options = concat (map (\<lambda>(label, chosen).
     [plain_span (lit '' ''),
      if chosen then bold_span HIGHLIGHT (lit ''['' @ label @ lit '']'')
      else fg_span DIM (lit '' '' @ label @ lit '' '')]) options)"

definition choice_draw :: "rect \<Rightarrow> line \<Rightarrow> (rstr \<times> bool) list \<Rightarrow> bool \<Rightarrow> frame \<Rightarrow> frame" where
  "choice_draw area title options focused =
     put (ParagraphW \<lparr>pr_line = line_of (choice_spans options), pr_fg = None, pr_scroll = 0,
       pr_block = Some (bordered title (if focused then FOCUS else BORDER) INPUT)\<rparr>) area"

definition FORM_WIDTH :: u16 where
  "FORM_WIDTH = 60"

definition form_area :: "'i view_lib \<Rightarrow> rect \<Rightarrow> rect" where
  "form_area V area = vl_area V Horizontal FlexCenter [CMax FORM_WIDTH] area 0"

text \<open>A line of keys and what they do.\<close>

definition hints :: "(rstr \<times> rstr) list \<Rightarrow> span list" where
  "hints keys = concat (map (\<lambda>(does, key). [fg_span DIM does, bold_span FOCUS key]) keys)"

definition right_aligned :: "line \<Rightarrow> line" where
  "right_aligned l = l\<lparr>ln_align := RightAligned\<rparr>"

section \<open>The sign-in screen (sign\_in.rs)\<close>

definition sign_in_hint :: line where
  "sign_in_hint = right_aligned (line_of (hints
     [(lit '' Register '', lit ''<Ctrl+R>''), (lit ''  Log in '', lit ''<Enter>''), (lit ''  Next field '', lit ''<Tab>'')]))"

definition sign_in_draw ::
  "width_lib \<Rightarrow> 'i input_lib \<Rightarrow> draw_lib \<Rightarrow> 'i view_lib \<Rightarrow> 'i sign_in \<Rightarrow> rect \<Rightarrow> frame \<Rightarrow> frame" where
  "sign_in_draw W I D V s area fr =
     (let at = vl_area V Vertical FlexCenter [CLength 1, CLength 3, CLength 3, CLength 1, CLength 1] (form_area V area);
          fr = put (LineW (line_of [bold_span TITLE (lit ''Sign in'')])) (at 0) fr;
          fr = field_draw W I D V (at 1) (label (lit '' Username '')) (si_username s)
                 (field_focused (si_focus s = FUsername)) False fr;
          fr = field_draw W I D V (at 2) (label (lit '' Password '')) (si_password s)
                 (field_focused (si_focus s = FPassword)) True fr;
          fr = put (LineW sign_in_hint) (at 3) fr
      in draw_error_opt (at 4) (si_error s) fr)"

section \<open>The connection screen (connection.rs)\<close>

definition connection_hint :: line where
  "connection_hint = right_aligned (line_of (hints
     [(lit '' Connect '', lit ''<Enter>''), (lit ''  Next field '', lit ''<Tab>''),
      (lit ''  Choose '', lit ''<'' @ [8592, 8594] @ lit ''>'')]))"

text \<open>The typed fields, in the order they are drawn: area, label, line, focus, and whether it is masked.\<close>

definition conn_fields :: "'i connection \<Rightarrow> (nat \<times> rstr \<times> 'i \<times> conn_focus \<times> bool) list" where
  "conn_fields c =
     [(2, lit '' Server URL '', cn_server_url c, FServerUrl, False),
      (3, lit '' Endhost API '', cn_endhost_api c, FEndhostApi, False),
      (4, lit '' Target - the server'' @ [39] @ lit ''s SCION address '', cn_target c, FTarget, False),
      (6, lit '' Certificate '', cn_cert_path c, FCertPath, False),
      (8, credential_label (cn_credential c), cn_secret c, FSecret, True)]"

definition conn_field_draw ::
  "width_lib \<Rightarrow> 'i input_lib \<Rightarrow> draw_lib \<Rightarrow> 'i view_lib \<Rightarrow> 'i connection \<Rightarrow> (nat \<Rightarrow> rect)
     \<Rightarrow> nat \<times> rstr \<times> 'i \<times> conn_focus \<times> bool \<Rightarrow> frame \<Rightarrow> frame" where
  "conn_field_draw W I D V c at = (\<lambda>(i, name, input, focus, masked) fr.
     if focus = FCertPath \<and> \<not> cn_pinned c then fr
     else field_draw W I D V (at i) (label name) input (conn_field_state c focus) masked fr)"

definition conn_rows :: "'i connection \<Rightarrow> constraint list" where
  "conn_rows c =
     [CLength 1, CLength 3, CLength 3, CLength 3, CLength 3, CLength 3,
      CLength (if cn_pinned c then 3 else 0), CLength 3, CLength 3, CLength 1, CLength 1]"

definition connection_draw ::
  "width_lib \<Rightarrow> 'i input_lib \<Rightarrow> draw_lib \<Rightarrow> 'i view_lib \<Rightarrow> 'i connection \<Rightarrow> rect \<Rightarrow> frame \<Rightarrow> frame" where
  "connection_draw W I D V c area fr =
     (let at = vl_area V Vertical FlexCenter (conn_rows c) (form_area V area);
          choice = (\<lambda>i focus n. choice_draw (at i) (label (fst (conn_choices c ! n)))
                      (snd (conn_choices c ! n)) (cn_focus c = focus));
          fr = put (LineW (line_of [bold_span TITLE (lit ''Connect'')])) (at 0) fr;
          fr = choice 1 FTransport 0 fr;
          fr = choice 5 FTrust 1 fr;
          fr = choice 7 FCredential 2 fr;
          fr = fold (conn_field_draw W I D V c at) (conn_fields c) fr;
          fr = put (LineW connection_hint) (at 9) fr
      in draw_error_opt (at 10) (cn_error c) fr)"

section \<open>The chat screen (chat/view.rs)\<close>

definition SIDEBAR_WIDTH :: u16 where
  "SIDEBAR_WIDTH = 18"

definition panel :: "rstr \<Rightarrow> block" where
  "panel title = bordered (line_of [bold_span TITLE title]) BORDER PANEL"

definition instructions :: line where
  "instructions = line_of (hints
     [(lit '' Send '', lit ''<Enter>''), (lit ''  Room '', lit ''<Tab>''),
      (lit ''  Create '', lit ''</room name>''), (lit ''  Help '', HELP)] @ [fg_span DIM (lit '' '')])"

definition room_line :: "rstr \<times> bool \<Rightarrow> line" where
  "room_line = (\<lambda>(name, new).
     line_of (if new then [bold_span UNREAD name, fg_span UNREAD [32, 9679]] else [fg_span TEXT name]))"

definition room_list :: "(rstr \<times> bool) list \<Rightarrow> nat option \<Rightarrow> list_widget" where
  "room_list rows chosen =
     \<lparr>lw_lines = map room_line rows, lw_block = panel (lit '' Rooms ''), lw_symbol = [9656, 32],
      lw_bg = SELECTION, lw_fg = HIGHLIGHT, lw_bold = True, lw_selected = chosen\<rparr>"

definition scrollbar_of :: "'i view_lib \<Rightarrow> drawn \<Rightarrow> scrollbar option" where
  "scrollbar_of V d =
     (if dw_bottom d = 0 then None
      else Some \<lparr>sb_length = unat (dw_bottom d) + 1, sb_position = unat (dw_offset d),
        sb_viewport = unat (dw_visible d), sb_area = vl_margin V 0 1 (dw_area d),
        sb_track = BORDER, sb_thumb = FOCUS\<rparr>)"

text \<open>
  The sidebar beside the rest, and the rest from top to bottom: the messages, the composer, and no row
  for an error when there is none, so the pane grows into it.
\<close>

definition chat_columns :: "'i view_lib \<Rightarrow> rect \<Rightarrow> nat \<Rightarrow> rect" where
  "chat_columns V area = vl_area V Horizontal FlexStart [CLength SIDEBAR_WIDTH, CMin 20] area"

definition chat_rows :: "'i view_lib \<Rightarrow> 'i chat \<Rightarrow> rect \<Rightarrow> nat \<Rightarrow> rect" where
  "chat_rows V c area = vl_area V Vertical FlexStart
     [CMin 1, CLength 3, CLength (if ch_error c \<noteq> None then 1 else 0)] (chat_columns V area 1)"

definition chat_frame ::
  "width_lib \<Rightarrow> 'i input_lib \<Rightarrow> draw_lib \<Rightarrow> 'i view_lib \<Rightarrow> int \<Rightarrow> 'i chat \<Rightarrow> rect \<Rightarrow> frame \<Rightarrow> 'i chat \<times> frame" where
  "chat_frame W I D V here c area fr =
     (let (c', sidebar, d) = chat_draw W D here (chat_rows V c area 0) c;
          fr = put (ListW (room_list sidebar (ch_open c'))) (chat_columns V area 0) fr;
          fr = put (PaneW d (panel (dw_title d)) (scrollbar_of V d)) (chat_rows V c area 0) fr;
          fr = field_draw W I D V (chat_rows V c area 1) instructions (ch_input c) Focused False fr
      in (c', draw_error_opt (chat_rows V c area 2) (ch_error c) fr))"

section \<open>The app (app.rs)\<close>

definition frame_new :: frame where
  "frame_new = \<lparr>fr_drawn = [], fr_cursor = None\<rparr>"

definition app_draw ::
  "'i app_libs \<Rightarrow> draw_lib \<Rightarrow> 'i view_lib \<Rightarrow> int \<Rightarrow> rect \<Rightarrow> ('i, 'c) app \<Rightarrow> ('i, 'c) app \<times> frame" where
  "app_draw L D V here area a =
     (let W = al_width L; I = al_input L; fr = put (FillW BACKGROUND) area frame_new in
      case ap_screen a of
        ScConnection s \<Rightarrow> (a, connection_draw W I D V s area fr)
      | ScSignIn s \<Rightarrow> (a, sign_in_draw W I D V s area fr)
      | ScChat s \<Rightarrow> (let (s', fr') = chat_frame W I D V here s area fr in (a\<lparr>ap_screen := ScChat s'\<rparr>, fr')))"

end
