(* ===== verification/Drawing_Properties.thy ===== *)
theory Drawing_Properties
  imports Drawing App_Properties
begin

text \<open>
  What a user can rely on of the screen: the control the keys go to is the one that is marked, the
  terminal's cursor stands inside it, and a password, a key or a token never reaches the screen.
\<close>

section \<open>Secrets\<close>

text \<open>Two lines of the same width, with the cursor in the same column and the same scroll.\<close>

definition alike :: "width_lib \<Rightarrow> 'i input_lib \<Rightarrow> 'i view_lib \<Rightarrow> 'i \<Rightarrow> 'i \<Rightarrow> bool" where
  "alike W I V p q \<longleftrightarrow> wl_str W (in_value I p) = wl_str W (in_value I q) \<and>
     vl_cursor V p = vl_cursor V q \<and> vl_scroll V p = vl_scroll V q"

lemma field_draw_masked:
  "alike W I V p q \<Longrightarrow> field_draw W I D V area title p st True fr = field_draw W I D V area title q st True fr"
  by (simp add: field_draw_def field_shown_def alike_def Let_def split: prod.split)

text \<open>The same screen up to the secrets typed into it, those that are drawn looking alike.\<close>

fun same_but_secrets :: "width_lib \<Rightarrow> 'i input_lib \<Rightarrow> 'i view_lib \<Rightarrow> 'i app_screen \<Rightarrow> 'i app_screen \<Rightarrow> bool" where
  "same_but_secrets W I V (ScConnection c) (ScConnection d) \<longleftrightarrow>
     d = c\<lparr>cn_auth_api_key := cn_auth_api_key d, cn_snap_token := cn_snap_token d\<rparr> \<and>
     alike W I V (cn_secret c) (cn_secret d)"
| "same_but_secrets W I V (ScSignIn s) (ScSignIn t) \<longleftrightarrow>
     t = s\<lparr>si_password := si_password t\<rparr> \<and> alike W I V (si_password s) (si_password t)"
| "same_but_secrets W I V (ScChat s) (ScChat t) \<longleftrightarrow> s = t"
| "same_but_secrets W I V _ _ \<longleftrightarrow> False"

lemma sign_in_draw_masked:
  assumes "alike W I V (si_password s) p"
  shows "sign_in_draw W I D V (s\<lparr>si_password := p\<rparr>) area fr = sign_in_draw W I D V s area fr"
  using assms by (simp add: sign_in_draw_def field_draw_masked)

lemma conn_fields_masked:
  fixes c d :: "'i connection"
  assumes "d = c\<lparr>cn_auth_api_key := k, cn_snap_token := t\<rparr>" and "alike W I V (cn_secret c) (cn_secret d)"
  shows "fold (conn_field_draw W I D V d at) (conn_fields d) fr = fold (conn_field_draw W I D V c at) (conn_fields c) fr"
proof -
  have same: "cn_pinned d = cn_pinned c" "conn_field_state d = conn_field_state c"
    "cn_credential d = cn_credential c" "cn_server_url d = cn_server_url c" "cn_endhost_api d = cn_endhost_api c"
    "cn_target d = cn_target c" "cn_cert_path d = cn_cert_path c"
    using assms(1) by (auto simp: cn_pinned_def conn_field_state_def cn_scion_def fun_eq_iff)
  then show ?thesis using field_draw_masked [OF assms(2)] by (simp add: conn_field_draw_def conn_fields_def)
qed

lemma connection_draw_masked:
  assumes "d = c\<lparr>cn_auth_api_key := k, cn_snap_token := t\<rparr>" and "alike W I V (cn_secret c) (cn_secret d)"
  shows "connection_draw W I D V d area fr = connection_draw W I D V c area fr"
proof -
  have same: "conn_rows d = conn_rows c" "conn_choices d = conn_choices c" "cn_focus d = cn_focus c" "cn_error d = cn_error c"
    using assms(1) by (simp_all add: conn_rows_def conn_choices_def cn_pinned_def cn_scion_def)
  show ?thesis unfolding connection_draw_def same conn_fields_masked [OF assms] ..
qed


section \<open>Focus\<close>

text \<open>
  What is relied on of the libraries: an editable line scrolls so far that its cursor is within the
  width, and the inside of a border ends within the 16 bits of a column.
\<close>

definition view_ok :: "draw_lib \<Rightarrow> 'i view_lib \<Rightarrow> bool" where
  "view_ok D V \<longleftrightarrow>
     (\<forall>i w. vl_scroll V i w \<le> vl_cursor V i \<and> vl_cursor V i \<le> vl_scroll V i w + w) \<and>
     (\<forall>r. unat (fst (vl_origin V r)) + unat (fst (dl_inner D r)) < 2 ^ 16)"

text \<open>The areas marked as having the focus.\<close>

definition marked :: "widget \<Rightarrow> bool" where
  "marked w = (case w of
     ParagraphW p \<Rightarrow> (case pr_block p of Some b \<Rightarrow> bk_border b = FOCUS | None \<Rightarrow> False) | _ \<Rightarrow> False)"

definition focus_boxes :: "frame \<Rightarrow> rect list" where
  "focus_boxes fr = map snd (filter (\<lambda>(w, area). marked w) (fr_drawn fr))"

text \<open>The terminal's cursor is on the row inside the box, between its first column and the one past its last.\<close>

definition cursor_within :: "draw_lib \<Rightarrow> 'i view_lib \<Rightarrow> rect \<Rightarrow> frame \<Rightarrow> bool" where
  "cursor_within D V box fr =
     (case fr_cursor fr of
        Some (x, y) \<Rightarrow> y = snd (vl_origin V box) \<and> unat (fst (vl_origin V box)) \<le> unat x \<and>
          unat x \<le> unat (fst (vl_origin V box)) + unat (fst (dl_inner D box))
      | None \<Rightarrow> False)"

lemma colours_differ [simp]: "BORDER \<noteq> FOCUS" "SELECTION \<noteq> FOCUS"
  by (simp_all add: BORDER_def FOCUS_def SELECTION_def)

lemma focus_boxes_put [simp]:
  "focus_boxes (put w area fr) = focus_boxes fr @ (if marked w then [area] else [])"
  by (simp add: focus_boxes_def put_def)

lemma focus_boxes_cursor [simp]: "focus_boxes (put_cursor x y fr) = focus_boxes fr"
  by (simp add: focus_boxes_def put_cursor_def)

lemma cursor_put [simp]: "fr_cursor (put w area fr) = fr_cursor fr" "fr_cursor (put_cursor x y fr) = Some (x, y)"
  by (simp_all add: put_def put_cursor_def)

lemma marked_simps [simp]:
  "\<not> marked (FillW c)" "\<not> marked (LineW l)" "\<not> marked (ListW lw)" "\<not> marked (PaneW d b sb)"
  by (simp_all add: marked_def)

lemma error_unmarked [simp]:
  "focus_boxes (draw_error_opt area m fr) = focus_boxes fr" "fr_cursor (draw_error_opt area m fr) = fr_cursor fr"
  by (simp_all add: draw_error_opt_def draw_error_def marked_def split: option.split)

lemma choice_marked [simp]:
  "focus_boxes (choice_draw area title os f fr) = focus_boxes fr @ (if f then [area] else [])"
  "fr_cursor (choice_draw area title os f fr) = fr_cursor fr"
  by (simp_all add: choice_draw_def marked_def bordered_def)

lemma field_marked [simp]:
  "focus_boxes (field_draw W I D V area title i st m fr) = focus_boxes fr @ (if st = Focused then [area] else [])"
  by (cases st) (simp_all add: field_draw_def marked_def bordered_def field_border_def Let_def split: prod.split)

lemma field_idle_cursor [simp]:
  "st \<noteq> Focused \<Longrightarrow> fr_cursor (field_draw W I D V area title i st m fr) = fr_cursor fr"
  by (simp add: field_draw_def Let_def split: prod.split)

lemma cursor_column:
  fixes x width :: u16
  assumes "k \<le> unat width" and "unat x + unat width < 2 ^ 16"
  shows "unat (x + of_nat k) = unat x + k"
proof -
  have "unat (of_nat k :: u16) = k"
    using assms by (simp add: unat_of_nat take_bit_nat_eq_self)
  then show ?thesis using assms unat_add_lem [of x "of_nat k"] by simp
qed

lemma field_cursor_within:
  assumes "view_ok D V"
  shows "cursor_within D V area (field_draw W I D V area title i Focused m fr)"
proof -
  obtain x y where o: "vl_origin V area = (x, y)" by fastforce
  obtain w h where d: "dl_inner D area = (w, h)" by fastforce
  have "vl_cursor V i - vl_scroll V i (unat w) \<le> unat w" using assms by (simp add: view_ok_def le_diff_conv add.commute)
  moreover have "unat (fst (vl_origin V area)) + unat (fst (dl_inner D area)) < 2 ^ 16" using assms by (simp add: view_ok_def)
  ultimately have "vl_cursor V i - vl_scroll V i (unat w) \<le> unat w" "unat x + unat w < 2 ^ 16" using o d by simp_all
  then show ?thesis using o d cursor_column by (simp add: cursor_within_def field_draw_def Let_def)
qed

lemma cursor_within_kept [simp]:
  "cursor_within D V box (put w area fr) = cursor_within D V box fr"
  "cursor_within D V box (draw_error_opt area e fr) = cursor_within D V box fr"
  "st \<noteq> Focused \<Longrightarrow> cursor_within D V box (field_draw W I D V area title i st m fr) = cursor_within D V box fr"
  by (simp_all add: cursor_within_def)

text \<open>The row of a control in the connection form, and those that take no cursor.\<close>

fun focus_row :: "conn_focus \<Rightarrow> nat" where
  "focus_row FTransport = 1"
| "focus_row FServerUrl = 2"
| "focus_row FEndhostApi = 3"
| "focus_row FTarget = 4"
| "focus_row FTrust = 5"
| "focus_row FCertPath = 6"
| "focus_row FCredential = 7"
| "focus_row FSecret = 8"

definition conn_box :: "'i view_lib \<Rightarrow> 'i connection \<Rightarrow> rect \<Rightarrow> rect" where
  "conn_box V c area = vl_area V Vertical FlexCenter (conn_rows c) (form_area V area) (focus_row (cn_focus c))"

definition is_choice :: "conn_focus \<Rightarrow> bool" where
  "is_choice f \<longleftrightarrow> f \<in> {FTransport, FTrust, FCredential}"

lemma focused_iff: "conn_field_state c f = Focused \<longleftrightarrow> cn_focus c = f"
  by (simp add: conn_field_state_def)

lemma connection_focus:
  assumes "connection_ok c" and "focus_boxes fr = []"
  shows "focus_boxes (connection_draw W I D V c area fr) = [conn_box V c area]"
  using assms
  by (cases "cn_focus c"; cases "cn_scion c"; cases "cn_pinned c")
    (simp_all add: connection_draw_def Let_def conn_fields_def conn_field_draw_def focused_iff conn_box_def connection_ok_def)

lemma connection_no_cursor:
  "is_choice (cn_focus c) \<Longrightarrow> fr_cursor (connection_draw W I D V c area fr) = fr_cursor fr"
  by (auto simp: is_choice_def connection_draw_def Let_def conn_fields_def conn_field_draw_def focused_iff)

lemma connection_cursor:
  assumes "connection_ok c" and "view_ok D V" and "\<not> is_choice (cn_focus c)"
  shows "cursor_within D V (conn_box V c area) (connection_draw W I D V c area fr)"
  using assms
  by (cases "cn_focus c"; cases "cn_scion c"; cases "cn_pinned c")
    (simp_all add: connection_draw_def Let_def conn_fields_def conn_field_draw_def focused_iff conn_box_def connection_ok_def
      is_choice_def field_cursor_within conn_field_state_def)

lemma chat_composer:
  "focus_boxes (snd (chat_frame W I D V here s area fr)) = focus_boxes fr @ [chat_rows V s area 1]"
  "view_ok D V \<Longrightarrow> cursor_within D V (chat_rows V s area 1) (snd (chat_frame W I D V here s area fr))"
  by (simp_all add: chat_frame_def Let_def field_cursor_within split: prod.split)


text \<open>A layout of rows three high, and lines one column a character.\<close>

definition demo_view :: "rstr view_lib" where
  "demo_view = \<lparr>vl_area = (\<lambda>_ _ _ r i. r\<lparr>rc_y := rc_y r + of_nat (3 * i)\<rparr>), vl_origin = (\<lambda>r. (1, rc_y r + 1)),
     vl_margin = (\<lambda>_ _ r. r), vl_scroll = (\<lambda>i w. length i - w), vl_cursor = length\<rparr>"

lemma demo_view_ok: "view_ok plain_draw demo_view"
  by (auto simp: view_ok_def plain_draw_def demo_view_def)

definition tab_key :: key where
  "tab_key = \<lparr>k_code = KTab, k_control = False\<rparr>"


definition typing_password :: "rstr \<Rightarrow> (rstr, unit) app" where
  "typing_password p = demo_new\<lparr>ap_screen := ScSignIn \<lparr>si_username = lit ''ann'', si_password = p,
     si_focus = FPassword, si_error = None\<rparr>\<rparr>"


end
