(* ===== verification/App_Loop.thy ===== *)
theory App_Loop
  imports Drawing
begin

text \<open>
  The terminal client's loop (\<open>App::run\<close> in crates/chat-ui-ratatui/src/app.rs): each round draws,
  waits for one arm of the \<open>select!\<close>, and acts on what woke it, until the app exits or the terminal
  fails. A run is a function of its rounds: what the terminal, the streams and the channel gave, and
  what the tasks did in the meantime.
\<close>

section \<open>What woke the loop\<close>

text \<open>A key event says whether it is a press; every other event is ignored.\<close>

datatype event = KeyEvent key bool | OtherEvent nat

datatype 'c woken =
    WTerminal "event option" | WMessages "chat_error + message list" | WRooms "chat_error + room list"
  | WAnswer "'c app_answer"

text \<open>What an arm gave: the terminal's stream, a feed's with the feed after it, or the channel.\<close>

datatype 'c arm =
    ArmKeys "(rstr + event) option" | ArmMessages messages_feed "(chat_error + message list) option"
  | ArmRooms rooms_feed "(chat_error + room list) option" | ArmAnswer "'c app_answer"

definition next_messages ::
  "messages_feed option \<Rightarrow> (chat_error + message list) option \<Rightarrow> chat_error + message list" where
  "next_messages messages polled =
     (case messages of
        Some _ \<Rightarrow> (case polled of Some batch \<Rightarrow> batch | None \<Rightarrow> Inl NotLoggedIn)
      | None \<Rightarrow> Inl NotLoggedIn)"

definition next_rooms :: "rooms_feed option \<Rightarrow> (chat_error + room list) option \<Rightarrow> chat_error + room list" where
  "next_rooms rooms polled =
     (case rooms of
        Some _ \<Rightarrow> (case polled of Some listed \<Rightarrow> listed | None \<Rightarrow> Inl NotLoggedIn)
      | None \<Rightarrow> Inl NotLoggedIn)"

text \<open>The \<open>select!\<close>: the arm that won, and the app after it; a terminal that cannot be read ends the run.\<close>

definition app_select :: "'c arm \<Rightarrow> ('i, 'c) app \<Rightarrow> ('i, 'c) app \<times> (rstr + 'c woken)" where
  "app_select arm a =
     (case arm of
        ArmKeys None \<Rightarrow> (a, Inr (WTerminal None))
      | ArmKeys (Some (Inr e)) \<Rightarrow> (a, Inr (WTerminal (Some e)))
      | ArmKeys (Some (Inl e)) \<Rightarrow> (a, Inl e)
      | ArmMessages f polled \<Rightarrow>
          (a\<lparr>ap_messages := Some f\<rparr>, Inr (WMessages (next_messages (ap_messages a) polled)))
      | ArmRooms f polled \<Rightarrow> (a\<lparr>ap_rooms := Some f\<rparr>, Inr (WRooms (next_rooms (ap_rooms a) polled)))
      | ArmAnswer ans \<Rightarrow>
          (a\<lparr>ap_background := (ap_background a)\<lparr>bg_answers := tl (bg_answers (ap_background a))\<rparr>\<rparr>, Inr (WAnswer ans)))"

fun app_woken :: "'i app_libs \<Rightarrow> 'c woken \<Rightarrow> ('i, 'c) app \<Rightarrow> ('i, 'c) app" where
  "app_woken L (WTerminal (Some (KeyEvent k press))) a = (if press then app_key L k a else a)"
| "app_woken L (WTerminal None) a = a\<lparr>ap_exit := True\<rparr>"
| "app_woken L (WTerminal (Some (OtherEvent n))) a = a"
| "app_woken L (WMessages batch) a = app_batch L batch a"
| "app_woken L (WRooms listed) a = app_rooms L listed a"
| "app_woken L (WAnswer ans) a = app_handle_answer L ans a"

section \<open>The run\<close>

text \<open>
  One round: the area and the time zone it is drawn in, or why it could not be drawn, what happens
  while the loop waits, and the arm that wakes it.
\<close>

record ('i, 'c) round =
  rd_draw :: "rstr option"
  rd_area :: rect
  rd_here :: int
  rd_behind :: "('i, 'c) app \<Rightarrow> ('i, 'c) app"
  rd_arm :: "'c arm"

text \<open>The app, and how the run ended if it has.\<close>

fun app_run ::
  "'i app_libs \<Rightarrow> draw_lib \<Rightarrow> 'i view_lib \<Rightarrow> ('i, 'c) round list \<Rightarrow> ('i, 'c) app
     \<Rightarrow> ('i, 'c) app \<times> (rstr, unit) result option" where
  "app_run L D V [] a = (a, if ap_exit a then Some (Ok ()) else None)"
| "app_run L D V (r # rs) a =
     (if ap_exit a then (a, Some (Ok ()))
      else
        (let a1 = fst (app_draw L D V (rd_here r) (rd_area r) a) in
         case rd_draw r of
           Some e \<Rightarrow> (a1, Some (Err e))
         | None \<Rightarrow>
             (case app_select (rd_arm r) (rd_behind r a1) of
                (a2, Inl e) \<Rightarrow> (a2, Some (Err e))
              | (a2, Inr w) \<Rightarrow> app_run L D V rs (app_woken L w a2))))"

section \<open>What happens behind the loop\<close>

text \<open>Tasks finish and put their answers on the channel, and a feed waits on or goes round again.\<close>

inductive behind :: "('i, 'c) app \<Rightarrow> ('i, 'c) app \<Rightarrow> bool" where
  finishes: "bg_out (ap_background a) = us @ call # vs \<Longrightarrow> answers_call call ans \<Longrightarrow>
    behind a (a\<lparr>ap_background := (ap_background a)\<lparr>bg_out := us @ vs,
      bg_answers := bg_answers (ap_background a) @ [ans]\<rparr>\<rparr>)"
| waits: "ap_messages a = Some f \<Longrightarrow> mf_room f' = mf_room f \<Longrightarrow> behind a (a\<lparr>ap_messages := Some f'\<rparr>)"
| idles: "ap_rooms a \<noteq> None \<Longrightarrow> behind a (a\<lparr>ap_rooms := Some g\<rparr>)"

text \<open>
  An arm can win when it is enabled: a feed's only while there is one, and it stays on its room and
  delivers what was posted there; the channel's with the answer at its head.
\<close>

definition arm_ready :: "(room_id \<Rightarrow> message \<Rightarrow> bool) \<Rightarrow> 'c arm \<Rightarrow> ('i, 'c) app \<Rightarrow> bool" where
  "arm_ready posted arm a =
     (case arm of
        ArmKeys e \<Rightarrow> True
      | ArmMessages f' polled \<Rightarrow>
          (case ap_messages a of
             Some f \<Rightarrow> mf_room f' = mf_room f \<and>
               (case polled of Some (Inr ms) \<Rightarrow> list_all (posted (mf_room f)) ms | _ \<Rightarrow> True)
           | None \<Rightarrow> False)
      | ArmRooms g polled \<Rightarrow>
          ap_rooms a \<noteq> None \<and>
          (case (polled, ap_screen a) of
             (Some (Inr rooms), ScChat s) \<Rightarrow> rooms_ok rooms \<and> keeps_rooms (ch_rooms s) rooms
           | _ \<Rightarrow> True)
      | ArmAnswer ans \<Rightarrow> (case bg_answers (ap_background a) of x # _ \<Rightarrow> x = ans | [] \<Rightarrow> False))"

text \<open>Rounds that can happen one after another, in one time zone.\<close>

fun run_ready ::
  "'i app_libs \<Rightarrow> draw_lib \<Rightarrow> 'i view_lib \<Rightarrow> int \<Rightarrow> (room_id \<Rightarrow> message \<Rightarrow> bool) \<Rightarrow> ('i, 'c) round list
     \<Rightarrow> ('i, 'c) app \<Rightarrow> bool" where
  "run_ready L D V here posted [] a \<longleftrightarrow> True"
| "run_ready L D V here posted (r # rs) a \<longleftrightarrow>
     rd_here r = here \<and>
     (let a1 = fst (app_draw L D V (rd_here r) (rd_area r) a); b = rd_behind r a1 in
      behind\<^sup>*\<^sup>* a1 b \<and> arm_ready posted (rd_arm r) b \<and>
      (case app_select (rd_arm r) b of
         (a2, Inr w) \<Rightarrow> run_ready L D V here posted rs (app_woken L w a2)
       | _ \<Rightarrow> True))"

end
