(* ===== verification/Loop_Properties.thy ===== *)
theory Loop_Properties
  imports App_Loop App_Properties
begin

text \<open>
  What holds of the loop and of what it draws: a run is a run of the steps the app's invariants are
  proved over, it ends exactly when it should, and what is on screen shows where keys go and gives
  no secret away.
\<close>

section \<open>A run is made of steps\<close>

lemma chat_frame_draws:
  "fst (chat_frame W I D V here c area fr) = fst (chat_draw W D here (chat_rows V c area 0) c)"
  by (simp add: chat_frame_def Let_def split: prod.split)

lemma app_draw_chat:
  "ap_screen a = ScChat s \<Longrightarrow> fst (app_draw L D V here area a) =
     a\<lparr>ap_screen := ScChat (fst (chat_draw (al_width L) D here (chat_rows V s area 0) s))\<rparr>"
  using chat_frame_draws [of "al_width L" "al_input L" D V here s area]
  by (simp add: app_draw_def Let_def split: prod.split) (metis fst_conv)

lemma app_draw_steps: "(app_step L D here posted)\<^sup>*\<^sup>* a (fst (app_draw L D V here area a))"
proof (cases "ap_screen a")
  case (ScChat s)
  show ?thesis unfolding app_draw_chat [OF ScChat] using app_step.drawn [OF ScChat] by blast
qed (simp_all add: app_draw_def Let_def)

lemma app_draw_exit [simp]: "ap_exit (fst (app_draw L D V here area a)) = ap_exit a"
  by (simp add: app_draw_def Let_def split: app_screen.split prod.split)

lemma behind_step: "behind a b \<Longrightarrow> app_step L D here posted a b"
  by (auto elim!: behind.cases intro: app_step.finished app_step.waited app_step.idled)

lemma behind_steps: "behind\<^sup>*\<^sup>* a b \<Longrightarrow> (app_step L D here posted)\<^sup>*\<^sup>* a b"
  by (rule mono_rtranclp [rule_format, of behind]) (rule behind_step)

lemma behind_exit: "behind\<^sup>*\<^sup>* a b \<Longrightarrow> ap_exit b = ap_exit a"
  by (induction rule: rtranclp_induct) (auto elim!: behind.cases)

lemma select_steps:
  assumes "arm_ready posted arm a" and "\<not> ap_exit a" and "app_select arm a = (a2, Inr w)"
  shows "(app_step L D here posted)\<^sup>*\<^sup>* a (app_woken L w a2)"
proof (cases arm)
  case (ArmKeys e)
  then have "a2 = a" using assms(3) by (auto simp: app_select_def split: option.splits sum.splits)
  moreover have "w = WTerminal None \<or> (\<exists>e. w = WTerminal (Some e))" using ArmKeys assms(3)
    by (auto simp: app_select_def split: option.splits sum.splits)
  then have "app_woken L w a = a \<or> (\<exists>k. app_woken L w a = app_key L k a) \<or> app_woken L w a = a\<lparr>ap_exit := True\<rparr>"
    by (metis app_woken.simps(1-3) event.exhaust)
  ultimately show ?thesis using assms(2) app_step.pressed app_step.closed by (metis r_into_rtranclp rtranclp.rtrancl_refl)
next
  case (ArmMessages f' polled)
  then obtain f where f: "ap_messages a = Some f" "mf_room f' = mf_room f"
    "case polled of Some (Inr ms) \<Rightarrow> list_all (posted (mf_room f)) ms | _ \<Rightarrow> True"
    using assms(1) by (auto simp: arm_ready_def split: option.splits)
  have "\<forall>ms. next_messages (ap_messages a) polled = Inr ms \<longrightarrow> list_all (posted (mf_room f)) ms"
    using f by (auto simp: next_messages_def split: option.splits)
  moreover have "app_woken L w a2 = app_batch L (next_messages (ap_messages a) polled) (a\<lparr>ap_messages := Some f'\<rparr>)"
    using assms(3) ArmMessages by (auto simp: app_select_def)
  ultimately show ?thesis using app_step.delivered [OF assms(2) f(1,2)] by (metis r_into_rtranclp)
next
  case (ArmRooms g polled)
  then have g: "ap_rooms a \<noteq> None"
    "case (polled, ap_screen a) of (Some (Inr rooms), ScChat s) \<Rightarrow> rooms_ok rooms \<and> keeps_rooms (ch_rooms s) rooms | _ \<Rightarrow> True"
    using assms(1) by (auto simp: arm_ready_def)
  have "\<forall>rooms s. next_rooms (ap_rooms a) polled = Inr rooms \<longrightarrow> ap_screen a = ScChat s \<longrightarrow>
      rooms_ok rooms \<and> keeps_rooms (ch_rooms s) rooms"
    using g by (auto simp: next_rooms_def split: option.splits)
  moreover have "app_woken L w a2 = app_rooms L (next_rooms (ap_rooms a) polled) (a\<lparr>ap_rooms := Some g\<rparr>)"
    using assms(3) ArmRooms by (auto simp: app_select_def)
  ultimately show ?thesis using app_step.listed [OF assms(2) g(1)] by (metis r_into_rtranclp)
next
  case (ArmAnswer ans)
  then obtain rest where "bg_answers (ap_background a) = ans # rest"
    using assms(1) by (auto simp: arm_ready_def split: list.splits)
  then have "app_woken L w a2 = app_handle_answer L ans (a\<lparr>ap_background := (ap_background a)\<lparr>bg_answers := rest\<rparr>\<rparr>)"
    "bg_answers (ap_background a) = ans # rest"
    using assms(3) ArmAnswer by (auto simp: app_select_def)
  then show ?thesis using app_step.answered [OF assms(2)] by (metis r_into_rtranclp)
qed

text \<open>C4: The loop runs nothing but the steps of the app: every run over rounds that can happen takes the
  app only where those steps lead, so every invariant of theirs holds after every round.\<close>

theorem run_takes_steps:
  assumes "run_ready L D V here posted rs a"
  shows "(app_step L D here posted)\<^sup>*\<^sup>* a (fst (app_run L D V rs a))"
  using assms
proof (induction rs arbitrary: a)
  case (Cons r rs)
  show ?case
  proof (cases "ap_exit a")
    case False
    let ?a1 = "fst (app_draw L D V here (rd_area r) a)"
    obtain a2 got where sel: "app_select (rd_arm r) (rd_behind r ?a1) = (a2, got)" by fastforce
    have ready: "behind\<^sup>*\<^sup>* ?a1 (rd_behind r ?a1)" "arm_ready posted (rd_arm r) (rd_behind r ?a1)" "rd_here r = here"
      "\<And>w. got = Inr w \<Longrightarrow> run_ready L D V here posted rs (app_woken L w a2)"
      using Cons.prems sel by (auto simp: Let_def)
    have drawn: "(app_step L D here posted)\<^sup>*\<^sup>* a ?a1" by (rule app_draw_steps)
    have waited: "(app_step L D here posted)\<^sup>*\<^sup>* a (rd_behind r ?a1)"
      by (rule rtranclp_trans [OF drawn behind_steps [OF ready(1)]])
    have alive: "\<not> ap_exit (rd_behind r ?a1)" using behind_exit [OF ready(1)] False by simp
    show ?thesis
    proof (cases "rd_draw r")
      case None
      show ?thesis
      proof (cases got)
        case (Inl e)
        then have "a2 = rd_behind r ?a1" using sel by (auto simp: app_select_def split: arm.splits option.splits sum.splits)
        then show ?thesis using waited False None sel Inl ready(3) by simp
      next
        case (Inr w)
        have "(app_step L D here posted)\<^sup>*\<^sup>* a (app_woken L w a2)"
          by (rule rtranclp_trans [OF waited select_steps [OF ready(2) alive]]) (simp add: sel Inr)
        from rtranclp_trans [OF this Cons.IH [OF ready(4) [OF Inr]]]
        show ?thesis using False None sel Inr ready(3) by simp
      qed
    qed (use drawn False ready(3) in simp)
  qed simp
qed simp

text \<open>A round in which nothing happens but a press of a key.\<close>

definition pressing :: "key_code \<Rightarrow> (rstr, unit) round" where
  "pressing k = \<lparr>rd_draw = None, rd_area = demo_area, rd_here = 0, rd_behind = id,
     rd_arm = ArmKeys (Some (Inr (KeyEvent \<lparr>k_code = k, k_control = False\<rparr> True)))\<rparr>"

lemma pressing_ready: "run_ready demo_libs plain_draw V 0 posted (map pressing ks) a"
  by (induction ks arbitrary: a) (simp_all add: pressing_def arm_ready_def app_select_def Let_def)

definition still_view :: "rstr view_lib" where
  "still_view = \<lparr>vl_area = (\<lambda>_ _ _ r _. r), vl_origin = (\<lambda>r. (rc_x r + 1, rc_y r + 1)), vl_margin = (\<lambda>_ _ r. r),
     vl_scroll = (\<lambda>_ _. 0), vl_cursor = length\<rparr>"

corollary run_takes_steps_witness:
  "(app_step demo_libs plain_draw 0 (\<lambda>_ _. False))\<^sup>*\<^sup>* demo_new
     (fst (app_run demo_libs plain_draw still_view (map pressing [KTab, KEsc]) demo_new))"
  by (rule run_takes_steps [OF pressing_ready])

section \<open>When the run ends\<close>

definition quits :: "key \<Rightarrow> bool" where
  "quits k \<longleftrightarrow> k_code k = KEsc \<or> (k_code k = KChar 99 \<and> k_control k)"

lemma ask_exit [simp]:
  "ap_exit (app_ask work a) = ap_exit a" "ap_exit (app_connect form a) = ap_exit a"
  "ap_exit (app_register u p a) = ap_exit a" "ap_exit (app_log_in u p a) = ap_exit a"
  "ap_exit (app_open_room a) = ap_exit a" "ap_exit (app_send body a) = ap_exit a"
  "ap_exit (app_create_room name a) = ap_exit a"
  by (simp_all add: app_ask_def app_connect_def app_register_def app_log_in_def app_open_room_def app_send_def
      app_create_room_def Let_def split: option.split app_screen.split prod.split)

lemma failure_exit [simp]:
  "ap_exit (app_failed L e a) = ap_exit a" "ap_exit (app_refused L e a) = ap_exit a"
  by (simp_all add: app_failed_def app_refused_def signed_out_def Let_def split: app_screen.split)

lemma event_exit [simp]:
  "ap_exit (app_batch L batch a) = ap_exit a" "ap_exit (app_rooms L listed a) = ap_exit a"
  by (simp_all add: app_batch_def app_rooms_def Let_def split: sum.split app_screen.split)

lemma answer_exit [simp]: "ap_exit (app_handle_answer L ans a) = ap_exit a"
  by (cases ans) (simp_all add: app_handle_answer_def Let_def split: sum.split app_screen.split prod.split)

lemma key_exit: "ap_exit (app_key L k a) \<longleftrightarrow> ap_exit a \<or> quits k"
  by (cases "quits k") (simp_all add: app_key_def quits_def [symmetric] Let_def
      split: app_screen.split prod.split option.split sign_in_intent.split chat_intent.split)

text \<open>The rounds that end a run, and how.\<close>

definition ending :: "('i, 'c) round \<Rightarrow> (rstr, unit) result option" where
  "ending r =
     (case rd_draw r of
        Some e \<Rightarrow> Some (Err e)
      | None \<Rightarrow>
          (case rd_arm r of
             ArmKeys None \<Rightarrow> Some (Ok ())
           | ArmKeys (Some (Inl e)) \<Rightarrow> Some (Err e)
           | ArmKeys (Some (Inr (KeyEvent k press))) \<Rightarrow> if press \<and> quits k then Some (Ok ()) else None
           | _ \<Rightarrow> None))"

lemma select_exit:
  assumes "app_select arm a = (a2, Inr w)"
  shows "ap_exit (app_woken L w a2) \<longleftrightarrow> ap_exit a \<or>
    (case arm of ArmKeys None \<Rightarrow> True | ArmKeys (Some (Inr (KeyEvent k press))) \<Rightarrow> press \<and> quits k | _ \<Rightarrow> False)"
  using assms by (cases arm) (auto simp: app_select_def key_exit split: option.splits sum.splits event.splits if_splits)

lemma select_fails:
  "app_select arm a = (a2, Inl e) \<longleftrightarrow> arm = ArmKeys (Some (Inl e)) \<and> a2 = a"
  by (auto simp: app_select_def split: arm.splits option.splits sum.splits)

lemma run_exited: "ap_exit a \<Longrightarrow> app_run L D V rs a = (a, Some (Ok ()))"
  by (cases rs) simp_all

text \<open>C29: The run ends with the first round that ends it, and with no other: a press of Esc or Ctrl+C,
  whatever screen shows and whether a call is out, the end of the terminal's input, or a terminal
  that cannot be read or drawn to, which is the run's error. Nothing that comes after is looked at.\<close>

theorem run_ends_on_quit:
  assumes "run_ready L D V here posted rs a" and "\<not> ap_exit a"
  shows "snd (app_run L D V rs a) = Option.bind (find (\<lambda>r. ending r \<noteq> None) rs) ending \<and>
    (snd (app_run L D V rs a) \<noteq> None \<longrightarrow> app_run L D V (rs @ later) a = app_run L D V rs a)"
  using assms
proof (induction rs arbitrary: a)
  case (Cons r rs)
  let ?a1 = "fst (app_draw L D V (rd_here r) (rd_area r) a)"
  let ?b = "rd_behind r ?a1"
  obtain a2 got where sel: "app_select (rd_arm r) ?b = (a2, got)" by fastforce
  have ready: "behind\<^sup>*\<^sup>* ?a1 ?b" "\<And>w. got = Inr w \<Longrightarrow> run_ready L D V here posted rs (app_woken L w a2)"
    using Cons.prems(1) sel by (auto simp: Let_def)
  have alive: "\<not> ap_exit ?b" using behind_exit [OF ready(1)] Cons.prems(2) by simp
  show ?case
  proof (cases "rd_draw r")
    case None
    show ?thesis
    proof (cases got)
      case (Inl e)
      then have "rd_arm r = ArmKeys (Some (Inl e))" using sel select_fails by metis
      then show ?thesis using None Cons.prems(2) sel Inl by (simp add: ending_def)
    next
      case (Inr w)
      have run: "app_run L D V (r # qs) a = app_run L D V qs (app_woken L w a2)" for qs
        using None Cons.prems(2) sel Inr by simp
      show ?thesis
      proof (cases "ap_exit (app_woken L w a2)")
        case True
        then have "ending r = Some (Ok ())"
          using select_exit [OF sel [unfolded Inr]] alive None
          by (auto simp: ending_def split: arm.splits option.splits sum.splits event.splits)
        then show ?thesis using True run run [of "rs @ later"] by (simp add: run_exited)
      next
        case False
        then have "ending r = None"
          using select_exit [OF sel [unfolded Inr]] sel Inr None
          by (auto simp: ending_def app_select_def split: arm.splits option.splits sum.splits event.splits)
        then show ?thesis using Cons.IH [OF ready(2) [OF Inr] False] run run [of "rs @ later"] by simp
      qed
    qed
  qed (use Cons.prems(2) in \<open>simp add: ending_def\<close>)
qed simp

corollary run_ends_on_quit_witness:
  "snd (app_run demo_libs plain_draw still_view (map pressing [KTab, KEsc]) demo_new) = Some (Ok ()) \<and>
   app_run demo_libs plain_draw still_view (map pressing [KTab, KEsc] @ map pressing [KTab]) demo_new =
     app_run demo_libs plain_draw still_view (map pressing [KTab, KEsc]) demo_new"
proof -
  have "\<not> ap_exit demo_new" by (simp add: app_new_def)
  note ends = run_ends_on_quit [OF pressing_ready [where ks = "[KTab, KEsc]"] this, where later = "map pressing [KTab]"]
  have "find (\<lambda>r. ending r \<noteq> None) (map pressing [KTab, KEsc]) = Some (pressing KEsc)" "ending (pressing KEsc) = Some (Ok ())"
    by (simp_all add: ending_def pressing_def quits_def)
  then show ?thesis using ends by simp
qed

end
