(* ===== verification/Processes.thy ===== *)
theory Processes
  imports Dev_Properties App_Loop
begin

text \<open>
  The three programs' \<open>main\<close> (crates/chat-server, chat-dev and chat-ui-ratatui), and the control API
  chat-dev serves until it is stopped: the signals and the end of standard input that stop a process
  are events, and what it prints and serves is its result. clap's parsing gives the configuration.
\<close>

section \<open>chat-server (main.rs)\<close>

datatype signal = Interrupt | Terminate | OtherSignal nat

text \<open>\<open>cancel_on_signal\<close>: whether each handler could be registered, and the signals that came since.\<close>

definition cancel_on_signal :: "bool \<Rightarrow> bool \<Rightarrow> signal list \<Rightarrow> bool" where
  "cancel_on_signal interrupt terminate signals =
     (if \<not> interrupt then False
      else if \<not> terminate then False
      else list_ex (\<lambda>s. s = Interrupt \<or> s = Terminate) signals)"

definition server_main ::
  "('url, 'src, 'st, 'ia, 'so, 'q) net_lib \<Rightarrow> ('k, 'p, 'c) tls_lib \<Rightarrow> start_env \<Rightarrow> config \<Rightarrow> host \<Rightarrow> host \<times> nat" where
  "server_main N L e cfg h = (let (h', r) = run N L e cfg h in (h', exit_code r))"

section \<open>chat-dev (lib.rs, main.rs)\<close>

text \<open>A read of the description with its \<open>Host\<close> header, Ctrl+C, or what reading a line of standard input gave.\<close>

datatype dev_event = InfoRead "nat list option" | CtrlC | StdinRead "rstr + nat"

text \<open>\<open>stdin_closed\<close> goes on for as long as a read gives something; a failed one counts as nothing.\<close>

definition stdin_ends :: "rstr + nat \<Rightarrow> bool" where
  "stdin_ends got = (case got of Inr n \<Rightarrow> n = 0 | Inl _ \<Rightarrow> True)"

text \<open>
  \<open>serve\<close> under the \<open>select!\<close> of \<open>main\<close>: the descriptions served, each with a token minted for it, and
  whether the process was stopped. Standard input is watched off a terminal only.
\<close>

fun dev_serve ::
  "'ia dev_lib \<Rightarrow> profiles \<Rightarrow> bool \<Rightarrow> nat \<Rightarrow> dev_event list \<Rightarrow> dev_network list \<times> bool" where
  "dev_serve D p terminal k [] = ([], False)"
| "dev_serve D p terminal k (InfoRead hdr # es) =
     (let (served, stopped) = dev_serve D p terminal (k + 1) es in (info_get D p k hdr # served, stopped))"
| "dev_serve D p terminal k (CtrlC # es) = ([], True)"
| "dev_serve D p terminal k (StdinRead got # es) =
     (if \<not> terminal \<and> stdin_ends got then ([], True) else dev_serve D p terminal k es)"

text \<open>Why \<open>main\<close> fails, and what it does otherwise.\<close>

datatype dev_failure = StartFailed dev_error | JsonFailed rstr | FlushFailed rstr

record dev_run =
  dr_stdout :: rstr
  dr_stderr :: "rstr list"
  dr_served :: "dev_network list"
  dr_stopped :: bool

text \<open>
  Two tokens are minted before anything is served: the server's, and the one in the descriptions.
  \<open>json\<close> is serde_json's text of a description, \<open>flush\<close> whether standard output takes it.
\<close>

definition dev_main ::
  "'ia dev_lib \<Rightarrow> ('url, 'src, 'st, 'ia, 'so, 'q) net_lib \<Rightarrow> ('k, 'p, 'c) tls_lib \<Rightarrow> start_env \<Rightarrow> dev_config
     \<Rightarrow> (dev_network \<Rightarrow> rstr + rstr) \<Rightarrow> rstr option \<Rightarrow> bool \<Rightarrow> dev_event list \<Rightarrow> host
     \<Rightarrow> host \<times> (dev_failure, dev_run) result" where
  "dev_main D N L e cfg json flush terminal es h =
     (let (h', started) = dev_start D N L e cfg h in
      (h', bind_res (map_err StartFailed started) (\<lambda>setup.
             let network = pf_default (ds_profiles setup) in
             case json network of
               Inl x \<Rightarrow> Err (JsonFailed x)
             | Inr described \<Rightarrow>
                 (case flush of
                    Some x \<Rightarrow> Err (FlushFailed x)
                  | None \<Rightarrow>
                      (let (served, stopped) = dev_serve D (ds_profiles setup) terminal 2 es
                       in Ok \<lparr>dr_stdout = described @ [10], dr_stderr = summarise network,
                            dr_served = served, dr_stopped = stopped\<rparr>)))))"

section \<open>The terminal client (main.rs)\<close>

text \<open>The terminal is taken before the app runs, and given back however the run ended.\<close>

datatype terminal_step = TakeTerminal | RestoreTerminal

definition tui_main ::
  "'i app_libs \<Rightarrow> draw_lib \<Rightarrow> 'i view_lib \<Rightarrow> connection_form \<Rightarrow> ('i, 'c) round list
     \<Rightarrow> terminal_step list \<times> (rstr, unit) result option" where
  "tui_main L D V form rounds =
     (case snd (app_run L D V rounds (app_new L form)) of
        None \<Rightarrow> ([TakeTerminal], None)
      | Some r \<Rightarrow> ([TakeTerminal, RestoreTerminal], Some r))"

section \<open>Who reads the description\<close>

text \<open>The \<open>Host\<close> headers of the reads before the process stops.\<close>

fun asked :: "bool \<Rightarrow> dev_event list \<Rightarrow> nat list option list" where
  "asked terminal [] = []"
| "asked terminal (InfoRead hdr # es) = hdr # asked terminal es"
| "asked terminal (CtrlC # es) = []"
| "asked terminal (StdinRead got # es) = (if \<not> terminal \<and> stdin_ends got then [] else asked terminal es)"

lemma dev_serve_served:
  "map (dn_auth_token_update (\<lambda>_. t)) (fst (dev_serve D p terminal k es)) =
     map (\<lambda>hdr. (for_host D p hdr)\<lparr>dn_auth_token := t\<rparr>) (asked terminal es)"
  by (induction D p terminal k es rule: dev_serve.induct) (auto simp: split_beta Let_def info_get_def)

lemma served_tokens:
  "map dn_auth_token (fst (dev_serve D p terminal k es)) = map (dl_token D) [k..<k + length (asked terminal es)]"
  by (induction D p terminal k es rule: dev_serve.induct)
    (auto simp: split_beta Let_def upt_conv_Cons info_get_def simp del: upt_Suc)

lemma describe_token: "dn_auth_token (pf_default (describe D cfg d tf c pem ca ea sa target port)) = dl_token D 1"
  by (simp add: describe_def Let_def)

lemma dev_start_token:
  assumes "dev_start D N L e cfg h = (h', Ok s)"
  shows "dn_auth_token (pf_default (ds_profiles s)) = dl_token D 1"
proof -
  obtain network d where "dev_start_in D N L e cfg network d h = (h', Ok s)"
    using assms by (auto simp: dev_start_def Let_def split: if_splits option.splits result.splits)
  then show ?thesis by (cases rule: dev_start_in_cases) (simp add: describe_token)
qed

lemma dev_main_Ok:
  assumes "dev_main D N L e cfg json flush terminal es h = (h', Ok r)"
  obtains s where "dev_start D N L e cfg h = (h', Ok s)"
    and "dr_served r = fst (dev_serve D (ds_profiles s) terminal 2 es)"
    and "dr_stopped r = snd (dev_serve D (ds_profiles s) terminal 2 es)"
    and "\<exists>t. json (pf_default (ds_profiles s)) = Inr t \<and> dr_stdout r = t @ [10]"
    and "dr_stderr r = summarise (pf_default (ds_profiles s))"
proof -
  obtain started where st: "dev_start D N L e cfg h = (h', started)"
    using assms by (cases "dev_start D N L e cfg h") (simp add: dev_main_def Let_def)
  with assms obtain s where s: "started = Ok s"
    by (cases started) (simp_all add: dev_main_def Let_def)
  show ?thesis
  proof (rule that [OF st [unfolded s]])
  qed (use assms st s in \<open>auto simp: dev_main_def Let_def split: sum.splits option.splits prod.splits\<close>)
qed

lemma dev_serve_stopped:
  "snd (dev_serve D p terminal k es) \<longleftrightarrow>
     CtrlC \<in> set es \<or> (\<not> terminal \<and> (\<exists>got. StdinRead got \<in> set es \<and> stdin_ends got))"
  by (induction D p terminal k es rule: dev_serve.induct) (auto simp: split_beta Let_def)

text \<open>C35: chat-dev prints the description of the network it started and then serves it: each reader, up
  to what stops the process, is given the description for the address it asked at, with a token of
  its own that is neither another reader's, nor the printed one, nor the server's, and nothing else
  of it differs. What stops it is Ctrl+C, or the end of standard input when that is no terminal.\<close>

theorem readers_told_apart:
  assumes "inj (dl_token D)" and "dev_main D N L e cfg json flush terminal es h = (h', Ok r)"
  shows "\<exists>s printed. dev_start D N L e cfg h = (h', Ok s) \<and>
    json (pf_default (ds_profiles s)) = Inr printed \<and> dr_stdout r = printed @ [10] \<and>
    distinct (dl_token D 0 # dn_auth_token (pf_default (ds_profiles s)) # map dn_auth_token (dr_served r)) \<and>
    map (dn_auth_token_update (\<lambda>_. [])) (dr_served r) =
      map (\<lambda>hdr. (for_host D (ds_profiles s) hdr)\<lparr>dn_auth_token := []\<rparr>) (asked terminal es) \<and>
    (dr_stopped r \<longleftrightarrow> CtrlC \<in> set es \<or> (\<not> terminal \<and> (\<exists>got. StdinRead got \<in> set es \<and> stdin_ends got)))"
proof -
  from assms(2) obtain s where st: "dev_start D N L e cfg h = (h', Ok s)"
    and served: "dr_served r = fst (dev_serve D (ds_profiles s) terminal 2 es)"
    and stop: "dr_stopped r = snd (dev_serve D (ds_profiles s) terminal 2 es)"
    and out: "\<exists>t. json (pf_default (ds_profiles s)) = Inr t \<and> dr_stdout r = t @ [10]"
    by (rule dev_main_Ok)
  have tokens: "dl_token D 0 # dn_auth_token (pf_default (ds_profiles s)) # map dn_auth_token (dr_served r) =
      map (dl_token D) (0 # 1 # [2..<2 + length (asked terminal es)])"
    by (simp only: list.map dev_start_token [OF st] served served_tokens)
  have distinct: "distinct (0 # 1 # [2..<n])" for n by simp
  have "inj_on (dl_token D) A" for A using assms(1) by (rule inj_on_subset) simp
  then have "distinct (dl_token D 0 # dn_auth_token (pf_default (ds_profiles s)) # map dn_auth_token (dr_served r))"
    unfolding tokens distinct_map by (intro conjI distinct)
  moreover have "map (dn_auth_token_update (\<lambda>_. [])) (dr_served r) =
      map (\<lambda>hdr. (for_host D (ds_profiles s) hdr)\<lparr>dn_auth_token := []\<rparr>) (asked terminal es)"
    unfolding served by (rule dev_serve_served)
  ultimately show ?thesis using st out stop by (auto simp: dev_serve_stopped)
qed

corollary readers_told_apart_witness:
  "\<exists>h' r s. dev_main demo_dev demo_net demo_tls calm_start demo_dev_config (\<lambda>n. Inr (dn_target n)) None True
      [InfoRead None, StdinRead (Inr 0), InfoRead (Some (as_bytes (lit ''10.0.2.2''))), CtrlC, InfoRead None]
      \<lparr>ho_disk = Map.empty, ho_files = Map.empty\<rparr> = (h', Ok r) \<and>
    length (dr_served r) = 2 \<and> distinct (map dn_auth_token (dr_served r)) \<and> dr_stopped r"
proof -
  let ?es = "[InfoRead None, StdinRead (Inr 0), InfoRead (Some (as_bytes (lit ''10.0.2.2''))), CtrlC, InfoRead None]"
  obtain h' r where run: "dev_main demo_dev demo_net demo_tls calm_start demo_dev_config (\<lambda>n. Inr (dn_target n)) None
      True ?es \<lparr>ho_disk = Map.empty, ho_files = Map.empty\<rparr> = (h', Ok r)"
    using demo_dev_run by (fastforce simp: dev_main_def Let_def)
  have inj: "inj (dl_token demo_dev)" by (rule injI) (simp add: demo_dev_def dec_inj)
  from readers_told_apart [OF inj run] obtain s :: "nat scion_addr dev_setup" where
      "distinct (dl_token demo_dev 0 # dn_auth_token (pf_default (ds_profiles s)) # map dn_auth_token (dr_served r))"
      "dr_stopped r \<longleftrightarrow> CtrlC \<in> set ?es \<or> (\<not> True \<and> (\<exists>got. StdinRead got \<in> set ?es \<and> stdin_ends got))"
      "map (dn_auth_token_update (\<lambda>_. [])) (dr_served r) =
        map (\<lambda>hdr. (for_host demo_dev (ds_profiles s) hdr)\<lparr>dn_auth_token := []\<rparr>) (asked True ?es)"
    by blast
  moreover from this(3) have "length (dr_served r) = length (asked True ?es)" by (metis length_map)
  ultimately show ?thesis using run by auto
qed

end
