(* ===== verification/Startup_Text.thy ===== *)
theory Startup_Text
  imports Dev_Properties "HOL-Library.Sublist"
begin

text \<open>
  What the failures of the server and of the development network say (the \<open>Display\<close> of the errors in
  crates/chat-server/src/{store,auth,cert,lib}.rs and crates/chat-dev/src/lib.rs). What a library's
  own error says is in the error, but for the JWT library's, whose text is an argument.
\<close>

definition int_text :: "int \<Rightarrow> rstr" where
  "int_text n = (if n < 0 then lit ''-'' @ dec (nat (- n)) else dec (nat n))"

fun store_error_text :: "store_error \<Rightarrow> rstr" where
  "store_error_text (NotFound what) = lit ''not found: '' @ what"
| "store_error_text (DbError e) = lit ''database error: '' @ e"
| "store_error_text (FileError path source) = lit ''database file '' @ path @ lit '': '' @ source"
| "store_error_text (CapExceededErr what) = lit what @ lit '' cap reached''"
| "store_error_text (OutOfRange what n) = lit what @ lit '' out of range: '' @ int_text n"

fun auth_error_text :: "(jwt_error \<Rightarrow> rstr) \<Rightarrow> auth_error \<Rightarrow> rstr" where
  "auth_error_text jwt (PasswordErr e) = lit ''password: '' @ e"
| "auth_error_text jwt (TokenErr e) = lit ''token: '' @ jwt e"
| "auth_error_text jwt (SecretErr path source) = lit ''jwt secret '' @ path @ lit '': '' @ source"

fun cert_error_text :: "cert_error \<Rightarrow> rstr" where
  "cert_error_text (CertIo action path source) =
     lit ''could not '' @ lit action @ lit '' '' @ path @ lit '': '' @ source"
| "cert_error_text (CertGenerate e) = lit ''generating a self-signed certificate: '' @ e"
| "cert_error_text (CertParse path source) =
     lit ''the certificate at '' @ path @ lit '' is not readable PEM: '' @ source"

fun run_error_text :: "(jwt_error \<Rightarrow> rstr) \<Rightarrow> run_error \<Rightarrow> rstr" where
  "run_error_text jwt (RunStore e) = store_error_text e"
| "run_error_text jwt (RunAuth e) = auth_error_text jwt e"
| "run_error_text jwt (RunServe addr source) = lit ''serving on '' @ show_sock addr @ lit '': '' @ source"
| "run_error_text jwt (RunCert e) = cert_error_text e"
| "run_error_text jwt (RunConfig t) = t"
| "run_error_text jwt (RunAa e) = lit ''exchanging the API key at the AA: '' @ e"
| "run_error_text jwt (RunScion action detail) = lit action @ lit '': '' @ detail"

fun dev_error_text :: "(jwt_error \<Rightarrow> rstr) \<Rightarrow> dev_error \<Rightarrow> rstr" where
  "dev_error_text jwt (DevIo action path source) = lit action @ lit '' '' @ path"
| "dev_error_text jwt (NoEndhostApi ia) = lit ''the topology has no endhost API for '' @ ia"
| "dev_error_text jwt (WildcardBind ip) =
     lit ''--bind-ip cannot be a wildcard: the SNAP tunnel is dialled at this address, and '' @ show_ip ip @
     lit '' names no host. Give this machine's own address, or keep 127.0.0.1.''"
| "dev_error_text jwt (DevCert e) = cert_error_text e"
| "dev_error_text jwt (DevServer e) = run_error_text jwt e"

section \<open>A refusal says what to act on\<close>

text \<open>A wildcard address is refused before anything is started or written, by the name of its flag.\<close>

lemma wildcard_refused:
  assumes "is_unspecified (dc_bind_ip cfg)"
  shows "\<exists>x. dev_start D N L e cfg h = (h, Err x) \<and> prefix (lit ''--bind-ip'') (dev_error_text jwt x) \<and>
    sublist (show_ip (dc_bind_ip cfg)) (dev_error_text jwt x)"
proof (intro exI conjI)
  show "dev_start D N L e cfg h = (h, Err (WildcardBind (dc_bind_ip cfg)))" using assms by (simp add: dev_start_def)
qed (simp, simp del: lit_simps)

text \<open>A file that could not be handled is named in what is said of it, whoever handled it.\<close>

lemma failed_file_named:
  "sublist path (store_error_text (FileError path e))" "sublist path (auth_error_text jwt (SecretErr path e))"
  "sublist path (cert_error_text (CertIo action path e))" "sublist path (cert_error_text (CertParse path e))"
  "sublist path (dev_error_text jwt (DevIo action path e))"
  using sublist_appendI [of path "_ @ _ @ _" "_ @ _"] sublist_appendI [of path "_ @ _" "[]"]
  by (simp_all del: lit_simps)

end
