(* ===== verification/Command_Line.thy ===== *)
theory Command_Line
  imports Processes
begin

text \<open>
  The flags of the three programs (the \<open>#[arg]\<close> attributes in crates/chat-server/src/config.rs,
  crates/chat-dev/src/config.rs and crates/chat-ui-ratatui/src/screens/connection.rs): which there
  are, with their variables, defaults and conflicts, and the configuration built from what they are
  given. Splitting a command line by such a table is clap's, and an argument.
\<close>

section \<open>Declared arguments\<close>

datatype takes = RequiredValue | OptionalValue | DefaultValue rstr | Switch

text \<open>The long name, the environment variable, what it takes, and what it may not be given with.\<close>

record cli_arg =
  ag_long :: string
  ag_env :: string
  ag_takes :: takes
  ag_conflicts :: "string list"

definition arg :: "string \<Rightarrow> string \<Rightarrow> takes \<Rightarrow> cli_arg" where
  "arg name var t = \<lparr>ag_long = name, ag_env = var, ag_takes = t, ag_conflicts = []\<rparr>"

definition server_args :: "cli_arg list" where
  "server_args =
     [arg ''transport'' ''CHAT_TRANSPORT'' RequiredValue,
      arg ''listen'' ''CHAT_LISTEN'' (DefaultValue (lit ''127.0.0.1:8443'')),
      arg ''data-dir'' ''CHAT_DATA_DIR'' RequiredValue,
      arg ''max-accounts'' ''CHAT_MAX_ACCOUNTS'' (DefaultValue (dec 500)),
      arg ''max-rooms'' ''CHAT_MAX_ROOMS'' (DefaultValue (dec 100)),
      arg ''max-message-bytes'' ''CHAT_MAX_MESSAGE_BYTES'' (DefaultValue (dec 4096)),
      arg ''token-expiry-days'' ''CHAT_TOKEN_EXPIRY_DAYS'' (DefaultValue (dec 7)),
      arg ''endhost-api'' ''CHAT_ENDHOST_API'' OptionalValue,
      arg ''auth-token-file'' ''CHAT_AUTH_TOKEN_FILE'' OptionalValue,
      (arg ''auth-api-key-file'' ''CHAT_AUTH_API_KEY_FILE'' OptionalValue)
        \<lparr>ag_conflicts := [''auth-token-file'']\<rparr>,
      arg ''aa-url'' ''CHAT_AA_URL'' (DefaultValue Server_Config.ANAPAYA_AA)]"

definition client_args :: "cli_arg list" where
  "client_args =
     [arg ''transport'' ''CHAT_CLIENT_TRANSPORT'' (DefaultValue (lit ''scion'')),
      arg ''server-url'' ''CHAT_CLIENT_SERVER_URL'' (DefaultValue DEV_SERVER_URL),
      arg ''endhost-api'' ''CHAT_CLIENT_ENDHOST_API'' (DefaultValue []),
      arg ''target'' ''CHAT_CLIENT_TARGET'' (DefaultValue []),
      arg ''cert-path'' ''CHAT_CLIENT_CERT_PATH'' (DefaultValue []),
      arg ''insecure'' ''CHAT_CLIENT_INSECURE'' Switch,
      arg ''auth-api-key'' ''CHAT_CLIENT_AUTH_API_KEY'' (DefaultValue []),
      arg ''snap-token'' ''CHAT_CLIENT_SNAP_TOKEN'' (DefaultValue []),
      arg ''aa-url'' ''CHAT_CLIENT_AA_URL'' (DefaultValue Client.ANAPAYA_AA)]"

definition dev_args :: "cli_arg list" where
  "dev_args =
     [arg ''control-port'' ''CHAT_DEV_CONTROL_PORT'' (DefaultValue (dec 8099)),
      arg ''bind-ip'' ''CHAT_DEV_BIND_IP'' (DefaultValue (lit ''127.0.0.1'')),
      arg ''emulator-ip'' ''CHAT_DEV_EMULATOR_IP'' (DefaultValue (lit ''10.0.2.2'')),
      arg ''server-port'' ''CHAT_DEV_SERVER_PORT'' (DefaultValue (dec 8443)),
      arg ''data-dir'' ''CHAT_DEV_DATA_DIR'' OptionalValue,
      arg ''no-server'' ''CHAT_DEV_NO_SERVER'' Switch]"

section \<open>Socket addresses read\<close>

text \<open>\<open>str::parse::<SocketAddr>\<close>: an IPv6 address may name a scope, which the record has no room for.\<close>

definition read_port :: "rstr \<Rightarrow> (nat \<times> rstr) option" where
  "read_port s =
     (case s of
        c # rest \<Rightarrow> if c = 58 then read_number 10 (length rest) True 65535 rest else None
      | [] \<Rightarrow> None)"

definition read_scope :: "rstr \<Rightarrow> rstr" where
  "read_scope s =
     (case s of
        c # rest \<Rightarrow>
          if c = 37 then (case read_number 10 (length rest) True 4294967295 rest of Some (_, r) \<Rightarrow> r | None \<Rightarrow> s) else s
      | [] \<Rightarrow> s)"

definition read_sock_v4 :: "rstr \<Rightarrow> (sock_addr \<times> rstr) option" where
  "read_sock_v4 s =
     Option.bind (read_ipv4 s) (\<lambda>(ns, r).
     map_option (\<lambda>(p, r).
         (\<lparr>sa_ip = V4 (of_nat (ns ! 0)) (of_nat (ns ! 1)) (of_nat (ns ! 2)) (of_nat (ns ! 3)), sa_port = of_nat p\<rparr>, r))
       (read_port r))"

definition read_sock_v6 :: "rstr \<Rightarrow> (sock_addr \<times> rstr) option" where
  "read_sock_v6 s =
     (case s of
        c # rest \<Rightarrow>
          if c \<noteq> 91 then None
          else Option.bind (read_ipv6 rest) (\<lambda>(ss, r).
            (case read_scope r of
               d # r \<Rightarrow>
                 if d = 93 then
                   map_option (\<lambda>(p, r). (\<lparr>sa_ip = V6 (map of_nat ss), sa_port = of_nat p\<rparr>, r)) (read_port r)
                 else None
             | [] \<Rightarrow> None))
      | [] \<Rightarrow> None)"

definition parse_sock :: "rstr \<Rightarrow> sock_addr option" where
  "parse_sock s =
     (case (case read_sock_v4 s of Some x \<Rightarrow> Some x | None \<Rightarrow> read_sock_v6 s) of
        Some (a, []) \<Rightarrow> Some a
      | _ \<Rightarrow> None)"

section \<open>From a command line to a configuration\<close>

text \<open>
  clap: the value each declared argument of a table ends with, from the environment and the words
  given, or none when it refuses them and ends the program; and the integers it reads. A switch
  ends with \<open>true\<close> or \<open>false\<close>.
\<close>

type_synonym matches = "string \<Rightarrow> rstr option"

record clap_lib =
  cp_parse :: "cli_arg list \<Rightarrow> (string \<Rightarrow> rstr option) \<Rightarrow> rstr list \<Rightarrow> matches option"
  cp_u32 :: "rstr \<Rightarrow> u32 option"
  cp_u16 :: "rstr \<Rightarrow> u16 option"

text \<open>A path is any text but the empty one; a value enum goes by its variants' names.\<close>

definition path_value :: "rstr \<Rightarrow> rstr option" where
  "path_value v = (if v = [] then None else Some v)"

definition switch_value :: "rstr \<Rightarrow> bool option" where
  "switch_value v = (if v = lit ''true'' then Some True else if v = lit ''false'' then Some False else None)"

definition transport_value :: "rstr \<Rightarrow> transport option" where
  "transport_value v = (if v = lit ''scion'' then Some Scion else if v = lit ''tcp'' then Some Tcp else None)"

definition transport_choice_value :: "rstr \<Rightarrow> transport_choice option" where
  "transport_choice_value v = (if v = lit ''scion'' then Some TScion else if v = lit ''tcp'' then Some TTcp else None)"

text \<open>\<open>FromStr\<close> of the two secrets, which refuses nothing.\<close>

definition snap_token_from_str :: "rstr \<Rightarrow> snap_token option" where
  "snap_token_from_str token = Some (SnapToken token)"

definition api_key_from_str :: "rstr \<Rightarrow> api_key option" where
  "api_key_from_str key = Some (ApiKey key)"

definition given :: "matches \<Rightarrow> string \<Rightarrow> (rstr \<Rightarrow> 'a option) \<Rightarrow> 'a option" where
  "given m name read = Option.bind (m name) read"

definition given_opt :: "matches \<Rightarrow> string \<Rightarrow> (rstr \<Rightarrow> 'a option) \<Rightarrow> 'a option option" where
  "given_opt m name read = (case m name of None \<Rightarrow> Some None | Some v \<Rightarrow> map_option Some (read v))"

definition config_from :: "clap_lib \<Rightarrow> matches \<Rightarrow> config option" where
  "config_from C m =
     Option.bind (given m ''transport'' transport_value) (\<lambda>transport.
     Option.bind (given m ''listen'' parse_sock) (\<lambda>listen.
     Option.bind (given m ''data-dir'' path_value) (\<lambda>data_dir.
     Option.bind (given m ''max-accounts'' (cp_u32 C)) (\<lambda>max_accounts.
     Option.bind (given m ''max-rooms'' (cp_u32 C)) (\<lambda>max_rooms.
     Option.bind (given m ''max-message-bytes'' (cp_u32 C)) (\<lambda>max_message_bytes.
     Option.bind (given m ''token-expiry-days'' (cp_u32 C)) (\<lambda>token_expiry_days.
     Option.bind (given_opt m ''endhost-api'' Some) (\<lambda>endhost_api.
     Option.bind (given_opt m ''auth-token-file'' path_value) (\<lambda>auth_token_file.
     Option.bind (given_opt m ''auth-api-key-file'' path_value) (\<lambda>auth_api_key_file.
     Option.bind (given m ''aa-url'' Some) (\<lambda>aa_url.
       Some \<lparr>cfg_transport = transport, cfg_listen = listen, cfg_data_dir = data_dir,
         cfg_max_accounts = max_accounts, cfg_max_rooms = max_rooms, cfg_max_message_bytes = max_message_bytes,
         cfg_token_expiry_days = token_expiry_days, cfg_endhost_api = endhost_api,
         cfg_auth_token_file = auth_token_file, cfg_auth_api_key_file = auth_api_key_file,
         cfg_aa_url = aa_url\<rparr>)))))))))))"

definition form_from :: "clap_lib \<Rightarrow> matches \<Rightarrow> connection_form option" where
  "form_from C m =
     Option.bind (given m ''transport'' transport_choice_value) (\<lambda>transport.
     Option.bind (given m ''server-url'' Some) (\<lambda>server_url.
     Option.bind (given m ''endhost-api'' Some) (\<lambda>endhost_api.
     Option.bind (given m ''target'' Some) (\<lambda>target.
     Option.bind (given m ''cert-path'' Some) (\<lambda>cert_path.
     Option.bind (given m ''insecure'' switch_value) (\<lambda>insecure.
     Option.bind (given m ''auth-api-key'' api_key_from_str) (\<lambda>auth_api_key.
     Option.bind (given m ''snap-token'' snap_token_from_str) (\<lambda>snap_token.
     Option.bind (given m ''aa-url'' Some) (\<lambda>aa_url.
       Some \<lparr>fm_transport = transport, fm_server_url = server_url, fm_endhost_api = endhost_api,
         fm_target = target, fm_cert_path = cert_path, fm_insecure = insecure,
         fm_auth_api_key = auth_api_key, fm_snap_token = snap_token, fm_aa_url = aa_url\<rparr>)))))))))"

definition dev_config_from :: "clap_lib \<Rightarrow> matches \<Rightarrow> dev_config option" where
  "dev_config_from C m =
     Option.bind (given m ''control-port'' (cp_u16 C)) (\<lambda>control_port.
     Option.bind (given m ''bind-ip'' parse_ip) (\<lambda>bind_ip.
     Option.bind (given m ''emulator-ip'' parse_ip) (\<lambda>emulator_ip.
     Option.bind (given m ''server-port'' (cp_u16 C)) (\<lambda>server_port.
     Option.bind (given_opt m ''data-dir'' path_value) (\<lambda>data_dir.
     Option.bind (given m ''no-server'' switch_value) (\<lambda>no_server.
       Some \<lparr>dc_control_port = control_port, dc_bind_ip = bind_ip, dc_emulator_ip = emulator_ip,
         dc_server_port = server_port, dc_data_dir = data_dir, dc_no_server = no_server\<rparr>))))))"

text \<open>\<open>Config::parse\<close> and \<open>ConnectionForm::parse\<close>, on the words after the program's name.\<close>

definition server_parse :: "clap_lib \<Rightarrow> (string \<Rightarrow> rstr option) \<Rightarrow> rstr list \<Rightarrow> config option" where
  "server_parse C env words = Option.bind (cp_parse C server_args env words) (config_from C)"

definition client_parse :: "clap_lib \<Rightarrow> (string \<Rightarrow> rstr option) \<Rightarrow> rstr list \<Rightarrow> connection_form option" where
  "client_parse C env words = Option.bind (cp_parse C client_args env words) (form_from C)"

definition dev_parse :: "clap_lib \<Rightarrow> (string \<Rightarrow> rstr option) \<Rightarrow> rstr list \<Rightarrow> dev_config option" where
  "dev_parse C env words = Option.bind (cp_parse C dev_args env words) (dev_config_from C)"

section \<open>What is relied on of clap\<close>

text \<open>
  Documented behaviour: with none of its variables set, a table given \<open>--name value\<close> for some of its
  arguments, each once, none in conflict and no value empty or with a leading hyphen, all required
  ones among them, ends with those values, the defaults, and its switches off.
\<close>

definition flag :: "string \<Rightarrow> rstr" where
  "flag name = lit ''--'' @ lit name"

definition words_of :: "(string \<times> rstr) list \<Rightarrow> rstr list" where
  "words_of pairs = concat (map (\<lambda>(name, v). [flag name, v]) pairs)"

definition well_given :: "cli_arg list \<Rightarrow> (string \<times> rstr) list \<Rightarrow> bool" where
  "well_given table pairs \<longleftrightarrow>
     distinct (map ag_long table) \<and> distinct (map fst pairs) \<and>
     list_all (\<lambda>(name, v). v \<noteq> [] \<and> hd v \<noteq> 45 \<and>
       list_ex (\<lambda>a. ag_long a = name \<and> ag_takes a \<noteq> Switch \<and>
         list_all (\<lambda>x. x \<notin> set (map fst pairs)) (ag_conflicts a)) table) pairs \<and>
     list_all (\<lambda>a. ag_takes a = RequiredValue \<longrightarrow> ag_long a \<in> set (map fst pairs)) table"

definition ends_with :: "cli_arg list \<Rightarrow> (string \<times> rstr) list \<Rightarrow> matches" where
  "ends_with table pairs name =
     (case map_of pairs name of
        Some v \<Rightarrow> Some v
      | None \<Rightarrow>
          (case find (\<lambda>a. ag_long a = name) table of
             Some a \<Rightarrow> (case ag_takes a of DefaultValue d \<Rightarrow> Some d | Switch \<Rightarrow> Some (lit ''false'') | _ \<Rightarrow> None)
           | None \<Rightarrow> None))"

definition unset :: "cli_arg list \<Rightarrow> (string \<Rightarrow> rstr option) \<Rightarrow> bool" where
  "unset table env \<longleftrightarrow> list_all (\<lambda>a. env (ag_env a) = None) table"

definition clap_ok :: "clap_lib \<Rightarrow> bool" where
  "clap_ok C \<longleftrightarrow>
     (\<forall>table env pairs. unset table env \<longrightarrow> well_given table pairs \<longrightarrow>
        cp_parse C table env (words_of pairs) = Some (ends_with table pairs)) \<and>
     (\<forall>n. cp_u32 C (dec (unat n)) = Some n) \<and> (\<forall>n. cp_u16 C (dec (unat n)) = Some n)"

end
