(* ===== verification/Command_Properties.thy ===== *)
theory Command_Properties
  imports Command_Line App_Properties
begin

text \<open>
  What one program prints for another to be started with: the arguments chat-dev gives for a chat
  server, and the command it prints for the terminal client, each read back by the flags of the
  program it is for. The defaults of the flags are the ones the code states elsewhere.
\<close>

section \<open>A printed socket address is read back\<close>

lemma digit_of_ascii: "48 \<le> c \<Longrightarrow> c \<le> 57 \<Longrightarrow> digit_of 10 c = Some (c - 48)"
  by (simp add: digit_of_def Let_def)

lemma digits_value_undec:
  assumes "\<forall>c\<in>set s. 48 \<le> c \<and> c \<le> 57"
  shows "digits_value 10 s = undec s"
proof -
  have "foldl (\<lambda>n c. n * 10 + (case digit_of 10 c of Some v \<Rightarrow> v | None \<Rightarrow> 0)) k s =
      foldl (\<lambda>n c. 10 * n + (c - 48)) k s" for k
    using assms by (induction s arbitrary: k) (simp_all add: digit_of_ascii mult.commute)
  then show ?thesis by (simp add: digits_value_def undec_def)
qed

lemma read_port_dec:
  assumes "n \<le> 65535"
  shows "read_port (58 # dec n) = Some (n, [])"
proof -
  have tw: "takeWhile (\<lambda>c. digit_of 10 c \<noteq> None) (dec n) = dec n"
    by (intro takeWhile_eq_all_conv [THEN iffD2] ballI) (use dec_digits digit_of_ascii in fastforce)
  have "digits_value 10 (dec n) = n" using digits_value_undec [of "dec n"] dec_digits by simp
  then show ?thesis using assms by (simp add: read_port_def read_number_def tw Let_def del: not_None_eq)
qed

lemma uint16_le: "unat (x :: u16) \<le> 65535"
proof -
  have "unat x < 2 ^ 16" using unsigned_less [of x] by (simp add: order_less_le_trans)
  then show ?thesis by simp
qed

lemma read_ipv4_show:
  assumes "r = [] \<or> digit_of 10 (hd r) = None"
  shows "read_ipv4 (show_v4 a b c d @ r) = Some ([unat a, unat b, unat c, unat d], r)"
proof -
  have lim: "unat (x :: u8) < 256" for x by (rule order_less_le_trans [OF unsigned_less]) simp
  have dot: "digit_of 10 46 = None" by (simp add: digit_of_def)
  have n: "read_number 10 3 False 255 (dec (unat (x :: u8)) @ 46 # s) = Some (unat x, 46 # s)" for x s
    by (rule read_number_dec [OF lim]) (simp add: dot)
  have e: "read_number 10 3 False 255 (dec (unat (x :: u8)) @ r) = Some (unat x, r)" for x
    by (rule read_number_dec [OF lim assms])
  have four: "read_ipv4 s = read_octets 0 (Suc (Suc (Suc (Suc 0)))) s" for s
    by (simp add: read_ipv4_def eval_nat_numeral)
  show ?thesis by (simp add: four show_v4_def read_separator_def n e)
qed

lemma parse_show_sock:
  assumes "sa_ip s = V4 a b c d"
  shows "parse_sock (show_sock s) = Some s"
proof -
  have port: "unat (sa_port s) \<le> 65535" using uint16_le [of "sa_port s"] .
  have "read_ipv4 (show_v4 a b c d @ 58 # dec (unat (sa_port s))) =
      Some ([unat a, unat b, unat c, unat d], 58 # dec (unat (sa_port s)))"
    by (rule read_ipv4_show) (simp add: digit_of_def)
  then show ?thesis using assms
    by (simp add: parse_sock_def show_sock_def read_sock_v4_def read_port_dec [OF port])
qed

section \<open>The defaults\<close>

lemma clap_okD:
  assumes "clap_ok C"
  shows "unset table env \<Longrightarrow> well_given table pairs \<Longrightarrow> cp_parse C table env (words_of pairs) = Some (ends_with table pairs)"
    and "cp_u32 C (dec (unat n)) = Some n" and "cp_u16 C (dec (unat p)) = Some p"
  using assms by (simp_all add: clap_ok_def)

lemma clap_reads:
  assumes "clap_ok C"
  shows "cp_u32 C (dec 500) = Some 500" "cp_u32 C (dec 100) = Some 100" "cp_u32 C (dec 4096) = Some 4096"
    "cp_u32 C (dec 7) = Some 7" "cp_u16 C (dec 8099) = Some 8099" "cp_u16 C (dec 8443) = Some 8443"
  using clap_okD(2) [OF assms, of 500] clap_okD(2) [OF assms, of 100] clap_okD(2) [OF assms, of 4096]
    clap_okD(2) [OF assms, of 7] clap_okD(3) [OF assms, of 8099] clap_okD(3) [OF assms, of 8443]
  by simp_all

lemmas matched = given_def given_opt_def ends_with_def arg_def transport_value_def transport_choice_value_def
  switch_value_def path_value_def snap_token_from_str_def api_key_from_str_def

lemma form_defaults:
  assumes "clap_ok C" and "unset client_args env"
  shows "client_parse C env [] = Some form_default"
proof -
  have "well_given client_args []" by (simp add: well_given_def client_args_def arg_def)
  then have "cp_parse C client_args env [] = Some (ends_with client_args [])"
    using clap_okD(1) [OF assms, of "[]"] by (simp add: words_of_def)
  then show ?thesis by (simp add: client_parse_def form_from_def form_default_def client_args_def matched)
qed

lemma parse_lit_v4: "parse_ip (lit ''127.0.0.1'') = Some (V4 127 0 0 1)" "parse_ip (lit ''10.0.2.2'') = Some (V4 10 0 2 2)"
  using parse_show_v4 [of 127 0 0 1] parse_show_v4 [of 10 0 2 2] by (simp_all add: show_v4_def dec.simps)

lemma dev_defaults:
  assumes "clap_ok C" and "unset dev_args env"
  shows "dev_parse C env [] = Some \<lparr>dc_control_port = 8099, dc_bind_ip = V4 127 0 0 1, dc_emulator_ip = V4 10 0 2 2,
    dc_server_port = 8443, dc_data_dir = None, dc_no_server = False\<rparr>"
proof -
  have "well_given dev_args []" by (simp add: well_given_def dev_args_def arg_def)
  then have "cp_parse C dev_args env [] = Some (ends_with dev_args [])"
    using clap_okD(1) [OF assms, of "[]"] by (simp add: words_of_def)
  then show ?thesis
    by (simp add: dev_parse_def dev_config_from_def dev_args_def matched clap_reads [OF assms(1)] parse_lit_v4 del: lit_simps)
      (simp add: lit_def)
qed

section \<open>The arguments chat-dev gives for a chat server\<close>

text \<open>A value that can stand behind a flag.\<close>

definition plain :: "rstr \<Rightarrow> bool" where
  "plain v \<longleftrightarrow> v \<noteq> [] \<and> hd v \<noteq> 45"

definition server_pairs :: "rstr \<Rightarrow> rstr \<Rightarrow> rstr \<Rightarrow> rstr \<Rightarrow> (string \<times> rstr) list" where
  "server_pairs listen data_dir endhost_api auth_token_file =
     [(''transport'', lit ''scion''), (''listen'', listen), (''data-dir'', data_dir), (''endhost-api'', endhost_api),
      (''auth-token-file'', auth_token_file)]"

lemma chat_server_args_words:
  "chat_server_args listen data_dir endhost_api auth_token_file =
     words_of (server_pairs listen data_dir endhost_api auth_token_file)"
  by (simp add: chat_server_args_def words_of_def server_pairs_def flag_def)

lemma server_pairs_given:
  assumes "plain listen" and "plain data_dir" and "plain endhost_api" and "plain auth_token_file"
  shows "well_given server_args (server_pairs listen data_dir endhost_api auth_token_file)"
  using assms by (simp add: well_given_def server_args_def server_pairs_def arg_def plain_def)

lemma server_args_read:
  assumes C: "clap_ok C" and env: "unset server_args env" and listen: "parse_sock listen = Some addr"
    and "plain listen" and "plain data_dir" and "plain endhost_api" and "plain auth_token_file"
  shows "server_parse C env (chat_server_args listen data_dir endhost_api auth_token_file) =
    Some (embedded_config data_dir addr endhost_api auth_token_file)"
  using assms(5,7) clap_okD(1) [OF C env server_pairs_given [OF assms(4-7)]]
  by (simp add: server_parse_def chat_server_args_words config_from_def server_args_def server_pairs_def matched listen
      clap_reads [OF C] embedded_config_def plain_def del: lit_simps)

lemma plain_sock: "sa_ip a = V4 w x y z \<Longrightarrow> plain (show_sock a)"
  using show_v4_chars [of _ w x y z] hd_in_set [of "show_v4 w x y z"]
  by (fastforce simp: plain_def show_sock_def)

lemma plain_token_file: "plain d \<Longrightarrow> plain (token_file d)"
  by (simp add: plain_def token_file_def path_join_def)

lemma dev_started:
  assumes "dev_start D N L e cfg h = (h', Ok s)"
  obtains d certificate ca_pem capi eapi sapi target port where
    "ds_profiles s = describe D cfg d (token_file d) certificate ca_pem capi eapi sapi target port"
    "sv_cert_path certificate = cert_file d"
    "dc_no_server cfg \<longleftrightarrow> ds_serving s = None"
    "\<exists>f. ho_files h' (cert_file d) = Some f \<and> from_utf8 (f_bytes f) = Some ca_pem"
    "\<And>socket scfg st. ds_serving s = Some (socket, scfg, st) \<Longrightarrow>
       scfg = embedded_config d \<lparr>sa_ip = dc_bind_ip cfg, sa_port = dc_server_port cfg\<rparr> sapi (token_file d) \<and>
       target = dl_show_host D (nl_local_addr N socket) \<and> port = sn_port (nl_local_addr N socket)"
proof -
  obtain network d where run: "dev_start_in D N L e cfg network d h = (h', Ok s)"
    using assms by (auto simp: dev_start_def Let_def split: if_splits option.splits result.splits)
  from dev_start_in_files [OF run] obtain fs1 fs2 certificate pem capi eapi sapi target port where
      cert: "load_or_create (se_os e) (dir_fault (se_open e)) L (se_random e) d fs1 = (fs2, Ok certificate)"
    and pem: "\<exists>f. ho_files h' (cert_file d) = Some f \<and> from_utf8 (f_bytes f) = Some pem"
    and prof: "ds_profiles s = describe D cfg d (token_file d) certificate pem capi eapi sapi target port"
    and alone: "dc_no_server cfg \<longleftrightarrow> ds_serving s = None"
    and emb: "\<forall>socket scfg st. ds_serving s = Some (socket, scfg, st) \<longrightarrow>
        scfg = embedded_config d \<lparr>sa_ip = dc_bind_ip cfg, sa_port = dc_server_port cfg\<rparr> sapi (token_file d) \<and>
        as_config st = scfg \<and> target = dl_show_host D (nl_local_addr N socket) \<and>
        port = sn_port (nl_local_addr N socket)"
    by metis
  show ?thesis
    by (rule that [OF prof load_or_create_ok(1) [OF cert] alone pem]) (use emb in blast)
qed


text \<open>
  Printed on one line the arguments are not quoted: a data directory with a space in its name prints
  as two words, the same line as that of other arguments.
\<close>

lemma printed_args_unquoted:
  "join_with (lit '' '') (chat_server_args l (lit ''my data'') e t) =
     join_with (lit '' '') (take 5 (chat_server_args l [] e t) @ [lit ''my'', lit ''data''] @ drop 6 (chat_server_args l [] e t))"
  by (simp add: chat_server_args_def)

section \<open>A clap to try it with\<close>

lemma flag_inj [simp]: "flag a = flag b \<longleftrightarrow> a = b"
proof -
  have "inj (of_char :: char \<Rightarrow> nat)" by (rule injI) simp
  then show ?thesis by (simp add: flag_def lit_def inj_map_eq_map)
qed

fun demo_pairs :: "cli_arg list \<Rightarrow> rstr list \<Rightarrow> (string \<times> rstr) list option" where
  "demo_pairs table [] = Some []"
| "demo_pairs table [w] = None"
| "demo_pairs table (w # v # ws) =
     (case find (\<lambda>a. flag (ag_long a) = w) table of
        None \<Rightarrow> None
      | Some a \<Rightarrow> map_option (Cons (ag_long a, v)) (demo_pairs table ws))"

definition demo_clap :: clap_lib where
  "demo_clap = \<lparr>cp_parse = (\<lambda>table env words. map_option (ends_with table) (demo_pairs table words)),
     cp_u32 = (\<lambda>s. Some (of_nat (undec s))), cp_u16 = (\<lambda>s. Some (of_nat (undec s)))\<rparr>"

lemma demo_pairs_words:
  "list_all (\<lambda>(name, v). list_ex (\<lambda>a. ag_long a = name) table) pairs \<Longrightarrow> demo_pairs table (words_of pairs) = Some pairs"
proof (induction pairs)
  case (Cons p pairs)
  obtain name v where p: "p = (name, v)" by fastforce
  with Cons.prems have "find (\<lambda>a. ag_long a = name) table \<noteq> None"
    by (auto simp: find_None_iff list_ex_iff)
  then obtain a where "find (\<lambda>a. ag_long a = name) table = Some a" "ag_long a = name"
    by (auto simp: find_Some_iff)
  with Cons p show ?case by (simp add: words_of_def)
qed (simp add: words_of_def)

lemma demo_clap_ok: "clap_ok demo_clap"
proof -
  have "demo_pairs table (words_of pairs) = Some pairs" if "well_given table pairs" for table pairs
    using that by (intro demo_pairs_words) (fastforce simp: well_given_def list_all_iff list_ex_iff)
  then show ?thesis by (simp add: clap_ok_def demo_clap_def)
qed

lemma alone_described:
  assumes "dev_start_in D N L e cfg network d h = (h', Ok s)" and "dc_no_server cfg"
  obtains certificate ca_pem capi eapi sapi where
    "network (dl_default D) = Some capi" "network (dl_server D) = Some sapi" "sv_cert_path certificate = cert_file d"
    "ds_profiles s = describe D cfg d (token_file d) certificate ca_pem capi eapi sapi
       (dl_show_ia D (dl_server D) @ lit '','' @ show_ip (dc_bind_ip cfg)) (dc_server_port cfg)"
proof -
  obtain fs1 w where w: "dev_write (se_os e) (token_file d) (dl_token D 0) (ho_files h) = (fs1, w)" by fastforce
  obtain fs2 m where m: "load_or_create (se_os e) (dir_fault (se_open e)) L (se_random e) d fs1 = (fs2, m)" by fastforce
  have w_ok: "w = Ok ()" using assms w by (auto simp: dev_start_in_def Let_def split: result.splits)
  obtain certificate ca_pem capi eapi sapi where
      known: "dev_known D (se_os e) network m fs2 = Ok (certificate, ca_pem, capi, eapi, sapi)"
    using assms w m w_ok by (auto simp: dev_start_in_def Let_def split: result.splits)
  note k = known [unfolded dev_known_Ok]
  have path: "sv_cert_path certificate = cert_file d" using load_or_create_ok(1) m k by blast
  have "ds_profiles s = describe D cfg d (token_file d) certificate ca_pem capi eapi sapi
       (dl_show_ia D (dl_server D) @ lit '','' @ show_ip (dc_bind_ip cfg)) (dc_server_port cfg)"
    using assms w w_ok m known by (auto simp: dev_start_in_def Let_def simp del: lit_simps)
  then show ?thesis using that [OF _ _ path] k by blast
qed

lemma demo_described:
  assumes "dev_start demo_dev demo_net demo_tls calm_start demo_dev_config h = (h', Ok s)"
  defines "n \<equiv> pf_default (ds_profiles s)"
  shows "dn_data_dir n = lit ''/tmp/dev''" "dn_server_endhost_api_url n = lit ''http://api/212''"
    "dn_auth_token_file n = token_file (lit ''/tmp/dev'')" "dn_endhost_api_url n = lit ''http://api/132''"
    "dn_target n = lit ''212,127.0.0.1''" "dn_base_url n = lit ''https://localhost:8443''"
    "dn_ca_path n = cert_file (lit ''/tmp/dev'')"
proof -
  have digits: "dec 132 = lit ''132''" "dec 212 = lit ''212''" "dec 8443 = lit ''8443''" "dec 127 = lit ''127''" "dec 0 = lit ''0''"
      "dec 1 = lit ''1''"
    by (simp_all add: dec.simps)
  have run: "dev_start_in demo_dev demo_net demo_tls calm_start demo_dev_config
      (\<lambda>ia. Some (lit ''http://api/'' @ dec ia)) (lit ''/tmp/dev'') h = (h', Ok s)"
    using assms(1)
    by (simp add: dev_start_def demo_dev_config_def dev_data_dir_def demo_dev_def topology_start_def Let_def del: lit_simps)
  have "dc_no_server demo_dev_config" by (simp add: demo_dev_config_def)
  then obtain certificate ca_pem capi eapi sapi where
    apis: "Some (lit ''http://api/'' @ dec (dl_default demo_dev)) = Some capi"
      "Some (lit ''http://api/'' @ dec (dl_server demo_dev)) = Some sapi"
    and path: "sv_cert_path certificate = cert_file (lit ''/tmp/dev'')"
    and s: "ds_profiles s = describe demo_dev demo_dev_config (lit ''/tmp/dev'') (token_file (lit ''/tmp/dev'')) certificate ca_pem
       capi eapi sapi (dl_show_ia demo_dev (dl_server demo_dev) @ lit '','' @ show_ip (dc_bind_ip demo_dev_config))
       (dc_server_port demo_dev_config)"
    by (rule alone_described [OF run]) (rule that)
  show "dn_data_dir n = lit ''/tmp/dev''" "dn_server_endhost_api_url n = lit ''http://api/212''"
    "dn_auth_token_file n = token_file (lit ''/tmp/dev'')" "dn_endhost_api_url n = lit ''http://api/132''"
    "dn_target n = lit ''212,127.0.0.1''" "dn_base_url n = lit ''https://localhost:8443''"
    "dn_ca_path n = cert_file (lit ''/tmp/dev'')"
    using apis path
    by (simp_all add: n_def s describe_def Let_def digits show_v4_def SERVER_NAME_def demo_dev_def demo_dev_config_def del: One_nat_def)
qed


section \<open>The command chat-dev prints for the terminal client\<close>

text \<open>The flags of the printed command; the token is what the command's last word fetches.\<close>

definition client_pairs :: "dev_network \<Rightarrow> (string \<times> rstr) list" where
  "client_pairs n =
     [(''transport'', lit ''scion''), (''server-url'', dn_base_url n), (''endhost-api'', dn_endhost_api_url n),
      (''target'', dn_target n), (''cert-path'', dn_ca_path n)]"

definition client_command :: "dev_network \<Rightarrow> rstr \<Rightarrow> rstr list" where
  "client_command n token = words_of (client_pairs n @ [(''snap-token'', token)])"

lemma summary_prints_command:
  assumes "dn_server n = Embedded"
  shows "\<exists>before after. summarise n = before @
    map (\<lambda>(name, v). lit ''      '' @ flag name @ lit '' '' @ v @ lit '' '' @ [92]) (client_pairs n) @
    [lit ''      '' @ flag ''snap-token'' @ lit '' '' @ [34] @ lit ''$(curl -s '' @ dn_control_url n @
      lit ''/info | jq -r .auth_token)'' @ [34]] @ after"
proof (intro exI)
  show "summarise n = take 8 (summarise n) @
    map (\<lambda>(name, v). lit ''      '' @ flag name @ lit '' '' @ v @ lit '' '' @ [92]) (client_pairs n) @
    [lit ''      '' @ flag ''snap-token'' @ lit '' '' @ [34] @ lit ''$(curl -s '' @ dn_control_url n @
      lit ''/info | jq -r .auth_token)'' @ [34]] @ drop 14 (summarise n)"
    using assms by (simp add: summarise_def client_pairs_def flag_def)
qed

text \<open>A value the form keeps as it is.\<close>

definition bare :: "rstr \<Rightarrow> bool" where
  "bare v \<longleftrightarrow> plain v \<and> trim v = v"

lemma client_command_read:
  assumes C: "clap_ok C" and env: "unset client_args env"
    and "bare (dn_base_url n)" "bare (dn_endhost_api_url n)" "bare (dn_target n)" "bare (dn_ca_path n)" "bare token"
  shows "client_parse C env (client_command n token) =
    Some (form_default\<lparr>fm_server_url := dn_base_url n, fm_endhost_api := dn_endhost_api_url n,
      fm_target := dn_target n, fm_cert_path := dn_ca_path n, fm_snap_token := SnapToken token\<rparr>)"
proof -
  have "well_given client_args (client_pairs n @ [(''snap-token'', token)])"
    using assms(3-7) by (simp add: well_given_def client_args_def client_pairs_def arg_def bare_def plain_def)
  from clap_okD(1) [OF C env this] show ?thesis
    by (simp add: client_parse_def client_command_def form_from_def client_args_def client_pairs_def matched form_default_def)
qed

lemma bare_graphic:
  assumes "plain v" and "list_all is_ascii_graphic v"
  shows "bare v"
proof -
  have v: "v \<noteq> []" using assms(1) by (simp add: plain_def)
  have "\<not> is_whitespace x" if "x \<in> set v" for x
    using assms(2) that by (auto simp: list_all_iff is_ascii_graphic_def is_whitespace_def)
  then have "trim v = v" unfolding trim_def by (intro trim_by_id) (use v hd_in_set last_in_set in blast)
  then show ?thesis using assms(1) by (simp add: bare_def)
qed

lemma bare_base_url: "bare (lit ''https://localhost:'' @ dec p)"
  by (rule bare_graphic) (simp_all add: plain_def dec_graphic is_ascii_graphic_def)

lemma form_handed_over:
  assumes "input_ok I" and "k_code key = KEnter" and "bare (fm_cert_path f)" and "fm_transport f = TScion"
    and "bare (fm_server_url f)" and "bare (fm_endhost_api f)" and "bare (fm_target f)"
    and "bare (snap_token_str (fm_snap_token f))" and "\<not> fm_insecure f"
  shows "snd (connection_key I key False (connection_new I f)) = Some (f\<lparr>fm_auth_api_key := ApiKey []\<rparr>)"
  using assms
  by (simp add: connection_key_def Let_def connection_form_of_def connection_new_def input_ok_def bare_def plain_def
      trust_choice_of_def credential_choice_of_def cn_pinned_def)

text \<open>C14: The command a development network prints for the terminal client leads to its server: launched with
  the flags and values of that command and the token it fetches, the client shows a form on which
  Enter connects over SCION, by the client's endhost API, to the server's address, with that token
  as the credential, and trusting only the certificate in the file named, which holds the PEM text
  described; and the address and port are those the embedded server listens on.\<close>

theorem printed_command_connects:
  assumes "clap_ok C" and "unset client_args env" and "input_ok I" and "k_code key = KEnter"
    and "dev_start D N L e cfg h = (h', Ok s)" and "n = pf_default (ds_profiles s)"
    and "tok = dn_auth_token (info_get D (ds_profiles s) k hdr)"
    and "bare (dn_endhost_api_url n)" and "bare (dn_target n)" and "bare (dn_ca_path n)" and "bare tok"
    and "ul_parse U (dn_base_url n) = Inr url" and "ul_scheme U url = lit ''https''"
    and "ul_parse U (dn_endhost_api_url n) = Inr endhost"
  shows "\<exists>form handed. client_parse C env (client_command n tok) = Some form \<and>
    snd (connection_key I key False (connection_new I form)) = Some handed \<and>
    connect_config U handed = Ok \<lparr>cc_transport = ScionKind \<lparr>sc_endhost_api = endhost,
        sc_credential = TokenCredential (SnapToken (dl_token D k)), sc_target = Some (dn_target n),
        sc_trust = Pinned (dn_ca_path n)\<rparr>, cc_server_url = url,
      cc_poll = poll_default\<lparr>pc_messages_interval := MESSAGES_REFRESH\<rparr>\<rparr> \<and>
    (\<exists>f. ho_files h' (dn_ca_path n) = Some f \<and> from_utf8 (f_bytes f) = Some (dn_ca_pem n)) \<and>
    (\<forall>socket scfg st. ds_serving s = Some (socket, scfg, st) \<longrightarrow>
      dn_target n = dl_show_host D (nl_local_addr N socket) \<and>
      dn_base_url n = lit ''https://localhost:'' @ dec (unat (sn_port (nl_local_addr N socket))))"
proof -
  from assms(5) obtain d certificate ca_pem capi eapi sapi target port where
    prof: "ds_profiles s = describe D cfg d (token_file d) certificate ca_pem capi eapi sapi target port"
    and path: "sv_cert_path certificate = cert_file d"
    and pem: "\<exists>f. ho_files h' (cert_file d) = Some f \<and> from_utf8 (f_bytes f) = Some ca_pem"
    and emb: "\<And>socket scfg st. ds_serving s = Some (socket, scfg, st) \<Longrightarrow>
       target = dl_show_host D (nl_local_addr N socket) \<and> port = sn_port (nl_local_addr N socket)"
    by (rule dev_started) blast
  have n: "dn_base_url n = lit ''https://localhost:'' @ dec (unat port)" "dn_ca_path n = cert_file d"
      "dn_ca_pem n = ca_pem" "dn_target n = target"
    by (simp_all add: assms(6) prof path describe_def Let_def SERVER_NAME_def)
  have tok: "tok = dl_token D k" by (simp add: assms(7) info_get_def)
  have base: "bare (dn_base_url n)" unfolding n by (rule bare_base_url)
  let ?form = "form_default\<lparr>fm_server_url := dn_base_url n, fm_endhost_api := dn_endhost_api_url n,
      fm_target := dn_target n, fm_cert_path := dn_ca_path n, fm_snap_token := SnapToken tok\<rparr>"
  have read: "client_parse C env (client_command n tok) = Some ?form"
    by (rule client_command_read [OF assms(1,2) base assms(8-11)])
  have hand: "snd (connection_key I key False (connection_new I ?form)) = Some ?form"
    using form_handed_over [OF assms(3,4), of ?form] base assms(8-11) by (simp add: form_default_def)
  have "connect_config U ?form = Ok \<lparr>cc_transport = ScionKind \<lparr>sc_endhost_api = endhost,
        sc_credential = TokenCredential (SnapToken (dl_token D k)), sc_target = Some (dn_target n),
        sc_trust = Pinned (dn_ca_path n)\<rparr>, cc_server_url = url,
      cc_poll = poll_default\<lparr>pc_messages_interval := MESSAGES_REFRESH\<rparr>\<rparr>"
    using assms(8-14)
    by (simp add: connect_config_def transport_of_def credential_of_def trust_of_def form_default_def scheme_def
        blank_as_none_def bare_def plain_def tok)
  moreover have "\<exists>f. ho_files h' (dn_ca_path n) = Some f \<and> from_utf8 (f_bytes f) = Some (dn_ca_pem n)"
    unfolding n by (rule pem)
  ultimately show ?thesis using read hand emb n(1,4) by blast
qed

definition demo_urls :: url_lib where
  "demo_urls = \<lparr>ul_parse = Inr, ul_scheme = takeWhile (\<lambda>c. c \<noteq> 58)\<rparr>"

corollary printed_command_connects_witness:
  "\<exists>h' s form handed. dev_start demo_dev demo_net demo_tls calm_start demo_dev_config
      \<lparr>ho_disk = Map.empty, ho_files = Map.empty\<rparr> = (h', Ok s) \<and>
    client_parse demo_clap Map.empty (client_command (pf_default (ds_profiles s)) (lit ''token2'')) = Some form \<and>
    snd (connection_key typed_input enter_key False (connection_new typed_input form)) = Some handed \<and>
    connect_config demo_urls handed = Ok \<lparr>cc_transport = ScionKind \<lparr>sc_endhost_api = lit ''http://api/132'',
        sc_credential = TokenCredential (SnapToken (lit ''token2'')), sc_target = Some (lit ''212,127.0.0.1''),
        sc_trust = Pinned (cert_file (lit ''/tmp/dev''))\<rparr>, cc_server_url = lit ''https://localhost:8443'',
      cc_poll = poll_default\<lparr>pc_messages_interval := MESSAGES_REFRESH\<rparr>\<rparr>"
proof -
  obtain h' s where run: "dev_start demo_dev demo_net demo_tls calm_start demo_dev_config
      \<lparr>ho_disk = Map.empty, ho_files = Map.empty\<rparr> = (h', Ok s)"
    using demo_dev_run by blast
  note n = demo_described [OF run]
  have tok: "lit ''token2'' = dn_auth_token (info_get demo_dev (ds_profiles s) 2 None)" "dl_token demo_dev 2 = lit ''token2''"
    by (simp_all add: info_get_def demo_dev_def dec.simps)
  have "unset client_args Map.empty" by (simp add: unset_def list_all_iff)
  moreover have "k_code enter_key = KEnter" by (simp add: enter_key_def)
  moreover have "bare (lit ''http://api/132'')" "bare (lit ''212,127.0.0.1'')" "bare (lit ''token2'')"
      "bare (cert_file (lit ''/tmp/dev''))"
    by (rule bare_graphic; simp add: plain_def is_ascii_graphic_def cert_file_def path_join_def)+
  moreover have "ul_parse demo_urls (lit ''https://localhost:8443'') = Inr (lit ''https://localhost:8443'')"
      "ul_parse demo_urls (lit ''http://api/132'') = Inr (lit ''http://api/132'')"
      "ul_scheme demo_urls (lit ''https://localhost:8443'') = lit ''https''"
    by (simp_all add: demo_urls_def)
  ultimately show ?thesis
    using printed_command_connects [OF demo_clap_ok _ typed_input_ok _ run refl tok(1), of Map.empty enter_key demo_urls,
        unfolded n tok(2)] run
    by (simp only: simp_thms) metis
qed

end
