(* ===== verification/Spec2Isabelle.thy ===== *)
theory Spec2Isabelle
  imports Store_Properties Server_Properties Client_Properties Transport App_Properties
    Startup_Properties Dev_Properties Wire_Properties App_Server_Properties
    Feed_Liveness Api_Doc Drawing_Properties Loop_Properties Processes Startup_Text Command_Properties
begin

text \<open>
  A verification development for scion-sdk-chat: a chat server over SCION or TCP, the client library
  that applications embed, and a terminal client (src/crates).

  \<^bold>\<open>The program.\<close> \<open>chat-core\<close> holds the bodies that cross the wire. \<open>chat-server\<close> keeps accounts,
  rooms and messages in SQLite behind the \<open>DataStore\<close> trait and serves them with axum handlers that a
  bearer token guards. \<open>chat-client-core\<close> makes one HTTP request per call through a \<open>Transport\<close>,
  keeps the session, and turns polling into feeds. \<open>chat-ui-ratatui\<close> is three screens and a loop that
  makes one call at a time. \<open>chat-dev\<close> starts a simulated SCION network, with the chat server in it or
  beside it, and serves a description of it.

  \<^bold>\<open>Which theory models what.\<close>
  \<^item> \<open>Prelude\<close>: results with panics, machine integers, lists. \<open>Rust_Str\<close>: strings as Unicode scalar
    values, UTF-8, trimming, splitting, decimal numbers. \<open>Std_Net\<close>: decoding UTF-8, IP and socket
    addresses, their text and its reading.
  \<^item> \<open>Api_Types\<close>: chat-core/src/api/v1, every body and the error codes.
  \<^item> \<open>Store\<close>: chat-server/src/store.rs and store/sqlite/{convert,users,rooms,messages}.rs: the three
    tables and each statement. \<open>Store_Inv\<close>: the database invariant and the step relation of the
    statements. \<open>Store_Read\<close>: what reads return, over a room's log. \<open>Data_Store\<close>: the trait, its
    contract, its provider, and opening the file (store/sqlite.rs).
  \<^item> \<open>Message_Log\<close>: the contract between who serves a room's messages and who pages through them.
  \<^item> \<open>Server_Config\<close>, \<open>Server_Auth\<close>, \<open>Server_Api\<close>: config.rs, auth.rs, api.rs and api/.
    \<open>Server_Laws\<close>: the handlers over any store that keeps the contract. \<open>Api_Doc\<close>: the OpenAPI
    annotations of the handlers and the document they are collected in.
  \<^item> \<open>Server_Cert\<close>: cert.rs, the certificate on disk and its fingerprint. \<open>Server_Startup\<close>: lib.rs,
    scion.rs and main.rs, from a configuration to what is served and how.
  \<^item> \<open>Client\<close>: chat-client-core/src/{config,error,client}.rs. \<open>Client_Feed\<close>: feed.rs. \<open>Error_Text\<close>:
    what the errors say. \<open>Transport\<close>: transport.rs and transport/.
  \<^item> \<open>Ui\<close>, \<open>Sign_In\<close>, \<open>Connection_Screen\<close>, \<open>Chat_Screen\<close>, \<open>App\<close>: chat-ui-ratatui/src, one theory a screen
    and one for app.rs. \<open>App_Work\<close>: the bodies of the app's tasks, and building the client they use.
    \<open>Drawing\<close>: ui.rs, ui/ and the \<open>draw\<close> of every screen, as the widgets handed to ratatui with their
    areas. \<open>App_Loop\<close>: \<open>App::run\<close>, the loop that draws, waits for an arm of its \<open>select!\<close>, and acts.
  \<^item> \<open>Dev_Network\<close>: chat-dev/src: the flags, the topology, starting, and the description per host.
  \<^item> \<open>Processes\<close>: the three \<open>main\<close> functions, with what stops them, and chat-dev's control API.
    \<open>Startup_Text\<close>: what the failures of the server and of chat-dev say. \<open>Command_Line\<close>: the flags the
    \<open>#[arg]\<close> attributes declare, and the configurations built from what they are given.
  \<^item> \<open>Wire\<close>: a client's request as the router reads it, and the reply as the client reads it.
    \<open>App_Server\<close>: the terminal client whose tasks and feeds are calls to this server, while others
    use it too; \<open>App_Server_Run\<close> is one concrete run of it.

  \<^bold>\<open>State and operations.\<close> A struct is a record, an enum a datatype, a method a function from the
  state to the new state and what it returns. Fallible code returns \<open>result\<close>, whose third
  constructor is a panic. Unsigned integers are words; the database's signed columns are \<open>int\<close> with
  their range checked where the code converts. Files are a map from paths to bytes and mode, with the
  faults of the system an argument. Concurrency is explicit: two statements of one store
  call are two steps with other calls between, a handler's two store calls have \<open>call_meanwhile\<close>
  between them, a client's request has \<open>meanwhile\<close> acting on its session, a feed's \<open>next\<close> is cut at
  its awaits, and the app is a step relation whose tasks finish at any time, of which its loop, a
  function of the rounds it goes through, takes steps.

  \<^bold>\<open>What is an argument.\<close> The SQLite engine (row ids, failing statements) and the clock (\<open>env\<close>);
  Argon2, JWT and header values (\<open>deps\<close>); axum's extractors (\<open>axum\<close>); serde_json and the http crate
  (\<open>codec\<close>, and with axum's and hyper's part of the way \<open>wire\<close>); the network (a transport is a
  function over its state); rcgen, the PEM decoder and SHA-256 (\<open>tls_lib\<close>); sockets, axum's server,
  the SCION SDK and QUIC (\<open>net_lib\<close>); the SCION simulator and the token mint (\<open>dev_lib\<close>); reqwest and
  the client's SCION stack (\<open>net_libs\<close>); unicode-width, tui-input, ratatui's layout (\<open>draw_lib\<close>, \<open>view_lib\<close>),
  the time and url crates; clap's splitting of a command line (\<open>clap_lib\<close>). What is relied on of them is named: \<open>env_ok\<close>, \<open>argon_ok\<close>, \<open>jwt_ok\<close>, \<open>header_ok\<close>,
  \<open>sha256_ok\<close>, \<open>header_text_ok\<close>, \<open>wire_ok\<close>, \<open>input_ok\<close>, \<open>draw_ok\<close>, \<open>view_ok\<close>, \<open>clap_ok\<close>, each shown to hold of a concrete
  instance.

  \<^bold>\<open>What the lemmas show.\<close> The store keeps its invariant and caps under any interleaving of
  statements, each call takes effect at one of them, and reads return exact pages of a room's log
  (\<open>Store_Properties\<close>). No request reaches a handler's effects without a valid token, what is accepted is
  well formed, and accounts log in with their own password only (\<open>Server_Properties\<close>). Secrets and
  certificates are made once and kept, and a restart keeps everything (\<open>Startup_Properties\<close>). A token goes
  only where it is due, a session ends only when its own token is refused, and a feed hands over
  every message once, in order (\<open>Client_Properties\<close>, over \<open>room_feed\<close> interpreted on the server). The
  transports cap what they read and sort failures (\<open>Transport\<close>). The terminal client never shows a
  feed beside the wrong room, makes one call at a time, and draws from its cache what it would draw
  afresh (\<open>App_Properties\<close>, \<open>Chat_Properties\<close>). A development network describes what it started, to each
  host in the way it can reach (\<open>Dev_Properties\<close>). Through the wire, a client's call is its handler, a
  login is a session the server honours until the time announced, and what is sent is read back
  (\<open>Wire_Properties\<close>). The app on this server is a run of the app its own theorems are about, and its
  pane is a gap-free part of the log the store holds (\<open>App_Server_Properties\<close>). A feed that is behind
  ends with all the store holds, after as many fetches as the backlog has pages (\<open>Feed_Liveness\<close>). A
  handler answers with nothing its annotation leaves out but a failure of the server and the refusal
  of a body (\<open>Api_Doc\<close>). No secret reaches the screen, and exactly the box the keys go to is marked
  (\<open>Drawing_Properties\<close>). The loop takes only steps of the app, and ends with the first round that asks
  it to (\<open>Loop_Properties\<close>). Each reader of a development network gets a token of its own (\<open>Processes\<close>).
  What chat-dev prints for another program to be started with is read by that program's flags as
  meant: the server it describes is the one it would embed, and the client it prints a command for
  connects to it (\<open>Command_Properties\<close>).

  \<^bold>\<open>Interfaces.\<close> \<open>message_log\<close> (the store and the HTTP handler provide it, the feed extends it as
  \<open>room_feed\<close>, which the handler's pages and the client's fetches over the wire interpret),
  \<open>data_store_contract\<close> (SQLite provides it, the handlers rely on it), \<open>bounded_transport\<close>.

  \<^bold>\<open>Bounds.\<close> No fuel is used: every loop of the code is over a list or one of its own steps, and
  the repeated \<open>next\<close> of a feed that catches up is \<open>catch_up\<close>, a \<open>partial_function\<close> that is shown to
  return. The pane cache counts changes in 64 bits, so its property is for fewer than 2^64
  operations. A session is honoured as announced for clocks below 2^70 ns and validities below
  2^50 s, where the token's expiry does not leave its 64 bits.

  \<^bold>\<open>Not modelled.\<close> The splitting of a command line and the reading of environment variables
  (clap), logging, and what ratatui makes of the widgets it is given (the split of areas, wrapping,
  cells), being library calls; the JSON of the bodies and of the OpenAPI document, serde's and
  utoipa's; the capacity of the channel answers wait on, which one call at a time never fills; the
  simulator's own panics on a topology it cannot build; the unit and integration tests; the Android
  and iOS apps, the CI and the documentation.
\<close>

end
